(* ===== verification/Prelude.thy ===== *)
theory Prelude
  imports
    "HOL-Library.Word"
    "HOL-Library.Monad_Syntax"
    "HOL-Library.List_Lexorder"
    "HOL-Library.Multiset"
begin

text \<open>
  Shared vocabulary of the development: machine integers, byte strings, Rust's \<open>Result\<close>
  (a sum, \<open>Err\<close> on the left), panics (\<open>None\<close> of an option), fixed-length byte arrays
  \<open>[u8; N]\<close>, big- and little-endian encodings, and the grouping loop that the client
  runs over a \<open>HashMap\<close>. The collections \<open>panic_simps\<close>, \<open>wire_simps\<close> and
  \<open>array_simps\<close> are filled by the component theories and drive their proofs.
\<close>

named_theorems panic_simps \<open>equations of the helpers that may panic\<close>
named_theorems wire_simps \<open>equations of the byte encodings\<close>
named_theorems array_simps \<open>fixed-length arrays\<close>

section \<open>Machine integers, results, panics\<close>

type_synonym u8 = "8 word"
type_synonym u16 = "16 word"
type_synonym u32 = "32 word"
type_synonym u64 = "64 word"
type_synonym bytes = "u8 list"

text \<open>
  \<open>Result<T, E>\<close> is \<open>'e + 't\<close>. A function that can panic returns \<open>'a panics\<close>;
  \<open>None\<close> is the panic, so that \<open>do\<close>-blocks of the option monad stop at the first one.
\<close>

type_synonym 'a panics = "'a option"

abbreviation Ok :: "'a \<Rightarrow> 'e + 'a" where "Ok \<equiv> Inr"
abbreviation Err :: "'e \<Rightarrow> 'e + 'a" where "Err \<equiv> Inl"

text \<open>\<open>Result::map_err\<close>, \<open>Option::ok_or\<close>, \<open>Result::unwrap\<close>, \<open>assert!\<close>.\<close>

definition map_err :: "('e \<Rightarrow> 'f) \<Rightarrow> 'e + 'a \<Rightarrow> 'f + 'a" where
  "map_err f r = (case r of Err e \<Rightarrow> Err (f e) | Ok x \<Rightarrow> Ok x)"

definition ok_or :: "'e \<Rightarrow> 'a option \<Rightarrow> 'e + 'a" where
  "ok_or e m = (case m of None \<Rightarrow> Err e | Some x \<Rightarrow> Ok x)"

definition and_then :: "'e + 'a \<Rightarrow> ('a \<Rightarrow> 'e + 'b) \<Rightarrow> 'e + 'b" where
  "and_then r f = (case r of Err e \<Rightarrow> Err e | Ok x \<Rightarrow> f x)"

definition unwrap :: "'e + 'a \<Rightarrow> 'a panics" where
  "unwrap r = (case r of Err e \<Rightarrow> None | Ok x \<Rightarrow> Some x)"

definition assert_that :: "bool \<Rightarrow> unit panics" where
  "assert_that b = (if b then Some () else None)"

lemma map_err_simps [simp]:
  "map_err f (Err e) = Err (f e)" "map_err f (Ok x) = Ok x"
  by (simp_all add: map_err_def)

lemma map_err_eq_Ok [simp]: "map_err f r = Ok x \<longleftrightarrow> r = Ok x"
  by (cases r) simp_all

lemma ok_or_simps [simp]:
  "ok_or e None = Err e" "ok_or e (Some x) = Ok x"
  by (simp_all add: ok_or_def)

lemma ok_or_eq_Ok [simp]: "ok_or e m = Ok x \<longleftrightarrow> m = Some x"
  by (cases m) simp_all

lemma and_then_simps [simp]:
  "and_then (Err e) f = Err e" "and_then (Ok x) f = f x"
  by (simp_all add: and_then_def)

lemma unwrap_simps [simp]:
  "unwrap (Err e) = None" "unwrap (Ok x) = Some x"
  by (simp_all add: unwrap_def)

lemma unwrap_eq_Some [simp]: "unwrap r = Some x \<longleftrightarrow> r = Ok x"
  by (cases r) simp_all

lemma assert_that_simps [simp]:
  "assert_that True = Some ()" "assert_that False = None"
  by (simp_all add: assert_that_def)

lemma assert_that_eq [simp]:
  "assert_that b = Some u \<longleftrightarrow> b" "assert_that b = None \<longleftrightarrow> \<not> b"
  by (simp_all add: assert_that_def)

lemma bind_assert_that [simp, panic_simps]:
  "Option.bind (assert_that b) f = (if b then f () else None)"
  by (simp add: assert_that_def)

text \<open>
  Cargo profiles: \<open>debug_assert!\<close> and the overflow checks of \<open>+\<close> and \<open>-\<close> are
  active in debug builds and compiled out in release builds, where arithmetic wraps.
\<close>

datatype build = Debug | Release

definition debug_assert :: "build \<Rightarrow> bool \<Rightarrow> unit panics" where
  "debug_assert build b = (case build of Debug \<Rightarrow> assert_that b | Release \<Rightarrow> Some ())"

definition checked_minus :: "build \<Rightarrow> 'a::len word \<Rightarrow> 'a word \<Rightarrow> 'a word panics" where
  "checked_minus build a b =
     (case build of
        Debug \<Rightarrow> (if b \<le> a then Some (a - b) else None)
      | Release \<Rightarrow> Some (a - b))"

lemma debug_assert_True [simp, panic_simps]: "debug_assert build True = Some ()"
  by (cases build) (simp_all add: debug_assert_def)

lemma checked_minus_le [simp, panic_simps]: "b \<le> a \<Longrightarrow> checked_minus build a b = Some (a - b)"
  by (cases build) (simp_all add: checked_minus_def)

lemma checked_minus_Release [simp, panic_simps]: "checked_minus Release a b = Some (a - b)"
  by (simp add: checked_minus_def)

lemma checked_minus_Some_le:
  "checked_minus Debug a b = Some c \<Longrightarrow> unat c = unat a - unat b"
  by (auto simp: checked_minus_def unat_sub split: if_splits)

section \<open>Text as bytes\<close>

definition ascii :: "string \<Rightarrow> bytes" where
  "ascii s = map of_char s"

lemma length_ascii [simp, wire_simps]: "length (ascii s) = length s"
  by (simp add: ascii_def)

section \<open>Byte order\<close>

lemma unat_bound: "unat (w :: 'a::len word) < 2 ^ LENGTH('a)"
  by (rule unsigned_less)

definition be_bytes :: "'a::len word \<Rightarrow> bytes" where
  "be_bytes w = map (\<lambda>i. ucast (drop_bit (8 * i) w)) (rev [0..<LENGTH('a) div 8])"

definition le_bytes :: "'a::len word \<Rightarrow> bytes" where
  "le_bytes w = rev (be_bytes w)"

lemma length_be_bytes [simp, wire_simps]: "length (be_bytes (w :: 'a::len word)) = LENGTH('a) div 8"
  by (simp add: be_bytes_def)

lemma length_le_bytes [simp, wire_simps]: "length (le_bytes (w :: 'a::len word)) = LENGTH('a) div 8"
  by (simp add: le_bytes_def)

lemma byte_eq_bits:
  fixes v w :: "'a::len word"
  assumes "(ucast (drop_bit (8 * i) v) :: u8) = ucast (drop_bit (8 * i) w)" and "j < 8"
  shows "bit v (8 * i + j) = bit w (8 * i + j)"
proof -
  have "bit (ucast (drop_bit (8 * i) v) :: u8) j = bit (ucast (drop_bit (8 * i) w) :: u8) j"
    using assms(1) by simp
  then show ?thesis
    using assms(2) by (simp add: bit_ucast_iff bit_drop_bit_eq)
qed

lemma be_bytes_inject [simp, wire_simps]:
  fixes v w :: "'a::len word"
  assumes len: "8 dvd LENGTH('a)"
  shows "be_bytes v = be_bytes w \<longleftrightarrow> v = w"
proof
  assume eq: "be_bytes v = be_bytes w"
  have byte: "(ucast (drop_bit (8 * i) v) :: u8) = ucast (drop_bit (8 * i) w)"
    if "i < LENGTH('a) div 8" for i
    using eq that by (auto simp: be_bytes_def)
  show "v = w"
  proof (rule bit_word_eqI)
    fix n assume "n < LENGTH('a)"
    then have "n div 8 < LENGTH('a) div 8"
      using len by (auto elim!: dvdE)
    then have "bit v (8 * (n div 8) + n mod 8) = bit w (8 * (n div 8) + n mod 8)"
      by (intro byte_eq_bits byte) simp_all
    then show "bit v n = bit w n"
      by simp
  qed
qed simp

lemma le_bytes_inject [simp, wire_simps]:
  "8 dvd LENGTH('a) \<Longrightarrow> le_bytes (v :: 'a::len word) = le_bytes w \<longleftrightarrow> v = w"
  by (simp add: le_bytes_def)

section \<open>Fixed-length byte arrays\<close>

text \<open>
  \<open>[u8; N]\<close> is \<open>'n barray\<close>: lists of bytes whose length is the type's. The const
  generic \<open>N\<close> is the type argument.
\<close>

typedef (overloaded) ('n::len) barray = "{xs :: bytes. length xs = LENGTH('n)}"
  morphisms bytes_of Barray
  by (rule exI [of _ "replicate LENGTH('n) 0"]) simp

lemma length_bytes_of [simp, array_simps]: "length (bytes_of (x :: 'n::len barray)) = LENGTH('n)"
  using bytes_of [of x] by simp

lemma bytes_of_Barray [simp, array_simps]:
  "length xs = LENGTH('n) \<Longrightarrow> bytes_of (Barray xs :: 'n::len barray) = xs"
  by (simp add: Barray_inverse)

lemma Barray_bytes_of [simp, array_simps]: "Barray (bytes_of x) = x"
  by (rule bytes_of_inverse)

lemma bytes_of_eq_iff [simp, array_simps]: "bytes_of x = bytes_of y \<longleftrightarrow> x = y"
  by (rule bytes_of_inject)

text \<open>\<open><[u8; N]>::try_from(&[u8])\<close>, and the array of zeros that \<open>zeroize\<close> leaves.\<close>

definition array_try_from :: "bytes \<Rightarrow> 'n::len barray option" where
  "array_try_from xs = (if length xs = LENGTH('n) then Some (Barray xs) else None)"

definition zero_array :: "'n::len barray" where
  "zero_array = Barray (replicate LENGTH('n) 0)"

lemma array_try_from_bytes_of [simp, array_simps]: "array_try_from (bytes_of x) = Some x"
  by (simp add: array_try_from_def)

lemma array_try_from_Some [array_simps]:
  "array_try_from xs = Some (x :: 'n::len barray) \<longleftrightarrow> xs = bytes_of x"
  by (auto simp: array_try_from_def)

lemma array_try_from_None [array_simps]:
  "array_try_from xs = (None :: 'n::len barray option) \<longleftrightarrow> length xs \<noteq> LENGTH('n)"
  by (auto simp: array_try_from_def)

lemma bytes_of_zero_array [simp, array_simps]:
  "bytes_of (zero_array :: 'n::len barray) = replicate LENGTH('n) 0"
  by (simp add: zero_array_def)

text \<open>Arrays compare as Rust's derived \<open>Ord\<close> does: lexicographically, byte by byte.\<close>

instantiation barray :: (len) linorder
begin

definition less_eq_barray :: "'a barray \<Rightarrow> 'a barray \<Rightarrow> bool" where
  "less_eq_barray x y \<longleftrightarrow> bytes_of x \<le> bytes_of y"

definition less_barray :: "'a barray \<Rightarrow> 'a barray \<Rightarrow> bool" where
  "less_barray x y \<longleftrightarrow> bytes_of x < bytes_of y"

instance
  by standard (auto simp: less_eq_barray_def less_barray_def order.strict_iff_order bytes_of_eq_iff)

end

instantiation barray :: (len) equal
begin

definition equal_barray :: "'a barray \<Rightarrow> 'a barray \<Rightarrow> bool" where
  "equal_barray x y \<longleftrightarrow> bytes_of x = bytes_of y"

instance
  by standard (simp add: equal_barray_def bytes_of_eq_iff)

end

section \<open>Grouping by key\<close>

text \<open>
  \<open>map.entry(k).or_default().push(v)\<close> over a \<open>HashMap<K, Vec<V>>\<close>, kept as an
  association list with one entry per key.
\<close>

fun entry_push :: "'k \<Rightarrow> 'v \<Rightarrow> ('k \<times> 'v list) list \<Rightarrow> ('k \<times> 'v list) list" where
  "entry_push k v [] = [(k, [v])]"
| "entry_push k v ((k', vs) # m) =
     (if k' = k then (k', vs @ [v]) # m else (k', vs) # entry_push k v m)"

fun group_entries :: "('k \<times> 'v) list \<Rightarrow> ('k \<times> 'v list) list \<Rightarrow> ('k \<times> 'v list) list" where
  "group_entries [] m = m"
| "group_entries ((k, v) # xs) m = group_entries xs (entry_push k v m)"

text \<open>What the grouping means: the values stored under \<open>k\<close>, in order of arrival.\<close>

definition values_of :: "'k \<Rightarrow> ('k \<times> 'v) list \<Rightarrow> 'v list" where
  "values_of k xs = map snd (filter (\<lambda>p. fst p = k) xs)"

lemma values_of_simps [simp]:
  "values_of k [] = []"
  "values_of k ((k', v) # xs) = (if k' = k then v # values_of k xs else values_of k xs)"
  by (simp_all add: values_of_def)

lemma values_of_append [simp]: "values_of k (xs @ ys) = values_of k xs @ values_of k ys"
  by (simp add: values_of_def)

lemma values_of_eq_Nil: "values_of k xs = [] \<longleftrightarrow> k \<notin> fst ` set xs"
  by (induction xs) (auto split: if_splits)

definition groups :: "('k \<times> 'v list) list \<Rightarrow> ('k \<times> 'v) list \<Rightarrow> bool" where
  "groups m xs \<longleftrightarrow> distinct (map fst m) \<and> fst ` set m = fst ` set xs \<and>
     (\<forall>(k, vs) \<in> set m. vs = values_of k xs)"

lemma fst_entry_push: "fst ` set (entry_push k v m) = insert k (fst ` set m)"
  by (induction k v m rule: entry_push.induct) auto

lemma distinct_entry_push: "distinct (map fst m) \<Longrightarrow> distinct (map fst (entry_push k v m))"
proof (induction k v m rule: entry_push.induct)
  case (2 k v k' vs m)
  then show ?case
    using fst_entry_push [of k v m] by (auto simp flip: set_map)
qed simp

lemma entry_push_other: "k' \<noteq> k \<Longrightarrow> (k', vs) \<in> set (entry_push k v m) \<longleftrightarrow> (k', vs) \<in> set m"
  by (induction k v m rule: entry_push.induct) auto

lemma entry_push_same:
  "(k, vs) \<in> set (entry_push k v m) \<Longrightarrow> distinct (map fst m) \<Longrightarrow>
     (k \<notin> fst ` set m \<and> vs = [v]) \<or> (\<exists>us. (k, us) \<in> set m \<and> vs = us @ [v])"
proof (induction k v m rule: entry_push.induct)
  case (2 k v k' us m)
  show ?case
  proof (cases "k' = k")
    case True
    with "2.prems" have "k \<notin> fst ` set m"
      by (auto simp flip: set_map)
    then have "(k, vs) \<notin> set m"
      by force
    with True "2.prems" show ?thesis
      by auto
  next
    case False
    with "2.prems" have "(k, vs) \<in> set (entry_push k v m)" "distinct (map fst m)"
      by auto
    from "2.IH" [OF False this] False show ?thesis
      by auto
  qed
qed auto

lemma groups_entry_push:
  assumes g: "groups m xs"
  shows "groups (entry_push k v m) (xs @ [(k, v)])"
proof -
  have d: "distinct (map fst m)" and k: "fst ` set m = fst ` set xs"
    and v: "\<And>k' vs. (k', vs) \<in> set m \<Longrightarrow> vs = values_of k' xs"
    using g by (auto simp: groups_def)
  have "vs = values_of k' (xs @ [(k, v)])" if "(k', vs) \<in> set (entry_push k v m)" for k' vs
  proof (cases "k' = k")
    case True
    with entry_push_same [of k vs v m] that d v k values_of_eq_Nil [of k xs] show ?thesis
      by auto
  next
    case False
    with that v show ?thesis
      by (simp add: entry_push_other)
  qed
  then show ?thesis
    using d k by (auto simp: groups_def distinct_entry_push fst_entry_push)
qed

lemma groups_group_entries: "groups m ys \<Longrightarrow> groups (group_entries xs m) (ys @ xs)"
proof (induction xs m arbitrary: ys rule: group_entries.induct)
  case (2 k v xs m)
  show ?case
    using "2.IH" [OF groups_entry_push [OF "2.prems", of k v]] by simp
qed simp

lemma groups_Nil [simp]: "groups [] []"
  by (simp add: groups_def)

lemma group_entries_groups: "groups (group_entries xs []) xs"
  using groups_group_entries [of "[]" "[]" xs] by simp

lemma groups_length_values:
  assumes "k1 \<noteq> k2"
  shows "length (values_of k1 xs) + length (values_of k2 xs) \<le> length xs"
  using assms by (induction xs) auto

text \<open>
  The majority argument: when each surviving group holds more than half of the entries,
  at most one group survives.
\<close>

lemma majority_group_unique:
  assumes g: "groups m xs" and maj: "length xs < 2 * t"
  shows "length (filter (\<lambda>(k, vs). t \<le> length vs) m) \<le> 1"
proof (rule ccontr)
  let ?f = "filter (\<lambda>(k, vs). t \<le> length vs) m"
  assume "\<not> length ?f \<le> 1"
  then obtain a b r where f: "?f = a # b # r"
    by (cases ?f; cases "tl ?f") auto
  obtain k1 v1 k2 v2 where ab: "a = (k1, v1)" "b = (k2, v2)"
    by (cases a, cases b) auto
  have "distinct (map fst m)"
    using g by (simp add: groups_def)
  then have "distinct (map fst ?f)"
    by (rule distinct_map_filter)
  then have ne: "k1 \<noteq> k2"
    by (simp add: f ab)
  have "a \<in> set ?f" "b \<in> set ?f"
    by (simp_all add: f)
  then have "(k1, v1) \<in> set m" "(k2, v2) \<in> set m" and t: "t \<le> length v1" "t \<le> length v2"
    by (auto simp: ab)
  then have "v1 = values_of k1 xs" "v2 = values_of k2 xs"
    using g by (auto simp: groups_def)
  then show False
    using groups_length_values [OF ne, of xs] t maj by simp
qed

section \<open>Lists and permutations\<close>

lemma those_Some: "(\<And>x. x \<in> set xs \<Longrightarrow> \<exists>y. f x = Some y) \<Longrightarrow> \<exists>ys. those (map f xs) = Some ys"
  by (induction xs) (auto, fastforce)

lemma length_those: "those xs = Some ys \<Longrightarrow> length ys = length xs"
  by (induction xs arbitrary: ys) (auto split: option.splits)

lemma set_those: "those xs = Some ys \<Longrightarrow> y \<in> set ys \<Longrightarrow> Some y \<in> set xs"
  by (induction xs arbitrary: ys) (auto split: option.splits)

lemma those_nth: "those xs = Some ys \<Longrightarrow> i < length xs \<Longrightarrow> xs ! i = Some (ys ! i)"
proof (induction xs arbitrary: ys i)
  case (Cons x xs)
  then show ?case
    by (cases i) (auto split: option.splits)
qed simp

text \<open>
  A schedule is a permutation of the indices of a list of pending operations: the order
  in which an executor completes them.
\<close>

definition is_schedule :: "nat list \<Rightarrow> 'a list \<Rightarrow> bool" where
  "is_schedule s xs \<longleftrightarrow> mset s = mset [0..<length xs]"

definition in_order :: "nat list \<Rightarrow> 'a list \<Rightarrow> 'a list" where
  "in_order s xs = map (\<lambda>i. xs ! i) s"

lemma mset_in_order: "is_schedule s xs \<Longrightarrow> mset (in_order s xs) = mset xs"
proof -
  assume "is_schedule s xs"
  then have "mset (in_order s xs) = image_mset (\<lambda>i. xs ! i) (mset [0..<length xs])"
    by (simp add: in_order_def is_schedule_def)
  also have "\<dots> = mset (map (\<lambda>i. xs ! i) [0..<length xs])"
    by (simp only: mset_map)
  finally show ?thesis
    by (simp add: map_nth)
qed

lemma length_in_order [simp]: "length (in_order s xs) = length s"
  by (simp add: in_order_def)

lemma length_schedule: "is_schedule s xs \<Longrightarrow> length s = length xs"
  using mset_eq_length [of s "[0..<length xs]"] by (simp add: is_schedule_def)

lemma set_in_order: "is_schedule s xs \<Longrightarrow> set (in_order s xs) = set xs"
  using mset_in_order mset_eq_setD by blast

lemma filter_le_1_cases:
  assumes "length xs \<le> 1"
  obtains "xs = []" | x where "xs = [x]"
  using assms by (cases xs) (auto simp: le_Suc_eq)

end
