(* ===== verification/Primitives.thy ===== *)
theory Primitives
  imports Prelude
begin

text \<open>
  The cryptographic crates the workspace depends on (curve25519-dalek, x25519-dalek,
  ed25519-dalek, sha2, blake2, hkdf, chacha20poly1305, argon2) are not part of the
  repository. Each is a field of a parameter record, with the type its documented interface
  gives it; the scalar field and the group of points are the type arguments, of classes
  \<open>field\<close> and \<open>ab_group_add\<close>, whose operators stand for the dalek operators. The
  predicates \<open>curve_laws\<close> and \<open>prim_laws\<close> collect the documented facts that theorems
  elsewhere take as named hypotheses; no definition depends on them.
\<close>

section \<open>The Ristretto group\<close>

record ('s, 'p) curve =
  scalar_from :: "u32 \<Rightarrow> 's"
  scalar_bytes :: "'s \<Rightarrow> 32 barray"
  scalar_from_canonical_bytes :: "32 barray \<Rightarrow> 's option"
  scalar_from_sha512 :: "bytes \<Rightarrow> 's"
  point_mul :: "'p \<Rightarrow> 's \<Rightarrow> 'p"
  basepoint :: "'p"
  mul_base :: "'s \<Rightarrow> 'p"
  multiscalar_mul :: "'s list \<Rightarrow> 'p list \<Rightarrow> 'p"
  compress :: "'p \<Rightarrow> 32 barray"
  decompress :: "32 barray \<Rightarrow> 'p option"
  point_from_sha512 :: "bytes \<Rightarrow> 'p"

text \<open>
  Scalar multiplication is an action of the field on the group, \<open>mul_base\<close> multiplies
  the basepoint, \<open>multiscalar_mul\<close> is the sum of the products, and the byte encodings
  are canonical.
\<close>

definition curve_laws :: "('s::field, 'p::ab_group_add) curve \<Rightarrow> bool" where
  "curve_laws C \<longleftrightarrow>
     (\<forall>P. point_mul C P 1 = P) \<and>
     (\<forall>P a b. point_mul C P (a + b) = point_mul C P a + point_mul C P b) \<and>
     (\<forall>P Q a. point_mul C (P + Q) a = point_mul C P a + point_mul C Q a) \<and>
     (\<forall>P a b. point_mul C (point_mul C P a) b = point_mul C P (a * b)) \<and>
     (\<forall>a. mul_base C a = point_mul C (basepoint C) a) \<and>
     (\<forall>a b P Q. multiscalar_mul C [a, b] [P, Q] = point_mul C P a + point_mul C Q b) \<and>
     (\<forall>P. decompress C (compress C P) = Some P) \<and>
     (\<forall>b P. decompress C b = Some P \<longrightarrow> compress C P = b) \<and>
     (\<forall>s. scalar_from_canonical_bytes C (scalar_bytes C s) = Some s) \<and>
     (\<forall>b s. scalar_from_canonical_bytes C b = Some s \<longrightarrow> scalar_bytes C s = b)"

lemma curve_lawsD:
  assumes "curve_laws C"
  shows "point_mul C P 1 = P"
    and "point_mul C P (a + b) = point_mul C P a + point_mul C P b"
    and "point_mul C (P + Q) a = point_mul C P a + point_mul C Q a"
    and "point_mul C (point_mul C P a) b = point_mul C P (a * b)"
    and "mul_base C a = point_mul C (basepoint C) a"
    and "multiscalar_mul C [a, b] [P, Q] = point_mul C P a + point_mul C Q b"
    and "decompress C (compress C P) = Some P"
    and "decompress C e = Some P \<Longrightarrow> compress C P = e"
    and "scalar_from_canonical_bytes C (scalar_bytes C a) = Some a"
    and "scalar_from_canonical_bytes C e = Some a \<Longrightarrow> scalar_bytes C a = e"
  using assms by (auto simp: curve_laws_def)

lemma point_mul_zero_left:
  assumes "curve_laws C"
  shows "point_mul C 0 a = 0"
proof -
  have "point_mul C (0 + 0) a = point_mul C 0 a + point_mul C 0 a"
    by (rule curve_lawsD(3) [OF assms])
  then show ?thesis
    by simp
qed

lemma point_mul_zero_right:
  assumes "curve_laws C"
  shows "point_mul C P 0 = 0"
proof -
  have "point_mul C P (0 + 0) = point_mul C P 0 + point_mul C P 0"
    by (rule curve_lawsD(2) [OF assms])
  then show ?thesis
    by simp
qed

lemma point_mul_minus:
  assumes "curve_laws C"
  shows "point_mul C P (- a) = - point_mul C P a"
proof -
  have "point_mul C P (a + - a) = point_mul C P a + point_mul C P (- a)"
    by (rule curve_lawsD(2) [OF assms])
  then have "point_mul C P a + point_mul C P (- a) = 0"
    by (simp add: point_mul_zero_right [OF assms])
  then show ?thesis
    by (simp add: eq_neg_iff_add_eq_0 add.commute)
qed

section \<open>Hashes, MACs, AEAD, key exchange, signatures, password hashing\<close>

record 'ed prims =
  sha512 :: "bytes \<Rightarrow> 64 barray"
  blake2s256 :: "bytes \<Rightarrow> 32 barray"
  blake2s_mac16 :: "32 barray \<Rightarrow> bytes \<Rightarrow> 16 barray"
  blake2s_mac32 :: "32 barray \<Rightarrow> bytes \<Rightarrow> 32 barray"
  hkdf_blake2s :: "bytes \<Rightarrow> bytes \<Rightarrow> 64 barray option"
  aead_encrypt :: "32 barray \<Rightarrow> 12 barray \<Rightarrow> bytes \<Rightarrow> bytes \<Rightarrow> bytes option"
  aead_decrypt :: "32 barray \<Rightarrow> 12 barray \<Rightarrow> bytes \<Rightarrow> bytes \<Rightarrow> bytes option"
  x25519_public :: "32 barray \<Rightarrow> 32 barray"
  x25519_dh :: "32 barray \<Rightarrow> 32 barray \<Rightarrow> 32 barray"
  ed25519_public :: "32 barray \<Rightarrow> 32 barray"
  ed25519_sign :: "32 barray \<Rightarrow> bytes \<Rightarrow> 64 barray"
  edwards_decompress :: "32 barray \<Rightarrow> 'ed option"
  ed25519_verify_strict :: "'ed \<Rightarrow> bytes \<Rightarrow> 64 barray \<Rightarrow> bool"
  argon2_params :: "nat \<Rightarrow> nat \<Rightarrow> nat \<Rightarrow> (nat \<times> nat \<times> nat) option"
  argon2_min_costs :: "nat \<times> nat \<times> nat"
  argon2id :: "nat \<times> nat \<times> nat \<Rightarrow> bytes \<Rightarrow> bytes \<Rightarrow> 64 barray option"

text \<open>
  The AEAD inverts, adds a 16-byte tag and accepts every message of fewer than \<open>2 ^ 32\<close>
  bytes; the Diffie-Hellman function commutes; signatures by a key verify under its public
  key; the key derivation accepts the 64-byte output the code asks of it.
\<close>

definition prim_laws :: "'ed prims \<Rightarrow> bool" where
  "prim_laws P \<longleftrightarrow>
     (\<forall>k n a m c. aead_encrypt P k n a m = Some c \<longrightarrow>
        aead_decrypt P k n a c = Some m \<and> length c = length m + 16) \<and>
     (\<forall>k n a m. length m < 2 ^ 32 \<longrightarrow> aead_encrypt P k n a m \<noteq> None) \<and>
     (\<forall>a b. x25519_dh P a (x25519_public P b) = x25519_dh P b (x25519_public P a)) \<and>
     (\<forall>sk m. \<exists>pt. edwards_decompress P (ed25519_public P sk) = Some pt \<and>
        ed25519_verify_strict P pt m (ed25519_sign P sk m)) \<and>
     (\<forall>s i. hkdf_blake2s P s i \<noteq> None)"

lemma prim_lawsD:
  assumes "prim_laws P"
  shows "aead_encrypt P k n a m = Some c \<Longrightarrow> aead_decrypt P k n a c = Some m"
    and "aead_encrypt P k n a m = Some c \<Longrightarrow> length c = length m + 16"
    and "length m < 2 ^ 32 \<Longrightarrow> \<exists>c. aead_encrypt P k n a m = Some c"
    and "x25519_dh P s (x25519_public P t) = x25519_dh P t (x25519_public P s)"
    and "\<exists>pt. edwards_decompress P (ed25519_public P s) = Some pt \<and>
      ed25519_verify_strict P pt m (ed25519_sign P s m)"
    and "\<exists>okm. hkdf_blake2s P salt ikm = Some okm"
  using assms unfolding prim_laws_def by (blast, blast, blast, blast, blast, blast)

end
