(* ===== verification/Marshalling.thy ===== *)
theory Marshalling
  imports Primitives
begin

text \<open>
  The crate \<open>juicebox_marshalling\<close> (rust/marshalling): the CBOR entry points, the
  big-endian length prefixes, and the serde visitors of \<open>bytes.rs\<close> that accept a byte
  string or a sequence of integers. CBOR itself (ciborium) is a parameter; serde's data
  model is the type \<open>serde_input\<close>, one constructor per visitor method that can be called.
\<close>

section \<open>CBOR entry points (lib.rs)\<close>

datatype serialization_error = SerializationError string
datatype deserialization_error = DeserializationError string

text \<open>The parameter: what ciborium writes for a value and reads back from bytes.\<close>

record 'a cbor =
  into_writer :: "'a \<Rightarrow> string + bytes"
  from_reader :: "bytes \<Rightarrow> string + 'a"

definition to_vec :: "'a cbor \<Rightarrow> 'a \<Rightarrow> serialization_error + bytes" where
  "to_vec K val =
     (case into_writer K val of
        Ok bs \<Rightarrow> Ok bs
      | Err e \<Rightarrow> Err (SerializationError e))"

definition from_slice :: "'a cbor \<Rightarrow> bytes \<Rightarrow> deserialization_error + 'a" where
  "from_slice K bs = map_err DeserializationError (from_reader K bs)"

text \<open>The documented property of the format: what was written is read back.\<close>

definition cbor_laws :: "'a cbor \<Rightarrow> bool" where
  "cbor_laws K \<longleftrightarrow> (\<forall>x bs. into_writer K x = Ok bs \<longrightarrow> from_reader K bs = Ok x)"

lemma to_vec_Ok [simp, wire_simps]: "to_vec K x = Ok bs \<longleftrightarrow> into_writer K x = Ok bs"
  by (simp add: to_vec_def split: sum.splits)

lemma from_slice_Ok [simp, wire_simps]: "from_slice K bs = Ok x \<longleftrightarrow> from_reader K bs = Ok x"
  by (simp add: from_slice_def)

lemma from_slice_to_vec: "cbor_laws K \<Longrightarrow> to_vec K x = Ok bs \<Longrightarrow> from_slice K bs = Ok x"
  by (simp add: cbor_laws_def)

section \<open>Length prefixes (lib.rs)\<close>

text \<open>
  The argument is any integer type (\<open>T: TryInto<u16>\<close>), so an \<open>int\<close>; a value that does
  not fit panics.
\<close>

definition to_be2 :: "int \<Rightarrow> bytes panics" where
  "to_be2 v = (if 0 \<le> v \<and> v < 2 ^ 16 then Some (be_bytes (word_of_int v :: u16)) else None)"

definition to_be4 :: "int \<Rightarrow> bytes panics" where
  "to_be4 v = (if 0 \<le> v \<and> v < 2 ^ 32 then Some (be_bytes (word_of_int v :: u32)) else None)"

definition to_be8 :: "int \<Rightarrow> bytes panics" where
  "to_be8 v = (if 0 \<le> v \<and> v < 2 ^ 64 then Some (be_bytes (word_of_int v :: u64)) else None)"

lemma to_be_Some [panic_simps]:
  "to_be2 v \<noteq> None \<longleftrightarrow> 0 \<le> v \<and> v < 2 ^ 16"
  "to_be4 v \<noteq> None \<longleftrightarrow> 0 \<le> v \<and> v < 2 ^ 32"
  "to_be8 v \<noteq> None \<longleftrightarrow> 0 \<le> v \<and> v < 2 ^ 64"
  by (simp_all add: to_be2_def to_be4_def to_be8_def)

lemma length_to_be [wire_simps]:
  "to_be2 v = Some bs \<Longrightarrow> length bs = 2"
  "to_be4 v = Some bs \<Longrightarrow> length bs = 4"
  "to_be8 v = Some bs \<Longrightarrow> length bs = 8"
  by (auto simp: to_be2_def to_be4_def to_be8_def split: if_splits)

lemma word_of_int_eq_range:
  assumes "0 \<le> v" "v < 2 ^ LENGTH('a::len)" "0 \<le> w" "w < 2 ^ LENGTH('a)"
  shows "(word_of_int v :: 'a word) = word_of_int w \<longleftrightarrow> v = w"
  using assms by (simp add: word_of_int_eq_iff take_bit_eq_mod)

lemma to_be4_inject: "to_be4 v = Some bs \<Longrightarrow> to_be4 w = Some bs \<Longrightarrow> v = w"
  using word_of_int_eq_range [where 'a=32, of v w]
  by (auto simp: to_be4_def split: if_splits)

lemma to_be2_inject: "to_be2 v = Some bs \<Longrightarrow> to_be2 w = Some bs \<Longrightarrow> v = w"
  using word_of_int_eq_range [where 'a=16, of v w]
  by (auto simp: to_be2_def split: if_splits)

text \<open>
  The framing every MAC input and salt is built from: each field preceded by its length
  on four bytes.
\<close>

fun framed :: "bytes list \<Rightarrow> bytes panics" where
  "framed [] = Some []"
| "framed (x # xs) = do {
     l \<leftarrow> to_be4 (int (length x));
     r \<leftarrow> framed xs;
     Some (l @ x @ r)
   }"

lemma framed_Some: "framed xs \<noteq> None \<longleftrightarrow> (\<forall>x \<in> set xs. length x < 2 ^ 32)"
proof (induction xs)
  case (Cons x xs)
  have "to_be4 (int (length x)) \<noteq> None \<longleftrightarrow> length x < 2 ^ 32"
    by (simp add: to_be4_def)
  with Cons show ?case
    by (auto simp: bind_eq_None_conv)
qed simp

lemma framed_ConsE:
  assumes "framed (x # xs) = Some bs"
  obtains l r where "to_be4 (int (length x)) = Some l" "framed xs = Some r" "bs = l @ x @ r"
  using assms by (auto simp: bind_eq_Some_conv)

lemma framed_Cons_inject:
  assumes "framed (x # xs) = Some bs" and "framed (y # ys) = Some bs"
  shows "x = y \<and> framed xs = framed ys"
proof -
  obtain l r where x: "to_be4 (int (length x)) = Some l" "framed xs = Some r" "bs = l @ x @ r"
    using assms(1) by (rule framed_ConsE)
  obtain l' r' where y: "to_be4 (int (length y)) = Some l'" "framed ys = Some r'" "bs = l' @ y @ r'"
    using assms(2) by (rule framed_ConsE)
  have "length l = length l'"
    using x y by (simp add: length_to_be)
  then have l: "l = l'" and rest: "x @ r = y @ r'"
    using x(3) y(3) by auto
  have "length x = length y"
    using to_be4_inject [OF x(1), of "int (length y)"] y(1) l by simp
  with rest x(2) y(2) show ?thesis
    by auto
qed

lemma framed_inject:
  assumes "framed xs = Some bs" and "framed ys = Some bs" and "length xs = length ys"
  shows "xs = ys"
  using assms
proof (induction xs ys arbitrary: bs rule: list_induct2')
  case (4 x xs y ys)
  obtain r where "framed xs = Some r"
    using "4.prems"(1) by (rule framed_ConsE)
  then show ?case
    using framed_Cons_inject [OF "4.prems"(1,2)] "4.IH" [of r] "4.prems"(3) by simp
qed auto

section \<open>Serde visitors (bytes.rs)\<close>

text \<open>
  What a deserializer hands to a visitor: borrowed bytes, an owned buffer, a sequence with
  its size hint and its elements (each \<open>next_element\<close> call may fail), or anything else.
\<close>

datatype de_error =
    Invalid_length nat
  | Invalid_value bytes
  | Invalid_type
  | Element_error string
  | De_custom string

datatype serde_input =
    Visit_bytes bytes
  | Visit_byte_buf bytes
  | Visit_seq "nat option" "(de_error + u8) list"
  | Visit_other

text \<open>\<open>while let Some(x) = seq.next_element()? { buf.push(x); }\<close>\<close>

fun push_elements :: "bytes \<Rightarrow> (de_error + u8) list \<Rightarrow> de_error + bytes" where
  "push_elements buf [] = Ok buf"
| "push_elements buf (Ok x # rest) = push_elements (buf @ [x]) rest"
| "push_elements buf (Err e # rest) = Err e"

lemma push_elements_Ok: "push_elements buf (map Ok xs) = Ok (buf @ xs)"
  by (induction xs arbitrary: buf) simp_all

lemma push_elements_Err:
  "push_elements buf (map Ok xs @ Err e # rest) = Err e"
  by (induction xs arbitrary: buf) simp_all

text \<open>\<open>impl Bytes for [u8; N]\<close>\<close>

definition serialize_array :: "'n::len barray \<Rightarrow> serde_input" where
  "serialize_array x = Visit_bytes (bytes_of x)"

definition array_visit_bytes :: "bytes \<Rightarrow> de_error + 'n::len barray" where
  "array_visit_bytes sl =
     (case array_try_from sl of
        Some x \<Rightarrow> Ok x
      | None \<Rightarrow> Err (Invalid_length (length sl)))"

fun deserialize_array :: "serde_input \<Rightarrow> de_error + 'n::len barray" where
  "deserialize_array (Visit_bytes sl) = array_visit_bytes sl"
| "deserialize_array (Visit_byte_buf buf) = array_visit_bytes buf"
| "deserialize_array (Visit_seq hint elems) =
     and_then (push_elements [] elems) array_visit_bytes"
| "deserialize_array Visit_other = Err Invalid_type"

text \<open>\<open>impl Bytes for Vec<u8>\<close>, with the capacity it reserves for a sequence.\<close>

definition serialize_vec :: "bytes \<Rightarrow> serde_input" where
  "serialize_vec xs = Visit_bytes xs"

definition seq_capacity :: "nat option \<Rightarrow> nat" where
  "seq_capacity size_hint =
     (case size_hint of
        Some hint \<Rightarrow> if hint > 1024 then 1024 else hint
      | None \<Rightarrow> 0)"

fun deserialize_vec :: "serde_input \<Rightarrow> de_error + bytes" where
  "deserialize_vec (Visit_bytes sl) = Ok sl"
| "deserialize_vec (Visit_byte_buf buf) = Ok buf"
| "deserialize_vec (Visit_seq hint elems) = push_elements [] elems"
| "deserialize_vec Visit_other = Err Invalid_type"

text \<open>\<open>impl Bytes for Scalar\<close>, \<open>RistrettoPoint\<close>, \<open>CompressedRistretto\<close>,
  \<open>CompressedEdwardsY\<close>; the compressed points are their 32 bytes.\<close>

definition serialize_scalar :: "('s, 'p) curve \<Rightarrow> 's \<Rightarrow> serde_input" where
  "serialize_scalar C s = serialize_array (scalar_bytes C s)"

definition deserialize_scalar :: "('s, 'p) curve \<Rightarrow> serde_input \<Rightarrow> de_error + 's" where
  "deserialize_scalar C inp =
     and_then (deserialize_array inp)
       (\<lambda>b. ok_or (Invalid_value (bytes_of b)) (scalar_from_canonical_bytes C b))"

definition serialize_point :: "('s, 'p) curve \<Rightarrow> 'p \<Rightarrow> serde_input" where
  "serialize_point C P = serialize_array (compress C P)"

definition deserialize_point :: "('s, 'p) curve \<Rightarrow> serde_input \<Rightarrow> de_error + 'p" where
  "deserialize_point C inp =
     and_then (deserialize_array inp)
       (\<lambda>b. ok_or (Invalid_value (bytes_of b)) (decompress C b))"

definition serialize_compressed :: "32 barray \<Rightarrow> serde_input" where
  "serialize_compressed b = serialize_array b"

definition deserialize_compressed :: "serde_input \<Rightarrow> de_error + 32 barray" where
  "deserialize_compressed inp = deserialize_array inp"

definition serialize_edwards :: "32 barray \<Rightarrow> serde_input" where
  "serialize_edwards b = serialize_array b"

definition deserialize_edwards :: "serde_input \<Rightarrow> de_error + 32 barray" where
  "deserialize_edwards inp = deserialize_array inp"

section \<open>The \<open>Bytes\<close> interface\<close>

text \<open>
  What the rest of the workspace relies on when it writes \<open>#[serde(with = "bytes")]\<close>:
  a value survives its own serialization.
\<close>

locale wire_type =
  fixes ser :: "'a \<Rightarrow> serde_input"
    and de :: "serde_input \<Rightarrow> de_error + 'a"
  assumes de_ser: "de (ser x) = Ok x"
begin

lemma ser_inject: "ser x = ser y \<longleftrightarrow> x = y"
proof
  assume "ser x = ser y"
  then have "de (ser x) = de (ser y)"
    by simp
  then show "x = y"
    by (simp add: de_ser)
qed simp

lemma de_ser_list: "map (\<lambda>x. de (ser x)) xs = map Ok xs"
  by (simp add: de_ser)

end

lemma array_visit_bytes_of [simp, wire_simps]: "array_visit_bytes (bytes_of x) = Ok x"
  by (simp add: array_visit_bytes_def)

lemma array_visit_bytes_Ok [wire_simps]:
  "array_visit_bytes sl = Ok x \<longleftrightarrow> sl = bytes_of x"
  by (auto simp: array_visit_bytes_def array_try_from_Some bytes_of_eq_iff split: option.splits)

lemma array_visit_bytes_Err [wire_simps]:
  "array_visit_bytes sl = (Err e :: de_error + 'n::len barray) \<longleftrightarrow>
     length sl \<noteq> LENGTH('n) \<and> e = Invalid_length (length sl)"
  by (auto simp: array_visit_bytes_def array_try_from_def)

interpretation array: wire_type serialize_array "deserialize_array :: serde_input \<Rightarrow> de_error + 'n::len barray"
  by unfold_locales (simp add: serialize_array_def)

interpretation vec: wire_type serialize_vec deserialize_vec
  by unfold_locales (simp add: serialize_vec_def)

interpretation compressed: wire_type serialize_compressed deserialize_compressed
  by unfold_locales (simp add: serialize_compressed_def deserialize_compressed_def array.de_ser)

interpretation edwards: wire_type serialize_edwards deserialize_edwards
  by unfold_locales (simp add: serialize_edwards_def deserialize_edwards_def array.de_ser)

lemma wire_type_scalar: "curve_laws C \<Longrightarrow> wire_type (serialize_scalar C) (deserialize_scalar C)"
  by unfold_locales
    (simp add: serialize_scalar_def deserialize_scalar_def array.de_ser curve_lawsD(9))

lemma wire_type_point: "curve_laws C \<Longrightarrow> wire_type (serialize_point C) (deserialize_point C)"
  by unfold_locales
    (simp add: serialize_point_def deserialize_point_def array.de_ser curve_lawsD(7))

section \<open>Properties\<close>

text \<open>Both visitors accept a byte string and a sequence of the same bytes alike: an array of
  \<open>N\<close> bytes is accepted exactly when the length is \<open>N\<close> and the error otherwise names the length,
  a vector of any length is accepted, an element error is passed on, and a sequence never
  reserves more than 1024 bytes in advance.\<close>

lemma bytes_visitors:
  "deserialize_array (Visit_seq hint (map Ok xs)) = (deserialize_array (Visit_bytes xs) :: de_error + 'n::len barray) \<and>
   (deserialize_array (Visit_bytes xs) = (Ok x :: de_error + 'n barray) \<longleftrightarrow> xs = bytes_of x) \<and>
   (deserialize_array (Visit_bytes xs) = (Err e :: de_error + 'n barray) \<longleftrightarrow>
      length xs \<noteq> LENGTH('n) \<and> e = Invalid_length (length xs)) \<and>
   deserialize_vec (Visit_seq hint (map Ok xs)) = Ok xs \<and>
   deserialize_vec (Visit_seq hint (map Ok xs @ Err d # rest)) = Err d \<and>
   seq_capacity hint \<le> 1024"
  by (simp add: push_elements_Ok push_elements_Err array_visit_bytes_Ok array_visit_bytes_Err
      seq_capacity_def split: option.split)

text \<open>Scalars and points survive the wire format, and distinct values have distinct encodings.\<close>

lemma curve_types_roundtrip:
  assumes "curve_laws C"
  shows "deserialize_scalar C (serialize_scalar C a) = Ok a \<and>
    deserialize_point C (serialize_point C P) = Ok P \<and>
    (serialize_scalar C a = serialize_scalar C b \<longleftrightarrow> a = b) \<and>
    (serialize_point C P = serialize_point C Q \<longleftrightarrow> P = Q)"
  using wire_type.de_ser [OF wire_type_scalar [OF assms]] wire_type.de_ser [OF wire_type_point [OF assms]]
    wire_type.ser_inject [OF wire_type_scalar [OF assms]] wire_type.ser_inject [OF wire_type_point [OF assms]]
  by simp

end
