(* ===== verification/Network.thy ===== *)
theory Network
  imports Marshalling "HOL-Library.AList"
begin

text \<open>
  The crate \<open>juicebox_networking\<close> (rust/networking/src): the HTTP types of http.rs, the RPC
  layer of rpc.rs and the conversions of reqwest.rs. A transport is a function
  that may answer a request and changes the state of the world; URLs, status codes, header
  syntax and the reqwest client are parameters.
\<close>

section \<open>HTTP (http.rs)\<close>

datatype http_method = Get | Put | Post | DeleteMethod

fun method_as_str :: "http_method \<Rightarrow> string" where
  "method_as_str Get = ''GET''"
| "method_as_str Put = ''PUT''"
| "method_as_str Post = ''POST''"
| "method_as_str DeleteMethod = ''DELETE''"

type_synonym headers = "(string \<times> string) list"
type_synonym duration = nat

record http_request =
  http_method :: http_method
  http_url :: string
  http_headers :: headers
  http_body :: "bytes option"
  http_timeout :: "duration option"

record http_response =
  response_status :: u16
  response_headers :: headers
  response_body :: bytes

type_synonym 'w http_client = "http_request \<Rightarrow> 'w \<Rightarrow> http_response option \<times> 'w"

text \<open>
  The crates \<open>url\<close> and \<open>http\<close>: joining a path to a base, printing, and the class of a
  status code (\<open>None\<close> for a number that is not a status code).
\<close>

record 'u net_lib =
  url_join :: "'u \<Rightarrow> string \<Rightarrow> 'u option"
  url_to_string :: "'u \<Rightarrow> string"
  status_is_success :: "u16 \<Rightarrow> bool option"

section \<open>RPC (rpc.rs)\<close>

datatype rpc_error =
    NetworkError
  | HttpStatus u16
  | Serialization serialization_error
  | Deserialization deserialization_error

text \<open>Both implementations of the trait \<open>Rpc\<close> use the same path.\<close>

definition RPC_PATH :: string where
  "RPC_PATH = ''req''"

record send_options =
  options_headers :: headers
  options_timeout :: "duration option"

definition send_options_default :: send_options where
  "send_options_default = \<lparr>options_headers = [], options_timeout = None\<rparr>"

definition with_timeout :: "send_options \<Rightarrow> duration \<Rightarrow> send_options" where
  "with_timeout self timeout = self\<lparr>options_timeout := Some timeout\<rparr>"

definition with_headers :: "send_options \<Rightarrow> headers \<Rightarrow> send_options" where
  "with_headers self headers = self\<lparr>options_headers := headers\<rparr>"

definition rpc_response :: "'u net_lib \<Rightarrow> 'a cbor \<Rightarrow> http_response option \<Rightarrow> rpc_error + 'a" where
  "rpc_response L K response =
     (case response of
        None \<Rightarrow> Err NetworkError
      | Some response \<Rightarrow>
          (case status_is_success L (response_status response) of
             None \<Rightarrow> Err NetworkError
           | Some True \<Rightarrow> map_err Deserialization (from_slice K (response_body response))
           | Some False \<Rightarrow>
               map_err (\<lambda>_. HttpStatus (response_status response))
                 (from_slice K (response_body response))))"

definition send_with_options ::
  "'u net_lib \<Rightarrow> 'q cbor \<Rightarrow> 'a cbor \<Rightarrow> 'w http_client \<Rightarrow> 'u \<Rightarrow> 'q \<Rightarrow> send_options \<Rightarrow> 'w \<Rightarrow>
     ((rpc_error + 'a) \<times> 'w) panics" where
  "send_with_options L KQ KA http base_url request options w = do {
     url \<leftarrow> url_join L base_url RPC_PATH;
     Some (case map_err Serialization (to_vec KQ request) of
       Err e \<Rightarrow> (Err e, w)
     | Ok body \<Rightarrow>
         (let (response, w') = http
            \<lparr>http_method = Post, http_url = url_to_string L url,
             http_headers = options_headers options, http_body = Some body,
             http_timeout = options_timeout options\<rparr> w
          in (rpc_response L KA response, w')))
   }"

definition send ::
  "'u net_lib \<Rightarrow> 'q cbor \<Rightarrow> 'a cbor \<Rightarrow> 'w http_client \<Rightarrow> 'u \<Rightarrow> 'q \<Rightarrow> 'w \<Rightarrow>
     ((rpc_error + 'a) \<times> 'w) panics" where
  "send L KQ KA http base_url request w =
     send_with_options L KQ KA http base_url request send_options_default w"

section \<open>The reqwest client (reqwest.rs)\<close>

text \<open>
  Header syntax of the crate \<open>http\<close>, and what reqwest sends and returns: a built request
  keeps the values it was given, a response has a status, headers whose values may not be
  text, and a body whose transfer may fail.
\<close>

record header_lib =
  header_name :: "string \<Rightarrow> string option"
  header_value :: "string \<Rightarrow> string option"

record built_request =
  built_method :: http_method
  built_url :: string
  built_headers :: headers
  built_body :: "bytes option"
  built_timeout :: "duration option"

record 'e reqwest_response =
  reqwest_status :: u16
  reqwest_headers :: "(string \<times> string option) list"
  reqwest_body :: "'e + bytes"

text \<open>The loop that appends the pairs whose name and value both parse.\<close>

fun append_headers :: "header_lib \<Rightarrow> headers \<Rightarrow> headers \<Rightarrow> headers" where
  "append_headers L acc [] = acc"
| "append_headers L acc ((key, v) # rest) =
     (case (header_name L key, header_value L v) of
        (Some n, Some x) \<Rightarrow> append_headers L (acc @ [(n, x)]) rest
      | _ \<Rightarrow> append_headers L acc rest)"

definition to_reqwest :: "header_lib \<Rightarrow> http_request \<Rightarrow> built_request" where
  "to_reqwest L request =
     \<lparr>built_method = http_method request, built_url = http_url request,
      built_headers = append_headers L [] (http_headers request),
      built_body = http_body request, built_timeout = http_timeout request\<rparr>"

text \<open>\<open>headers.insert(name, value)\<close> for the values that are text.\<close>

fun insert_headers :: "headers \<Rightarrow> (string \<times> string option) list \<Rightarrow> headers" where
  "insert_headers m [] = m"
| "insert_headers m ((n, Some v) # rest) = insert_headers (AList.update n v m) rest"
| "insert_headers m ((n, None) # rest) = insert_headers m rest"

definition to_response :: "'e + 'e reqwest_response \<Rightarrow> 'e + http_response" where
  "to_response resp =
     (case resp of
        Err err \<Rightarrow> Err err
      | Ok response \<Rightarrow>
          (case reqwest_body response of
             Err err \<Rightarrow> Err err
           | Ok bs \<Rightarrow> Ok \<lparr>response_status = reqwest_status response,
                          response_headers = insert_headers [] (reqwest_headers response),
                          response_body = bs\<rparr>))"

definition reqwest_send ::
  "header_lib \<Rightarrow> (built_request \<Rightarrow> 'w \<Rightarrow> ('e + 'e reqwest_response) \<times> 'w) \<Rightarrow> 'w http_client" where
  "reqwest_send L execute request w =
     (let (resp, w') = execute (to_reqwest L request) w in
      (case to_response resp of Ok r \<Rightarrow> Some r | Err _ \<Rightarrow> None, w'))"

section \<open>Lemmas\<close>

lemma send_with_options_None:
  "send_with_options L KQ KA http base request opts w = None \<longleftrightarrow> url_join L base RPC_PATH = None"
  by (auto simp: send_with_options_def bind_eq_None_conv)

lemma rpc_response_Ok:
  "rpc_response L K response = Ok x \<longleftrightarrow>
     (\<exists>r. response = Some r \<and> status_is_success L (response_status r) \<noteq> None \<and>
        from_reader K (response_body r) = Ok x)"
  by (auto simp: rpc_response_def split: option.splits bool.splits)

lemma map_err_Err: "map_err f r = Err e \<longleftrightarrow> (\<exists>d. r = Err d \<and> e = f d)"
  by (cases r) auto

lemma rpc_response_HttpStatus:
  "rpc_response L K response = Err (HttpStatus code) \<longleftrightarrow>
     (\<exists>r d. response = Some r \<and> response_status r = code \<and>
        status_is_success L code = Some False \<and> from_reader K (response_body r) = Err d)"
  by (auto simp: rpc_response_def from_slice_def map_err_Err split: option.splits bool.splits)

lemma map_of_update_other: "n \<noteq> m \<Longrightarrow> map_of (AList.update n v xs) m = map_of xs m"
  by (simp add: update_conv')

lemma map_of_insert_headers:
  "map_of (insert_headers m hs) n =
     (case filter (\<lambda>p. fst p = n \<and> snd p \<noteq> None) (rev hs) of
        [] \<Rightarrow> map_of m n | p # _ \<Rightarrow> snd p)"
  by (induction m hs rule: insert_headers.induct)
    (auto simp: update_conv' split: list.split)

lemma append_headers_eq:
  "append_headers L acc hs = acc @
     [(the (header_name L k), the (header_value L v)). (k, v) \<leftarrow> hs,
        header_name L k \<noteq> None, header_value L v \<noteq> None]"
  by (induction L acc hs rule: append_headers.induct) (auto split: option.splits)

section \<open>Properties\<close>

text \<open>A call succeeds with a value exactly when the request serializes, the transport
  answers with a valid status code (successful or not) and the body decodes to that value;
  it reports a status code exactly when the status is an error and the body does not decode.\<close>

lemma send_outcome:
  assumes "url_join L base RPC_PATH = Some url"
    and "http \<lparr>http_method = Post, http_url = url_to_string L url,
      http_headers = options_headers opts, http_body = Some body,
      http_timeout = options_timeout opts\<rparr> w = (response, w')"
    and "into_writer KQ request = Ok body"
  shows "\<exists>r. send_with_options L KQ KA http base request opts w = Some (r, w') \<and>
    (\<forall>x. r = Ok x \<longleftrightarrow> (\<exists>resp. response = Some resp \<and>
       status_is_success L (response_status resp) \<noteq> None \<and>
       from_reader KA (response_body resp) = Ok x)) \<and>
    (\<forall>code. r = Err (HttpStatus code) \<longleftrightarrow> (\<exists>resp d. response = Some resp \<and>
       response_status resp = code \<and> status_is_success L code = Some False \<and>
       from_reader KA (response_body resp) = Err d))"
proof -
  have "send_with_options L KQ KA http base request opts w = Some (rpc_response L KA response, w')"
    using assms by (simp add: send_with_options_def to_vec_def)
  then show ?thesis
    by (simp add: rpc_response_Ok rpc_response_HttpStatus)
qed

end
