(* ===== verification/Realm_Types.thy ===== *)
theory Realm_Types
  imports Marshalling
begin

text \<open>
  The data types of the realm protocol (rust/realm/api/src/types.rs): the redacting and
  zeroizing wrappers for secrets, realm ids with their textual form, and the values derived
  from the unlock key. Hexadecimal coding (the crate \<open>hex\<close>) and the generator of random
  bytes are parameters.
\<close>

section \<open>Secret wrappers\<close>

text \<open>\<open>SecretBytesArray<N>\<close> adds redaction and zeroizing to an array; its content is the array.\<close>

type_synonym 'n secret_bytes_array = "'n barray"

datatype secret_bytes_vec = SecretBytesVec (vec_secret: bytes)
datatype secret_string = SecretString (string_secret: string)

text \<open>\<open>zeroize\<close>, which \<open>drop\<close> calls, and the redacting \<open>Debug\<close> of each.\<close>

definition zeroize_array :: "'n::len secret_bytes_array \<Rightarrow> 'n secret_bytes_array" where
  "zeroize_array s = zero_array"

definition zeroize_vec :: "secret_bytes_vec \<Rightarrow> secret_bytes_vec" where
  "zeroize_vec s = SecretBytesVec []"

definition zeroize_string :: "secret_string \<Rightarrow> secret_string" where
  "zeroize_string s = SecretString []"

definition debug_array :: "'n::len secret_bytes_array \<Rightarrow> string" where
  "debug_array s = ''SecretBytesArray(REDACTED)''"

definition debug_vec :: "secret_bytes_vec \<Rightarrow> string" where
  "debug_vec s = ''SecretBytesVec(REDACTED)''"

definition debug_string :: "secret_string \<Rightarrow> string" where
  "debug_string s = ''SecretString(REDACTED)''"

text \<open>\<open>TryFrom<&[u8]>\<close>, \<open>TryFrom<Vec<u8>>\<close> and \<open>TryFrom<SecretBytesVec>\<close>.\<close>

definition secret_array_try_from :: "bytes \<Rightarrow> string + 'n::len secret_bytes_array" where
  "secret_array_try_from value =
     (case array_try_from value of
        Some value \<Rightarrow> Ok value
      | None \<Rightarrow> Err ''incorrectly sized secret array'')"

definition secret_array_try_from_vec :: "secret_bytes_vec \<Rightarrow> string + 'n::len secret_bytes_array" where
  "secret_array_try_from_vec value = secret_array_try_from (vec_secret value)"

lemma secret_array_try_from_Ok [array_simps]:
  "secret_array_try_from v = Ok s \<longleftrightarrow> v = bytes_of s"
  by (auto simp: secret_array_try_from_def array_try_from_Some split: option.splits)

lemma secret_array_try_from_Err [array_simps]:
  "secret_array_try_from v = (Err e :: string + 'n::len secret_bytes_array) \<longleftrightarrow>
     length v \<noteq> LENGTH('n) \<and> e = ''incorrectly sized secret array''"
  by (auto simp: secret_array_try_from_def array_try_from_def)

section \<open>Realm ids\<close>

datatype realm_id = RealmId (id_bytes: "16 barray")

instantiation realm_id :: linorder
begin

definition less_eq_realm_id :: "realm_id \<Rightarrow> realm_id \<Rightarrow> bool" where
  "less_eq_realm_id a b \<longleftrightarrow> id_bytes a \<le> id_bytes b"

definition less_realm_id :: "realm_id \<Rightarrow> realm_id \<Rightarrow> bool" where
  "less_realm_id a b \<longleftrightarrow> id_bytes a < id_bytes b"

instance
  by standard (auto simp: less_eq_realm_id_def less_realm_id_def realm_id.expand)

end

text \<open>The hex crate: lower-case output; decoding fails on anything but pairs of digits.\<close>

record hex_codec =
  hex_encode :: "bytes \<Rightarrow> string"
  hex_decode :: "string \<Rightarrow> bytes option"

definition hex_laws :: "hex_codec \<Rightarrow> bool" where
  "hex_laws X \<longleftrightarrow> (\<forall>bs. hex_decode X (hex_encode X bs) = Some bs) \<and>
     (\<forall>bs. CHR ''-'' \<notin> set (hex_encode X bs)) \<and>
     (\<forall>bs. length (hex_encode X bs) = 2 * length bs)"

definition realm_id_new_random :: "('r \<Rightarrow> 16 barray \<times> 'r) \<Rightarrow> 'r \<Rightarrow> realm_id \<times> 'r" where
  "realm_id_new_random fill rng = (let (i, rng') = fill rng in (RealmId i, rng'))"

text \<open>\<open>encode_to_slice(..).unwrap()\<close> panics when the output is not 32 characters.\<close>

definition realm_id_debug :: "hex_codec \<Rightarrow> realm_id \<Rightarrow> string panics" where
  "realm_id_debug X i = do {
     let buf = hex_encode X (bytes_of (id_bytes i));
     assert_that (length buf = 32);
     Some buf
   }"

definition realm_id_from_str :: "hex_codec \<Rightarrow> string \<Rightarrow> string + realm_id" where
  "realm_id_from_str X s =
     and_then (ok_or ''failed to decode hex id'' (hex_decode X (filter (\<lambda>c. c \<noteq> CHR ''-'') s)))
       (\<lambda>v. and_then (ok_or ''invalid id length'' (array_try_from v)) (\<lambda>a. Ok (RealmId a)))"

section \<open>Tokens, versions, sessions, shares\<close>

datatype auth_token = AuthToken (token_secret: secret_string)
datatype registration_version = RegistrationVersion (version_array: "16 secret_bytes_array")
datatype session_id = SessionId (session_number: u32)
datatype 's scalar_share = ScalarShare (share_scalar: 's)
datatype encrypted_user_secret = EncryptedUserSecret (encrypted_array: "145 secret_bytes_array")
datatype user_secret_access_key = UserSecretAccessKey (access_key_array: "32 secret_bytes_array")
datatype unlock_key = UnlockKey (unlock_key_array: "32 secret_bytes_array")
datatype unlock_key_tag = UnlockKeyTag (tag_array: "16 secret_bytes_array")
datatype encrypted_user_secret_commitment =
  EncryptedUserSecretCommitment (secret_commitment_array: "16 secret_bytes_array")
datatype unlock_key_commitment = UnlockKeyCommitment (unlock_commitment_array: "32 secret_bytes_array")

record policy =
  num_guesses :: u16

definition expose_token :: "auth_token \<Rightarrow> string" where
  "expose_token t = string_secret (token_secret t)"

definition registration_version_new_random ::
  "('r \<Rightarrow> 16 barray \<times> 'r) \<Rightarrow> 'r \<Rightarrow> registration_version \<times> 'r" where
  "registration_version_new_random fill rng =
     (let (version, rng') = fill rng in (RegistrationVersion version, rng'))"

definition expose_version :: "registration_version \<Rightarrow> 16 barray" where
  "expose_version v = version_array v"

definition scalar_share_bytes :: "('s, 'p) curve \<Rightarrow> 's scalar_share \<Rightarrow> 32 barray" where
  "scalar_share_bytes C s = scalar_bytes C (share_scalar s)"

definition scalar_share_try_from :: "('s, 'p) curve \<Rightarrow> 32 barray \<Rightarrow> string + 's scalar_share" where
  "scalar_share_try_from C value =
     and_then (ok_or ''invalid scalar'' (scalar_from_canonical_bytes C value)) (\<lambda>s. Ok (ScalarShare s))"

definition expose_encrypted :: "encrypted_user_secret \<Rightarrow> 145 barray" where
  "expose_encrypted e = encrypted_array e"

definition encrypted_try_from :: "bytes \<Rightarrow> string + encrypted_user_secret" where
  "encrypted_try_from value =
     and_then (secret_array_try_from value) (\<lambda>a. Ok (EncryptedUserSecret a))"

definition expose_access_key :: "user_secret_access_key \<Rightarrow> 32 barray" where
  "expose_access_key k = access_key_array k"

definition access_key_from :: "32 barray \<Rightarrow> user_secret_access_key" where
  "access_key_from value = UserSecretAccessKey value"

definition expose_unlock_key :: "unlock_key \<Rightarrow> 32 barray" where
  "expose_unlock_key k = unlock_key_array k"

definition unlock_key_from :: "32 barray \<Rightarrow> unlock_key" where
  "unlock_key_from value = UnlockKey value"

section \<open>Tags and commitments\<close>

definition expose_tag :: "unlock_key_tag \<Rightarrow> 16 barray" where
  "expose_tag t = tag_array t"

definition expose_secret_commitment :: "encrypted_user_secret_commitment \<Rightarrow> 16 barray" where
  "expose_secret_commitment c = secret_commitment_array c"

definition expose_unlock_commitment :: "unlock_key_commitment \<Rightarrow> 32 barray" where
  "expose_unlock_commitment c = unlock_commitment_array c"

text \<open>\<open>ct_eq\<close> compares every byte; \<open>==\<close> on these types is \<open>ct_eq\<close>.\<close>

fun ct_eq :: "bytes \<Rightarrow> bytes \<Rightarrow> bool" where
  "ct_eq [] [] = True"
| "ct_eq (x # xs) (y # ys) = ((x = y) \<and> ct_eq xs ys)"
| "ct_eq _ _ = False"

definition tag_eq :: "unlock_key_tag \<Rightarrow> unlock_key_tag \<Rightarrow> bool" where
  "tag_eq a b = ct_eq (bytes_of (expose_tag a)) (bytes_of (expose_tag b))"

definition secret_commitment_eq ::
  "encrypted_user_secret_commitment \<Rightarrow> encrypted_user_secret_commitment \<Rightarrow> bool" where
  "secret_commitment_eq a b =
     ct_eq (bytes_of (expose_secret_commitment a)) (bytes_of (expose_secret_commitment b))"

definition unlock_commitment_eq :: "unlock_key_commitment \<Rightarrow> unlock_key_commitment \<Rightarrow> bool" where
  "unlock_commitment_eq a b =
     ct_eq (bytes_of (expose_unlock_commitment a)) (bytes_of (expose_unlock_commitment b))"

text \<open>
  The MAC inputs: every \<open>chain_update\<close> appends, the fields are preceded by their lengths,
  and \<open>to_be4\<close> panics on a length that does not fit.
\<close>

definition unlock_key_tag_input :: "realm_id \<Rightarrow> bytes panics" where
  "unlock_key_tag_input realm_id =
     (let label = ascii ''Unlock Key Tag'' in
      framed [label, bytes_of (id_bytes realm_id)])"

definition unlock_key_tag_derive ::
  "'ed prims \<Rightarrow> unlock_key \<Rightarrow> realm_id \<Rightarrow> unlock_key_tag panics" where
  "unlock_key_tag_derive H unlock_key realm_id = do {
     input \<leftarrow> unlock_key_tag_input realm_id;
     Some (UnlockKeyTag (blake2s_mac16 H (expose_unlock_key unlock_key) input))
   }"

definition secret_commitment_input ::
  "('s, 'p) curve \<Rightarrow> realm_id \<Rightarrow> 's scalar_share \<Rightarrow> encrypted_user_secret \<Rightarrow> bytes panics" where
  "secret_commitment_input C realm_id share encrypted_secret =
     (let label = ascii ''Encrypted User Secret Commitment'' in
      framed [label, bytes_of (id_bytes realm_id), bytes_of (scalar_share_bytes C share),
              bytes_of (expose_encrypted encrypted_secret)])"

definition secret_commitment_derive ::
  "('s, 'p) curve \<Rightarrow> 'ed prims \<Rightarrow> unlock_key \<Rightarrow> realm_id \<Rightarrow> 's scalar_share \<Rightarrow>
     encrypted_user_secret \<Rightarrow> encrypted_user_secret_commitment panics" where
  "secret_commitment_derive C H unlock_key realm_id share encrypted_secret = do {
     input \<leftarrow> secret_commitment_input C realm_id share encrypted_secret;
     Some (EncryptedUserSecretCommitment
       (blake2s_mac16 H (expose_unlock_key unlock_key) input))
   }"

section \<open>Lemmas\<close>

lemma ct_eq_iff [simp]: "ct_eq xs ys \<longleftrightarrow> xs = ys"
  by (induction xs ys rule: ct_eq.induct) auto

lemma secret_eq_iff [simp]:
  "tag_eq a b \<longleftrightarrow> a = b"
  "secret_commitment_eq c d \<longleftrightarrow> c = d"
  "unlock_commitment_eq e f \<longleftrightarrow> e = f"
  by (cases a; cases b; cases c; cases d; cases e; cases f;
      simp add: tag_eq_def secret_commitment_eq_def unlock_commitment_eq_def expose_tag_def
        expose_secret_commitment_def expose_unlock_commitment_def)+

text \<open>The lengths are constants, so the derivations never panic.\<close>

lemma tag_derive_total [panic_simps]:
  "\<exists>input. unlock_key_tag_input i = Some input"
  "\<exists>t. unlock_key_tag_derive H k i = Some t"
proof -
  show "\<exists>input. unlock_key_tag_input i = Some input"
    using framed_Some [of "[ascii ''Unlock Key Tag'', bytes_of (id_bytes i)]"]
    by (simp add: unlock_key_tag_input_def)
  then show "\<exists>t. unlock_key_tag_derive H k i = Some t"
    by (auto simp: unlock_key_tag_derive_def)
qed

lemma secret_commitment_total [panic_simps]:
  "\<exists>input. secret_commitment_input C i s e = Some input"
  "\<exists>c. secret_commitment_derive C H k i s e = Some c"
proof -
  show "\<exists>input. secret_commitment_input C i s e = Some input"
    using framed_Some [of "[ascii ''Encrypted User Secret Commitment'', bytes_of (id_bytes i),
      bytes_of (scalar_share_bytes C s), bytes_of (expose_encrypted e)]"]
    by (simp add: secret_commitment_input_def)
  then show "\<exists>c. secret_commitment_derive C H k i s e = Some c"
    by (auto simp: secret_commitment_derive_def)
qed

lemma tag_input_inject: "unlock_key_tag_input i = unlock_key_tag_input j \<longleftrightarrow> i = j"
proof
  obtain bs where bs: "unlock_key_tag_input i = Some bs"
    using tag_derive_total(1) by blast
  assume "unlock_key_tag_input i = unlock_key_tag_input j"
  with bs have "framed [ascii ''Unlock Key Tag'', bytes_of (id_bytes i)] = Some bs"
    "framed [ascii ''Unlock Key Tag'', bytes_of (id_bytes j)] = Some bs"
    by (simp_all add: unlock_key_tag_input_def)
  then have "[ascii ''Unlock Key Tag'', bytes_of (id_bytes i)] =
      [ascii ''Unlock Key Tag'', bytes_of (id_bytes j)]"
    by (rule framed_inject) simp
  then show "i = j"
    by (simp add: realm_id.expand)
qed simp

lemma secret_commitment_input_inject:
  assumes "curve_laws C"
  shows "secret_commitment_input C i s e = secret_commitment_input C j t f \<longleftrightarrow>
    i = j \<and> s = t \<and> e = f"
proof
  let ?l = "ascii ''Encrypted User Secret Commitment''"
  obtain bs where bs: "secret_commitment_input C i s e = Some bs"
    using secret_commitment_total(1) by blast
  assume "secret_commitment_input C i s e = secret_commitment_input C j t f"
  with bs have
    "framed [?l, bytes_of (id_bytes i), bytes_of (scalar_share_bytes C s), bytes_of (expose_encrypted e)] = Some bs"
    "framed [?l, bytes_of (id_bytes j), bytes_of (scalar_share_bytes C t), bytes_of (expose_encrypted f)] = Some bs"
    by (simp_all add: secret_commitment_input_def)
  then have
    "[?l, bytes_of (id_bytes i), bytes_of (scalar_share_bytes C s), bytes_of (expose_encrypted e)] =
     [?l, bytes_of (id_bytes j), bytes_of (scalar_share_bytes C t), bytes_of (expose_encrypted f)]"
    by (rule framed_inject) simp
  then have ids: "i = j" and sc: "scalar_bytes C (share_scalar s) = scalar_bytes C (share_scalar t)"
    and enc: "expose_encrypted e = expose_encrypted f"
    by (simp_all add: realm_id.expand scalar_share_bytes_def)
  have "Some (share_scalar s) = Some (share_scalar t)"
    using sc curve_lawsD(9) [OF assms] by metis
  then have "s = t"
    by (simp add: scalar_share.expand)
  moreover have "e = f"
    using enc by (cases e; cases f) (simp add: expose_encrypted_def)
  ultimately show "i = j \<and> s = t \<and> e = f"
    using ids by simp
qed simp

lemma tag_input_separate: "unlock_key_tag_input i \<noteq> secret_commitment_input C j s e"
proof
  assume eq: "unlock_key_tag_input i = secret_commitment_input C j s e"
  obtain bs where "unlock_key_tag_input i = Some bs"
    using tag_derive_total(1) by blast
  with eq have "ascii ''Unlock Key Tag'' = ascii ''Encrypted User Secret Commitment''"
    unfolding unlock_key_tag_input_def secret_commitment_input_def Let_def
    using framed_Cons_inject by metis
  then have "length (ascii ''Unlock Key Tag'') = length (ascii ''Encrypted User Secret Commitment'')"
    by simp
  then show False
    by simp
qed

lemma realm_id_roundtrip:
  assumes hex: "hex_laws X" and dbg: "realm_id_debug X i = Some t"
    and strip: "filter (\<lambda>c. c \<noteq> CHR ''-'') s = t"
  shows "realm_id_from_str X s = Ok i"
proof -
  have "t = hex_encode X (bytes_of (id_bytes i))"
    using dbg by (auto simp: realm_id_debug_def Let_def split: if_splits)
  then show ?thesis
    using hex strip by (simp add: realm_id_from_str_def hex_laws_def)
qed

lemma realm_id_debug_total: "hex_laws X \<Longrightarrow> \<exists>t. realm_id_debug X i = Some t"
  by (simp add: realm_id_debug_def hex_laws_def)

section \<open>Properties\<close>

text \<open>A realm id survives being printed and parsed, also when dashes are inserted in the
  printed form (as in a UUID), and printing never panics.\<close>

lemma realm_id_print_parse:
  assumes "hex_laws X"
  shows "\<exists>t. realm_id_debug X i = Some t \<and>
    (\<forall>s. filter (\<lambda>c. c \<noteq> CHR ''-'') s = t \<longrightarrow> realm_id_from_str X s = Ok i)"
  using realm_id_debug_total [OF assms] realm_id_roundtrip [OF assms] by blast

text \<open>C27. Neither derivation panics, and the MAC inputs separate their uses: a tag's input is
  never a commitment's, equal tag inputs are for the same realm, and equal commitment inputs
  are for the same realm, share and ciphertext.\<close>

theorem mac_inputs_separate:
  assumes "curve_laws C"
  shows "unlock_key_tag_derive H k i \<noteq> None \<and> secret_commitment_derive C H k i s e \<noteq> None \<and>
    unlock_key_tag_input i \<noteq> secret_commitment_input C j t f \<and>
    (unlock_key_tag_input i = unlock_key_tag_input j \<longleftrightarrow> i = j) \<and>
    (secret_commitment_input C i s e = secret_commitment_input C j t f \<longleftrightarrow> i = j \<and> s = t \<and> e = f)"
  using tag_derive_total(2) [of H k i] secret_commitment_total(2) [of C H k i s e]
    tag_input_separate [of i C j t f] tag_input_inject [of i j]
    secret_commitment_input_inject [OF assms, of i s e j t f] by auto

end
