(* ===== verification/Noise.thy ===== *)
theory Noise
  imports Primitives
begin

text \<open>
  The crate \<open>juicebox_noise\<close> (rust/noise/src/lib.rs, client.rs, server.rs): the symmetric
  state of \<open>Noise_NK_25519_ChaChaPoly_BLAKE2s\<close>, the two sides of the handshake and the
  transport that follows. X25519 keys are their 32 bytes; a fresh ephemeral secret comes
  from the source \<open>random\<close>.
\<close>

section \<open>Constants and messages (lib.rs)\<close>

definition PROTOCOL_NAME :: string where
  "PROTOCOL_NAME = ''Noise_NK_25519_ChaChaPoly_BLAKE2s''"

definition HASH_LEN :: nat where
  "HASH_LEN = 32"

record handshake_request =
  client_ephemeral_public :: bytes
  request_ciphertext :: bytes

record handshake_response =
  server_ephemeral_public :: bytes
  response_ciphertext :: bytes

datatype encryption_error = EncryptionError

section \<open>Cipher states (lib.rs)\<close>

record cipher_state =
  cipher_key :: "32 barray"
  nonce :: u64

definition cipher_state_new :: "32 barray \<Rightarrow> cipher_state" where
  "cipher_state_new key = \<lparr>cipher_key = key, nonce = 0\<rparr>"

definition next_nonce :: "cipher_state \<Rightarrow> (12 barray \<times> cipher_state) panics" where
  "next_nonce s = do {
     let padded = replicate 4 0 @ le_bytes (nonce s);
     nonce' \<leftarrow> (if nonce s = - 1 then None else Some (nonce s + 1));
     assert_that (nonce' \<noteq> - 1);
     Some (Barray padded, s\<lparr>nonce := nonce'\<rparr>)
   }"

definition encrypt_with_ad ::
  "'ed prims \<Rightarrow> cipher_state \<Rightarrow> bytes \<Rightarrow> bytes \<Rightarrow>
     ((encryption_error + bytes) \<times> cipher_state) panics" where
  "encrypt_with_ad H s msg aad = do {
     (n, s') \<leftarrow> next_nonce s;
     Some (ok_or EncryptionError (aead_encrypt H (cipher_key s') n aad msg), s')
   }"

definition decrypt_with_ad ::
  "'ed prims \<Rightarrow> cipher_state \<Rightarrow> bytes \<Rightarrow> bytes \<Rightarrow>
     ((encryption_error + bytes) \<times> cipher_state) panics" where
  "decrypt_with_ad H s msg aad = do {
     (n, s') \<leftarrow> next_nonce s;
     Some (ok_or EncryptionError (aead_decrypt H (cipher_key s') n aad msg), s')
   }"

section \<open>Transport (lib.rs)\<close>

record transport =
  inbound :: cipher_state
  outbound :: cipher_state

definition transport_decrypt ::
  "'ed prims \<Rightarrow> transport \<Rightarrow> bytes \<Rightarrow> ((encryption_error + bytes) \<times> transport) panics" where
  "transport_decrypt H t ciphertext = do {
     (r, s) \<leftarrow> decrypt_with_ad H (inbound t) ciphertext [];
     Some (r, t\<lparr>inbound := s\<rparr>)
   }"

definition transport_encrypt ::
  "'ed prims \<Rightarrow> transport \<Rightarrow> bytes \<Rightarrow> ((encryption_error + bytes) \<times> transport) panics" where
  "transport_encrypt H t plaintext = do {
     (r, s) \<leftarrow> encrypt_with_ad H (outbound t) plaintext [];
     Some (r, t\<lparr>outbound := s\<rparr>)
   }"

section \<open>Handshake hash and chaining key (lib.rs)\<close>

definition handshake_hash_new :: "'ed prims \<Rightarrow> (32 barray \<times> 32 barray) panics" where
  "handshake_hash_new H =
     (if length PROTOCOL_NAME \<ge> HASH_LEN
      then let h = blake2s256 H (ascii PROTOCOL_NAME) in Some (h, h)
      else None)"

definition mix_hash :: "'ed prims \<Rightarrow> 32 barray \<Rightarrow> bytes \<Rightarrow> 32 barray" where
  "mix_hash H h data = blake2s256 H (bytes_of h @ data)"

definition hkdf_pair :: "'ed prims \<Rightarrow> bytes \<Rightarrow> bytes \<Rightarrow> (32 barray \<times> 32 barray) panics" where
  "hkdf_pair H salt ikm = do {
     assert_that (HASH_LEN = 32);
     okm \<leftarrow> hkdf_blake2s H salt ikm;
     Some (Barray (take HASH_LEN (bytes_of okm)), Barray (drop HASH_LEN (bytes_of okm)))
   }"

definition mix_key :: "'ed prims \<Rightarrow> 32 barray \<Rightarrow> 32 barray \<Rightarrow> (cipher_state \<times> 32 barray) panics" where
  "mix_key H ck dh = do {
     (ck', k) \<leftarrow> hkdf_pair H (bytes_of ck) (bytes_of dh);
     Some (cipher_state_new k, ck')
   }"

datatype role = Client | Server

definition ck_split :: "'ed prims \<Rightarrow> 32 barray \<Rightarrow> role \<Rightarrow> transport panics" where
  "ck_split H ck role = do {
     (k1, k2) \<leftarrow> hkdf_pair H (bytes_of ck) [];
     Some (case role of
       Server \<Rightarrow> \<lparr>inbound = cipher_state_new k1, outbound = cipher_state_new k2\<rparr>
     | Client \<Rightarrow> \<lparr>inbound = cipher_state_new k2, outbound = cipher_state_new k1\<rparr>)
   }"

section \<open>Client side (client.rs)\<close>

datatype client_handshake_error = InvalidServerKey | ClientDecryption | ClientEncryption

record client_handshake =
  client_ephemeral_secret :: "32 barray"
  client_h :: "32 barray"
  client_ck :: "32 barray"

definition client_start_with_secret ::
  "'ed prims \<Rightarrow> 32 barray \<Rightarrow> 32 barray \<Rightarrow> bytes \<Rightarrow> bytes \<Rightarrow>
     (client_handshake_error + (client_handshake \<times> handshake_request)) panics" where
  "client_start_with_secret H ephemeral server_static_public prologue payload_plaintext = do {
     let ephemeral_public = x25519_public H ephemeral;
     (h0, ck0) \<leftarrow> handshake_hash_new H;
     let h1 = mix_hash H h0 prologue;
     let h2 = mix_hash H h1 (bytes_of server_static_public);
     let h3 = mix_hash H h2 (bytes_of ephemeral_public);
     (cipher, ck) \<leftarrow> mix_key H ck0 (x25519_dh H ephemeral server_static_public);
     (r, _) \<leftarrow> encrypt_with_ad H cipher payload_plaintext (bytes_of h3);
     Some (case map_err (\<lambda>_. ClientEncryption) r of
       Err e \<Rightarrow> Err e
     | Ok payload_ciphertext \<Rightarrow>
         let h = mix_hash H h3 payload_ciphertext in
         Ok (\<lparr>client_ephemeral_secret = ephemeral, client_h = h, client_ck = ck\<rparr>,
             \<lparr>client_ephemeral_public = bytes_of ephemeral_public,
              request_ciphertext = payload_ciphertext\<rparr>))
   }"

definition client_start ::
  "'ed prims \<Rightarrow> ('r \<Rightarrow> 32 barray \<times> 'r) \<Rightarrow> 32 barray \<Rightarrow> bytes \<Rightarrow> 'r \<Rightarrow>
     ((client_handshake_error + (client_handshake \<times> handshake_request)) \<times> 'r) panics" where
  "client_start H random server_static_public payload_plaintext rng = do {
     let (ephemeral, rng') = random rng;
     r \<leftarrow> client_start_with_secret H ephemeral server_static_public [] payload_plaintext;
     Some (r, rng')
   }"

definition client_finish ::
  "'ed prims \<Rightarrow> client_handshake \<Rightarrow> handshake_response \<Rightarrow>
     (client_handshake_error + (transport \<times> bytes)) panics" where
  "client_finish H self response =
     (case array_try_from (server_ephemeral_public response) of
        None \<Rightarrow> Some (Err InvalidServerKey)
      | Some server_public \<Rightarrow> do {
          let h = mix_hash H (client_h self) (bytes_of (server_public :: 32 barray));
          (cipher, ck) \<leftarrow> mix_key H (client_ck self)
            (x25519_dh H (client_ephemeral_secret self) server_public);
          (r, _) \<leftarrow> decrypt_with_ad H cipher (response_ciphertext response) (bytes_of h);
          case map_err (\<lambda>_. ClientDecryption) r of
            Err e \<Rightarrow> Some (Err e)
          | Ok payload_plaintext \<Rightarrow> do {
              t \<leftarrow> ck_split H ck Client;
              Some (Ok (t, payload_plaintext))
            }
        })"

section \<open>Server side (server.rs)\<close>

datatype server_handshake_error = InvalidClientKey | ServerDecryption | ServerEncryption

record server_handshake =
  server_cipher :: cipher_state
  server_h :: "32 barray"
  server_ck :: "32 barray"
  server_public :: bytes

definition server_start_with_secret ::
  "'ed prims \<Rightarrow> 32 barray \<Rightarrow> 32 barray \<times> 32 barray \<Rightarrow> bytes \<Rightarrow> handshake_request \<Rightarrow>
     (server_handshake_error + (server_handshake \<times> bytes)) panics" where
  "server_start_with_secret H ephemeral static prologue request =
     (let (static_secret, static_public) = static in
      case array_try_from (client_ephemeral_public request) of
        None \<Rightarrow> Some (Err InvalidClientKey)
      | Some client_public \<Rightarrow> do {
          (h0, ck0) \<leftarrow> handshake_hash_new H;
          let h1 = mix_hash H h0 prologue;
          let h2 = mix_hash H h1 (bytes_of static_public);
          let h3 = mix_hash H h2 (bytes_of (client_public :: 32 barray));
          (cipher0, ck1) \<leftarrow> mix_key H ck0 (x25519_dh H static_secret client_public);
          (r, _) \<leftarrow> decrypt_with_ad H cipher0 (request_ciphertext request) (bytes_of h3);
          case map_err (\<lambda>_. ServerDecryption) r of
            Err e \<Rightarrow> Some (Err e)
          | Ok payload_plaintext \<Rightarrow> do {
              let h4 = mix_hash H h3 (request_ciphertext request);
              let ephemeral_public = bytes_of (x25519_public H ephemeral);
              let h5 = mix_hash H h4 ephemeral_public;
              (cipher, ck) \<leftarrow> mix_key H ck1 (x25519_dh H ephemeral client_public);
              Some (Ok (\<lparr>server_cipher = cipher, server_h = h5, server_ck = ck,
                        server_public = ephemeral_public\<rparr>, payload_plaintext))
            }
        })"

definition server_start ::
  "'ed prims \<Rightarrow> ('r \<Rightarrow> 32 barray \<times> 'r) \<Rightarrow> 32 barray \<times> 32 barray \<Rightarrow> handshake_request \<Rightarrow> 'r \<Rightarrow>
     ((server_handshake_error + (server_handshake \<times> bytes)) \<times> 'r) panics" where
  "server_start H random static request rng = do {
     let (ephemeral, rng') = random rng;
     r \<leftarrow> server_start_with_secret H ephemeral static [] request;
     Some (r, rng')
   }"

definition server_finish ::
  "'ed prims \<Rightarrow> server_handshake \<Rightarrow> bytes \<Rightarrow>
     (encryption_error + (transport \<times> handshake_response)) panics" where
  "server_finish H self payload_plaintext = do {
     (r, _) \<leftarrow> encrypt_with_ad H (server_cipher self) payload_plaintext (bytes_of (server_h self));
     case r of
       Err e \<Rightarrow> Some (Err e)
     | Ok payload_ciphertext \<Rightarrow> do {
         t \<leftarrow> ck_split H (server_ck self) Server;
         Some (Ok (t, \<lparr>server_ephemeral_public = server_public self,
                       response_ciphertext = payload_ciphertext\<rparr>))
       }
   }"

section \<open>Nonces\<close>

lemma next_nonce_Some:
  "next_nonce s = Some (n, s') \<longleftrightarrow>
     nonce s \<noteq> - 1 \<and> nonce s + 1 \<noteq> - 1 \<and>
     n = Barray (replicate 4 0 @ le_bytes (nonce s)) \<and> s' = s\<lparr>nonce := nonce s + 1\<rparr>"
  by (auto simp: next_nonce_def)

lemma u64_minus_one: "unat (- 1 :: u64) = 2 ^ 64 - 1"
  by (simp add: unsigned_minus_1_eq_mask mask_eq_exp_minus_1)

lemma u64_not_reserved:
  "(w :: u64) \<noteq> - 1 \<and> w + 1 \<noteq> - 1 \<longleftrightarrow> unat w < 2 ^ 64 - 2"
proof -
  have w: "unat w < 2 ^ 64"
    using unat_bound [of w] by simp
  have eq1: "w = - 1 \<longleftrightarrow> unat w = 2 ^ 64 - 1"
    unfolding word_unat_eq_iff u64_minus_one by simp
  show ?thesis
  proof (cases "w = - 1")
    case True
    then show ?thesis
      using eq1 by simp
  next
    case False
    then have "unat (w + 1) = unat w + 1"
      using eq1 w by (simp add: unat_word_ariths)
    then have "w + 1 = - 1 \<longleftrightarrow> unat w + 1 = 2 ^ 64 - 1"
      unfolding word_unat_eq_iff u64_minus_one by simp
    then show ?thesis
      using False eq1 w by auto
  qed
qed

lemma next_nonce_total:
  "next_nonce s \<noteq> None \<longleftrightarrow> unat (nonce s) < 2 ^ 64 - 2"
proof -
  have "next_nonce s \<noteq> None \<longleftrightarrow> nonce s \<noteq> - 1 \<and> nonce s + 1 \<noteq> - 1"
    by (simp add: next_nonce_def)
  then show ?thesis
    by (simp only: u64_not_reserved)
qed

lemma next_nonce_Suc: "next_nonce s = Some (n, s') \<Longrightarrow> unat (nonce s') = Suc (unat (nonce s))"
proof -
  assume a: "next_nonce s = Some (n, s')"
  then have "unat (nonce s) < 2 ^ 64 - 2"
    using next_nonce_total [of s] by simp
  then show ?thesis
    using a by (simp add: next_nonce_Some unat_word_ariths)
qed

text \<open>The nonces that \<open>k\<close> operations on a cipher state use.\<close>

fun nonces_used :: "nat \<Rightarrow> cipher_state \<Rightarrow> 12 barray list panics" where
  "nonces_used 0 s = Some []"
| "nonces_used (Suc k) s = do {
     (n, s') \<leftarrow> next_nonce s;
     ns \<leftarrow> nonces_used k s';
     Some (n # ns)
   }"

definition nonce_bytes :: "u64 \<Rightarrow> 12 barray" where
  "nonce_bytes n = Barray (replicate 4 0 @ le_bytes n)"

lemma nonce_bytes_inject [simp]: "nonce_bytes m = nonce_bytes n \<longleftrightarrow> m = n"
proof
  assume "nonce_bytes m = nonce_bytes n"
  then have "bytes_of (nonce_bytes m) = bytes_of (nonce_bytes n)"
    by simp
  then show "m = n"
    by (simp add: nonce_bytes_def)
qed simp

lemma nonces_used_eq:
  "nonces_used k s = Some ns \<Longrightarrow>
     unat (nonce s) + k < 2 ^ 64 - 1 \<and> ns = map (\<lambda>i. nonce_bytes (nonce s + of_nat i)) [0..<k]
     \<or> k = 0 \<and> ns = []"
proof (induction k arbitrary: s ns)
  case (Suc k)
  then obtain n s' ms where n: "next_nonce s = Some (n, s')"
      and ms: "nonces_used k s' = Some ms" "ns = n # ms"
    by (auto simp: bind_eq_Some_conv)
  have b: "unat (nonce s) < 2 ^ 64 - 2"
    using next_nonce_total [of s] n by simp
  have s': "nonce s' = nonce s + 1" "n = nonce_bytes (nonce s)"
    using n by (auto simp: next_nonce_Some nonce_bytes_def)
  have len: "[0..<Suc k] = 0 # map Suc [0..<k]"
    by (simp add: upt_conv_Cons map_Suc_upt del: upt_Suc)
  show ?case
    using Suc.IH [OF ms(1)] next_nonce_Suc [OF n] b
    by (auto simp: ms(2) s' len algebra_simps simp del: upt_Suc)
qed simp

section \<open>The channel interface\<close>

text \<open>
  What the SDK relies on when it sends requests through an established session: a state
  with an encrypting and a decrypting operation, and a relation between the two ends under
  which every message encrypted at one end is what the other end decrypts, in both
  directions and for any number of messages.
\<close>

locale channel =
  fixes enc :: "'t \<Rightarrow> bytes \<Rightarrow> ((encryption_error + bytes) \<times> 't) panics"
    and dec :: "'t \<Rightarrow> bytes \<Rightarrow> ((encryption_error + bytes) \<times> 't) panics"
    and paired :: "'t \<Rightarrow> 't \<Rightarrow> bool"
  assumes paired_sym: "paired a b \<Longrightarrow> paired b a"
    and deliver: "paired a b \<Longrightarrow> enc a m = Some (Ok c, a') \<Longrightarrow>
      \<exists>b'. dec b c = Some (Ok m, b') \<and> paired a' b'"
begin

lemma deliver_back:
  "paired a b \<Longrightarrow> enc b m = Some (Ok c, b') \<Longrightarrow> \<exists>a'. dec a c = Some (Ok m, a') \<and> paired a' b'"
  using deliver [OF paired_sym] paired_sym by blast

text \<open>A request and its response, the exchange that \<open>make_transport_request\<close> performs.\<close>

lemma request_response:
  assumes "paired a b" and "enc a m = Some (Ok c, a1)" and "dec b c = Some (Ok m', b1)"
    and "enc b1 r = Some (Ok d, b2)"
  shows "m' = m \<and> (\<exists>a2. dec a1 d = Some (Ok r, a2) \<and> paired a2 b2)"
  using deliver [OF assms(1,2)] deliver_back [of a1 b1 r d b2] assms(3,4) by auto

end

definition transport_paired :: "'ed prims \<Rightarrow> transport \<Rightarrow> transport \<Rightarrow> bool" where
  "transport_paired H a b \<longleftrightarrow> prim_laws H \<and> outbound a = inbound b \<and> inbound a = outbound b"

lemma encrypt_decrypt_with_ad:
  assumes "prim_laws H" "encrypt_with_ad H s m aad = Some (Ok c, s')"
  shows "decrypt_with_ad H s c aad = Some (Ok m, s')"
  using assms by (auto simp: encrypt_with_ad_def decrypt_with_ad_def bind_eq_Some_conv
      next_nonce_Some prim_lawsD(1))

interpretation noise: channel "transport_encrypt H" "transport_decrypt H" "transport_paired H"
  for H :: "'ed prims"
proof unfold_locales
  show "transport_paired H a b \<Longrightarrow> transport_paired H b a" for a b
    by (simp add: transport_paired_def)
  fix a b m c a'
  assume p: "transport_paired H a b" and e: "transport_encrypt H a m = Some (Ok c, a')"
  obtain s where s: "encrypt_with_ad H (outbound a) m [] = Some (Ok c, s)" "a' = a\<lparr>outbound := s\<rparr>"
    using e by (auto simp: transport_encrypt_def bind_eq_Some_conv)
  then have "decrypt_with_ad H (inbound b) c [] = Some (Ok m, s)"
    using p encrypt_decrypt_with_ad [of H "outbound a" m "[]" c s]
    by (simp add: transport_paired_def)
  then show "\<exists>b'. transport_decrypt H b c = Some (Ok m, b') \<and> transport_paired H a' b'"
    using p s(2) by (simp add: transport_decrypt_def transport_paired_def)
qed

section \<open>The handshake agrees\<close>

lemma fresh_cipher_encrypts:
  assumes "prim_laws H" "length m < 2 ^ 32"
  obtains c s where "encrypt_with_ad H (cipher_state_new k) m aad = Some (Ok c, s)"
    and "decrypt_with_ad H (cipher_state_new k) c aad = Some (Ok m, s)"
proof -
  obtain n s where n: "next_nonce (cipher_state_new k) = Some (n, s)"
    by (auto simp: next_nonce_def cipher_state_new_def)
  obtain c where "aead_encrypt H (cipher_key s) n aad m = Some c"
    using prim_lawsD(3) [OF assms] by blast
  then have "encrypt_with_ad H (cipher_state_new k) m aad = Some (Ok c, s)"
    using n by (simp add: encrypt_with_ad_def)
  then show thesis
    using that encrypt_decrypt_with_ad [OF assms(1)] by blast
qed

lemma hkdf_pair_total: "prim_laws H \<Longrightarrow> \<exists>a b. hkdf_pair H salt ikm = Some (a, b)"
  using prim_lawsD(6) [of H salt ikm] by (auto simp: hkdf_pair_def HASH_LEN_def)

lemma mix_key_total:
  assumes "prim_laws H"
  obtains k ck' where "mix_key H ck dh = Some (cipher_state_new k, ck')"
  using hkdf_pair_total [OF assms, of "bytes_of ck" "bytes_of dh"] by (auto simp: mix_key_def)

lemma ck_split_paired:
  assumes "prim_laws H"
  obtains c s where "ck_split H ck Client = Some c" "ck_split H ck Server = Some s"
    and "transport_paired H c s"
  using hkdf_pair_total [OF assms, of "bytes_of ck" "[]"] assms
  by (auto simp: ck_split_def transport_paired_def)

lemma handshake_hash_new_Some:
  "handshake_hash_new H = Some (blake2s256 H (ascii PROTOCOL_NAME), blake2s256 H (ascii PROTOCOL_NAME))"
  by (simp add: handshake_hash_new_def HASH_LEN_def PROTOCOL_NAME_def Let_def)

text \<open>
  The server's start inverts the client's: it decrypts the request payload and reaches the
  same handshake hash and chaining key, then mixes its ephemeral key in.
\<close>

lemma start_agrees:
  assumes laws: "prim_laws H" and len: "length m < 2 ^ 32"
  obtains ch req k ck where
    "client_start_with_secret H ce (x25519_public H ss) prologue m = Some (Ok (ch, req))"
    and "mix_key H (client_ck ch) (x25519_dh H se (x25519_public H ce)) = Some (cipher_state_new k, ck)"
    and "client_ephemeral_secret ch = ce"
    and "server_start_with_secret H se (ss, x25519_public H ss) prologue req =
      Some (Ok (\<lparr>server_cipher = cipher_state_new k,
        server_h = mix_hash H (client_h ch) (bytes_of (x25519_public H se)),
        server_ck = ck, server_public = bytes_of (x25519_public H se)\<rparr>, m))"
proof -
  let ?h0 = "blake2s256 H (ascii PROTOCOL_NAME)"
  let ?h3 = "mix_hash H (mix_hash H (mix_hash H ?h0 prologue) (bytes_of (x25519_public H ss)))
    (bytes_of (x25519_public H ce))"
  obtain k1 ck1 where k1: "mix_key H ?h0 (x25519_dh H ce (x25519_public H ss)) =
      Some (cipher_state_new k1, ck1)"
    using mix_key_total [OF laws] by blast
  obtain c s where c: "encrypt_with_ad H (cipher_state_new k1) m (bytes_of ?h3) = Some (Ok c, s)"
      and d: "decrypt_with_ad H (cipher_state_new k1) c (bytes_of ?h3) = Some (Ok m, s)"
    using fresh_cipher_encrypts [OF laws len] by blast
  obtain k ck where k: "mix_key H ck1 (x25519_dh H se (x25519_public H ce)) =
      Some (cipher_state_new k, ck)"
    using mix_key_total [OF laws] by blast
  have k1': "mix_key H ?h0 (x25519_dh H ss (x25519_public H ce)) = Some (cipher_state_new k1, ck1)"
    using k1 prim_lawsD(4) [OF laws, of ce ss] by simp
  show thesis
  proof (rule that)
    show "client_start_with_secret H ce (x25519_public H ss) prologue m =
      Some (Ok (\<lparr>client_ephemeral_secret = ce, client_h = mix_hash H ?h3 c, client_ck = ck1\<rparr>,
        \<lparr>client_ephemeral_public = bytes_of (x25519_public H ce), request_ciphertext = c\<rparr>))"
      by (simp add: client_start_with_secret_def handshake_hash_new_Some k1 c Let_def)
  qed (use k in \<open>simp_all add: server_start_with_secret_def handshake_hash_new_Some k1' d k Let_def\<close>)
qed

lemma finish_agrees:
  assumes laws: "prim_laws H" and len: "length r < 2 ^ 32"
    and key: "mix_key H (client_ck ch) (x25519_dh H se (x25519_public H (client_ephemeral_secret ch))) =
      Some (cipher_state_new k, ck)"
    and sh: "sh = \<lparr>server_cipher = cipher_state_new k,
      server_h = mix_hash H (client_h ch) (bytes_of (x25519_public H se)),
      server_ck = ck, server_public = bytes_of (x25519_public H se)\<rparr>"
  obtains st resp ct where "server_finish H sh r = Some (Ok (st, resp))"
    and "client_finish H ch resp = Some (Ok (ct, r))" and "transport_paired H ct st"
proof -
  obtain c s where c: "encrypt_with_ad H (cipher_state_new k) r (bytes_of (server_h sh)) = Some (Ok c, s)"
      and d: "decrypt_with_ad H (cipher_state_new k) c (bytes_of (server_h sh)) = Some (Ok r, s)"
    using fresh_cipher_encrypts [OF laws len] by blast
  obtain ct st where t: "ck_split H ck Client = Some ct" "ck_split H ck Server = Some st"
      "transport_paired H ct st"
    using ck_split_paired [OF laws] by blast
  have key': "mix_key H (client_ck ch) (x25519_dh H (client_ephemeral_secret ch) (x25519_public H se)) =
      Some (cipher_state_new k, ck)"
    using key prim_lawsD(4) [OF laws, of se "client_ephemeral_secret ch"] by simp
  show thesis
  proof (rule that [OF _ _ t(3)])
    show "server_finish H sh r = Some (Ok (st, \<lparr>server_ephemeral_public = server_public sh,
        response_ciphertext = c\<rparr>))"
      using c t by (simp add: server_finish_def sh)
    show "client_finish H ch \<lparr>server_ephemeral_public = server_public sh, response_ciphertext = c\<rparr> =
        Some (Ok (ct, r))"
      using d t key' by (simp add: client_finish_def sh Let_def)
  qed
qed

section \<open>Panics\<close>

text \<open>Only exhausted nonces make a transport panic; the client's side of a handshake never does.\<close>

definition messages_left :: "nat \<Rightarrow> transport \<Rightarrow> bool" where
  "messages_left n t \<longleftrightarrow> unat (nonce (inbound t)) + n \<le> 2 ^ 64 - 2 \<and> unat (nonce (outbound t)) + n \<le> 2 ^ 64 - 2"

lemma messages_left_less: "messages_left n t \<Longrightarrow> m \<le> n \<Longrightarrow> messages_left m t"
  by (auto simp: messages_left_def)

lemma with_ad_total:
  assumes "unat (nonce s) < 2 ^ 64 - 2"
  obtains s' where "\<And>m a. encrypt_with_ad H s m a = Some (ok_or EncryptionError (aead_encrypt H (cipher_key s') (nonce_bytes (nonce s)) a m), s')"
    and "\<And>c a. decrypt_with_ad H s c a = Some (ok_or EncryptionError (aead_decrypt H (cipher_key s') (nonce_bytes (nonce s)) a c), s')"
    and "unat (nonce s') = Suc (unat (nonce s))"
proof -
  obtain n s' where n: "next_nonce s = Some (n, s')"
    using assms next_nonce_total [of s] by auto
  then have "n = nonce_bytes (nonce s)"
    by (simp add: next_nonce_Some nonce_bytes_def)
  with n next_nonce_Suc [OF n] show thesis
    by (intro that [of s']) (simp_all add: encrypt_with_ad_def decrypt_with_ad_def)
qed

lemma transport_encrypt_nonce:
  assumes "unat (nonce (outbound t)) < 2 ^ 64 - 2"
  shows "\<exists>r t'. transport_encrypt H t m = Some (r, t') \<and> inbound t' = inbound t \<and>
    unat (nonce (outbound t')) = Suc (unat (nonce (outbound t)))"
proof -
  from assms obtain s' where "\<And>m a. encrypt_with_ad H (outbound t) m a =
      Some (ok_or EncryptionError (aead_encrypt H (cipher_key s') (nonce_bytes (nonce (outbound t))) a m), s')"
    "unat (nonce s') = Suc (unat (nonce (outbound t)))"
    by (rule with_ad_total [of "outbound t" H]) blast
  then show ?thesis
    by (simp add: transport_encrypt_def)
qed

lemma transport_decrypt_nonce:
  assumes "unat (nonce (inbound t)) < 2 ^ 64 - 2"
  shows "\<exists>r t'. transport_decrypt H t c = Some (r, t') \<and> outbound t' = outbound t \<and>
    unat (nonce (inbound t')) = Suc (unat (nonce (inbound t)))"
proof -
  from assms obtain s' where "\<And>c a. decrypt_with_ad H (inbound t) c a =
      Some (ok_or EncryptionError (aead_decrypt H (cipher_key s') (nonce_bytes (nonce (inbound t))) a c), s')"
    "unat (nonce s') = Suc (unat (nonce (inbound t)))"
    by (rule with_ad_total [of "inbound t" H]) blast
  then show ?thesis
    by (simp add: transport_decrypt_def)
qed

lemma fresh_cipher_total:
  "\<exists>r s'. encrypt_with_ad H (cipher_state_new k) m a = Some (r, s')"
  "\<exists>r s'. decrypt_with_ad H (cipher_state_new k) c a = Some (r, s')"
  using next_nonce_total [of "cipher_state_new k"]
  by (auto simp: encrypt_with_ad_def decrypt_with_ad_def cipher_state_new_def)

lemma client_start_total:
  assumes "prim_laws H"
  shows "\<exists>r. client_start_with_secret H e p prologue m = Some r"
proof -
  let ?h0 = "blake2s256 H (ascii PROTOCOL_NAME)"
  obtain k ck where k: "mix_key H ?h0 (x25519_dh H e p) = Some (cipher_state_new k, ck)"
    using mix_key_total [OF assms] by blast
  let ?h = "mix_hash H (mix_hash H (mix_hash H ?h0 prologue) (bytes_of p)) (bytes_of (x25519_public H e))"
  obtain r s' where "encrypt_with_ad H (cipher_state_new k) m (bytes_of ?h) = Some (r, s')"
    using fresh_cipher_total(1) by blast
  with k show ?thesis
    by (simp add: client_start_with_secret_def handshake_hash_new_Some Let_def)
qed

lemma client_finish_total:
  assumes "prim_laws H"
  shows "\<exists>r. client_finish H hs resp = Some r \<and>
    (\<forall>t m. r = Ok (t, m) \<longrightarrow> nonce (inbound t) = 0 \<and> nonce (outbound t) = 0)"
proof (cases "array_try_from (server_ephemeral_public resp) :: 32 barray option")
  case None
  then show ?thesis
    by (simp add: client_finish_def)
next
  case (Some p)
  obtain k ck where k: "mix_key H (client_ck hs) (x25519_dh H (client_ephemeral_secret hs) p) = Some (cipher_state_new k, ck)"
    using mix_key_total [OF assms] by blast
  obtain r s' where d: "decrypt_with_ad H (cipher_state_new k) (response_ciphertext resp)
      (bytes_of (mix_hash H (client_h hs) (bytes_of p))) = Some (r, s')"
    using fresh_cipher_total(2) by blast
  obtain k1 k2 where "hkdf_pair H (bytes_of ck) [] = Some (k1, k2)"
    using hkdf_pair_total [OF assms] by blast
  then have "ck_split H ck Client = Some \<lparr>inbound = cipher_state_new k2, outbound = cipher_state_new k1\<rparr>"
    by (simp add: ck_split_def)
  with Some k d show ?thesis
    by (cases r) (auto simp: client_finish_def Let_def cipher_state_new_def)
qed

section \<open>Properties\<close>

text \<open>C8. The handshake succeeds between a client and a server that know each other's roles: neither
  side panics or fails, each payload arrives unchanged, and the transports they end with
  decrypt each other's messages.\<close>

theorem handshake_agreement:
  assumes laws: "prim_laws H" and len: "length m < 2 ^ 32" "length r < 2 ^ 32"
  shows "\<exists>ch req sh resp ct st.
    client_start_with_secret H ce (x25519_public H ss) prologue m = Some (Ok (ch, req)) \<and>
    server_start_with_secret H se (ss, x25519_public H ss) prologue req = Some (Ok (sh, m)) \<and>
    server_finish H sh r = Some (Ok (st, resp)) \<and>
    client_finish H ch resp = Some (Ok (ct, r)) \<and> transport_paired H ct st"
proof (rule start_agrees [OF laws len(1), of ce ss prologue se])
  fix ch :: client_handshake and req k ck
  let ?sh = "\<lparr>server_cipher = cipher_state_new k,
    server_h = mix_hash H (client_h ch) (bytes_of (x25519_public H se)),
    server_ck = ck, server_public = bytes_of (x25519_public H se)\<rparr>"
  assume cs: "client_start_with_secret H ce (x25519_public H ss) prologue m = Some (Ok (ch, req))"
    and key: "mix_key H (client_ck ch) (x25519_dh H se (x25519_public H ce)) = Some (cipher_state_new k, ck)"
    and ce: "client_ephemeral_secret ch = ce"
    and sv: "server_start_with_secret H se (ss, x25519_public H ss) prologue req = Some (Ok (?sh, m))"
  have key': "mix_key H (client_ck ch) (x25519_dh H se (x25519_public H (client_ephemeral_secret ch))) =
      Some (cipher_state_new k, ck)"
    using key ce by simp
  show ?thesis
    by (rule finish_agrees [OF laws len(2) key' refl]) (use cs sv in blast)
qed

text \<open>Over paired transports a request and its response are delivered unchanged, and the
  transports stay paired, so that any number of exchanges can follow.\<close>

lemma transport_exchange:
  assumes "transport_paired H a b" and "transport_encrypt H a m = Some (Ok c, a1)"
    and "transport_decrypt H b c = Some (Ok m', b1)" and "transport_encrypt H b1 r = Some (Ok d, b2)"
  shows "m' = m \<and> (\<exists>a2. transport_decrypt H a1 d = Some (Ok r, a2) \<and> transport_paired H a2 b2)"
  by (rule noise.request_response [OF assms])

text \<open>C25. A cipher state never uses a nonce twice and never the reserved one: the nonces of any number
  of operations are distinct, and the next operation panics exactly when the counter has reached
  \<open>2^64 - 2\<close>.\<close>

theorem nonces_distinct:
  "(\<forall>ns. nonces_used k s = Some ns \<longrightarrow> distinct ns \<and> nonce_bytes (- 1) \<notin> set ns) \<and>
   (next_nonce s = None \<longleftrightarrow> 2 ^ 64 - 2 \<le> unat (nonce s))"
proof (intro conjI allI impI)
  fix ns assume "nonces_used k s = Some ns"
  then consider (some) "unat (nonce s) + k < 2 ^ 64 - 1" "ns = map (\<lambda>i. nonce_bytes (nonce s + of_nat i)) [0..<k]"
    | (none) "ns = []"
    using nonces_used_eq by blast
  then have "distinct ns \<and> nonce_bytes (- 1) \<notin> set ns"
  proof cases
    case some
    have u: "unat (nonce s + of_nat i) = unat (nonce s) + i" if "i < k" for i
    proof -
      have "unat (of_nat i :: u64) = i"
        using that some(1) by (intro of_nat_inverse [OF refl]) simp
      then show ?thesis
        using that some(1) by (simp add: unat_word_ariths)
    qed
    have "inj_on (\<lambda>i. nonce_bytes (nonce s + of_nat i)) {0..<k}"
      using u by (auto intro!: inj_onI) (metis add_left_cancel)
    moreover have ne: "nonce s + of_nat i \<noteq> - 1" if "i < k" for i
      using u [OF that] that some(1) u64_minus_one by (metis add_less_cancel_left less_trans nat_less_le)
    moreover have "nonce_bytes (- 1) \<notin> (\<lambda>i. nonce_bytes (nonce s + of_nat i)) ` {0..<k}"
    proof
      assume "nonce_bytes (- 1) \<in> (\<lambda>i. nonce_bytes (nonce s + of_nat i)) ` {0..<k}"
      then obtain i where "i < k" "- 1 = nonce s + of_nat i"
        by auto
      then show False
        using ne [of i] by simp
    qed
    ultimately show ?thesis
      unfolding some(2) by (simp add: distinct_map)
  qed simp
  then show "distinct ns" "nonce_bytes (- 1) \<notin> set ns"
    by auto
next
  show "next_nonce s = None \<longleftrightarrow> 2 ^ 64 - 2 \<le> unat (nonce s)"
    using next_nonce_total [of s] by linarith
qed

end
