(* ===== verification/Lagrange.thy ===== *)
theory Lagrange
  imports Prelude
begin

text \<open>
  Interpolation at zero over an arbitrary field, the algebra behind Shamir's scheme. For
  pairwise distinct nodes \<open>x i\<close> the Lagrange coefficients at zero,
  \<open>\<Prod> j. x j / (x j - x i)\<close>, sum the powers \<open>x i ^ k\<close> to \<open>0 ^ k\<close> for every \<open>k\<close> below
  the number of nodes.
\<close>

definition node_product :: "('i \<Rightarrow> 'a::field) \<Rightarrow> 'i set \<Rightarrow> 'i \<Rightarrow> 'a" where
  "node_product x I i = (\<Prod>j \<in> I - {i}. x j - x i)"

definition divided_power :: "('i \<Rightarrow> 'a::field) \<Rightarrow> nat \<Rightarrow> 'i set \<Rightarrow> 'a" where
  "divided_power x m I = (\<Sum>i \<in> I. x i ^ m / node_product x I i)"

definition lagrange_at_zero :: "('i \<Rightarrow> 'a::field) \<Rightarrow> 'i set \<Rightarrow> 'i \<Rightarrow> 'a" where
  "lagrange_at_zero x I i = (\<Prod>j \<in> I - {i}. x j) / node_product x I i"

lemma node_product_nonzero:
  assumes "finite I" "inj_on x I" "i \<in> I"
  shows "node_product x I i \<noteq> 0"
  using assms by (auto simp: node_product_def inj_on_def)

lemma node_product_remove:
  assumes "finite I" "a \<in> I" "i \<noteq> a"
  shows "node_product x I i = (x a - x i) * node_product x (I - {a}) i"
proof -
  have "I - {i} = insert a (I - {a} - {i})"
    using assms by auto
  then show ?thesis
    using assms by (simp add: node_product_def)
qed

lemma node_diff_nonzero:
  fixes x :: "'i \<Rightarrow> 'a::field"
  shows "inj_on x I \<Longrightarrow> a \<in> I \<Longrightarrow> i \<in> I \<Longrightarrow> i \<noteq> a \<Longrightarrow> x a - x i \<noteq> 0"
  by (metis inj_onD right_minus_eq)

text \<open>Raising the power trades a node for a factor.\<close>

lemma divided_power_Suc:
  assumes fin: "finite I" and inj: "inj_on x I" and a: "a \<in> I"
  shows "divided_power x (Suc m) I = x a * divided_power x m I - divided_power x m (I - {a})"
proof -
  have step: "x i ^ Suc m / node_product x I i =
      x a * (x i ^ m / node_product x I i) - x i ^ m / node_product x (I - {a}) i"
    if i: "i \<in> I - {a}" for i
  proof -
    have d: "x a - x i \<noteq> 0"
      using node_diff_nonzero [OF inj a, of i] i by auto
    have "(x a - x i) * (x i ^ m / node_product x I i) = x i ^ m / node_product x (I - {a}) i"
      using node_product_remove [OF fin a, of i x] i d by simp
    then have "x a * (x i ^ m / node_product x I i) - x i * (x i ^ m / node_product x I i) =
        x i ^ m / node_product x (I - {a}) i"
      by (simp only: left_diff_distrib)
    then show ?thesis
      by (simp add: diff_eq_eq eq_diff_eq add.commute)
  qed
  have "divided_power x (Suc m) I = x a ^ Suc m / node_product x I a +
      (\<Sum>i \<in> I - {a}. x i ^ Suc m / node_product x I i)"
    unfolding divided_power_def by (rule sum.remove [OF fin a])
  also have "(\<Sum>i \<in> I - {a}. x i ^ Suc m / node_product x I i) =
      (\<Sum>i \<in> I - {a}. x a * (x i ^ m / node_product x I i)) - divided_power x m (I - {a})"
    unfolding divided_power_def sum_subtractf [symmetric]
    using step by (intro sum.cong) auto
  also have "x a ^ Suc m / node_product x I a = x a * (x a ^ m / node_product x I a)"
    by simp
  finally show ?thesis
    unfolding divided_power_def sum.remove [OF fin a, of "\<lambda>i. x i ^ m / node_product x I i"]
    by (simp add: distrib_left sum_distrib_left)
qed

text \<open>Two nodes: the difference of the sums without either of them.\<close>

lemma divided_power_diff:
  assumes "finite I" "inj_on x I" "a \<in> I" "b \<in> I"
  shows "(x a - x b) * divided_power x m I =
    divided_power x m (I - {a}) - divided_power x m (I - {b})"
  using divided_power_Suc [OF assms(1,2,3), of m] divided_power_Suc [OF assms(1,2,4), of m]
  by (simp add: algebra_simps)

lemma divided_power_zero:
  assumes "finite I" "inj_on x I" "2 \<le> card I"
  shows "divided_power x 0 I = 0"
  using assms
proof (induction "card I" arbitrary: I rule: less_induct)
  case less
  obtain a b where ab: "a \<in> I" "b \<in> I" "a \<noteq> b"
    using less.prems(3) card_le_Suc0_iff_eq [OF less.prems(1)] by force
  have eq: "divided_power x 0 (I - {a}) = divided_power x 0 (I - {b})"
  proof (cases "card I = 2")
    case True
    then have "I - {a} = {b}" "I - {b} = {a}"
      using ab by (auto simp: card_2_iff)
    then show ?thesis
      by (simp add: divided_power_def node_product_def)
  next
    case False
    then have "2 \<le> card I - 1"
      using less.prems(3) by simp
    moreover have "divided_power x 0 (I - {c}) = 0" if "c \<in> I" "2 \<le> card I - 1" for c
      using less.prems that by (intro less.hyps) (auto intro: inj_on_subset)
    ultimately show ?thesis
      using ab by simp
  qed
  have "(x a - x b) * divided_power x 0 I = 0"
    using divided_power_diff [OF less.prems(1,2) ab(1,2), of 0] eq by simp
  moreover have "x a - x b \<noteq> 0"
    using ab less.prems(2) by (auto simp: inj_on_def)
  ultimately show ?case
    by simp
qed

lemma divided_power_low:
  assumes "finite I" "inj_on x I" "Suc m < card I"
  shows "divided_power x m I = 0"
  using assms
proof (induction m arbitrary: I)
  case 0
  then show ?case
    by (simp add: divided_power_zero)
next
  case (Suc m)
  then obtain a where a: "a \<in> I"
    by fastforce
  have "divided_power x m I = 0" "divided_power x m (I - {a}) = 0"
    using Suc.prems a by (auto intro!: Suc.IH intro: inj_on_subset)
  then show ?case
    using divided_power_Suc [OF Suc.prems(1,2) a, of m] by simp
qed

text \<open>The coefficients at zero.\<close>

lemma lagrange_power:
  assumes "finite I" "i \<in> I"
  shows "x i ^ Suc m * lagrange_at_zero x I i = (\<Prod>j \<in> I. x j) * (x i ^ m / node_product x I i)"
  using prod.remove [OF assms, of x] by (simp add: lagrange_at_zero_def)

lemma lagrange_sum_power:
  assumes fin: "finite I" and inj: "inj_on x I" and k: "0 < k" "k < card I"
  shows "(\<Sum>i \<in> I. x i ^ k * lagrange_at_zero x I i) = 0"
proof -
  obtain m where m: "k = Suc m"
    using k(1) by (cases k) auto
  have "(\<Sum>i \<in> I. x i ^ k * lagrange_at_zero x I i) = (\<Prod>j \<in> I. x j) * divided_power x m I"
    unfolding divided_power_def sum_distrib_left m
    by (rule sum.cong [OF refl]) (rule lagrange_power [OF fin])
  then show ?thesis
    using divided_power_low [OF fin inj, of m] k(2) m by simp
qed

lemma lagrange_remove:
  assumes fin: "finite I" and inj: "inj_on x I" and ai: "a \<in> I" "i \<in> I - {a}"
  shows "lagrange_at_zero x I i =
    lagrange_at_zero x (I - {a}) i + (\<Prod>j \<in> I - {a}. x j) / node_product x I i"
proof -
  have d: "x a - x i \<noteq> 0"
    using node_diff_nonzero [OF inj ai(1), of i] ai(2) by auto
  have nz: "node_product x (I - {a}) i \<noteq> 0"
    using ai(2) by (intro node_product_nonzero finite_Diff fin inj_on_subset [OF inj]) auto
  have "I - {i} = insert a (I - {a} - {i})" "I - {a} = insert i (I - {a} - {i})"
    using ai by auto
  then have p: "(\<Prod>j \<in> I - {i}. x j) = x a * (\<Prod>j \<in> I - {a} - {i}. x j)"
    "(\<Prod>j \<in> I - {a}. x j) = x i * (\<Prod>j \<in> I - {a} - {i}. x j)"
    using fin ai by (metis Diff_iff finite_Diff insertI1 prod.insert singletonD)+
  show ?thesis
    using d nz ai(2) node_product_remove [OF fin ai(1), of i x]
    by (simp add: lagrange_at_zero_def p divide_simps) (simp add: algebra_simps)
qed

lemma lagrange_sum_one:
  assumes "finite I" "inj_on x I" "I \<noteq> {}"
  shows "(\<Sum>i \<in> I. lagrange_at_zero x I i) = 1"
  using assms
proof (induction "card I" arbitrary: I rule: less_induct)
  case less
  obtain a where a: "a \<in> I"
    using less.prems(3) by auto
  show ?case
  proof (cases "I = {a}")
    case True
    then show ?thesis
      by (simp add: lagrange_at_zero_def node_product_def)
  next
    case False
    with a have card: "2 \<le> card I"
      using less.prems(1) card_le_Suc0_iff_eq by (metis One_nat_def Suc_1 not_less_eq_eq is_singletonI' is_singleton_the_elem singletonD empty_iff)
    have "(\<Sum>i \<in> I. lagrange_at_zero x I i) =
        lagrange_at_zero x I a + (\<Sum>i \<in> I - {a}. lagrange_at_zero x (I - {a}) i) +
        (\<Sum>i \<in> I - {a}. (\<Prod>j \<in> I - {a}. x j) / node_product x I i)"
      by (simp add: sum.remove [OF less.prems(1) a] sum.distrib lagrange_remove [OF less.prems(1,2) a])
    also have "(\<Sum>i \<in> I - {a}. lagrange_at_zero x (I - {a}) i) = 1"
      using less.prems a False
      by (intro less.hyps) (auto simp: card_gt_0_iff intro: inj_on_subset)
    also have "lagrange_at_zero x I a + 1 +
        (\<Sum>i \<in> I - {a}. (\<Prod>j \<in> I - {a}. x j) / node_product x I i) =
        1 + (\<Prod>j \<in> I - {a}. x j) * divided_power x 0 I"
      by (simp add: divided_power_def sum.remove [OF less.prems(1) a] lagrange_at_zero_def
          distrib_left sum_distrib_left)
    finally show ?thesis
      using divided_power_zero [OF less.prems(1,2) card] by simp
  qed
qed

text \<open>Both cases at once.\<close>

lemma lagrange_interpolates:
  assumes "finite I" "inj_on x I" "k < card I"
  shows "(\<Sum>i \<in> I. x i ^ k * lagrange_at_zero x I i) = 0 ^ k"
proof (cases k)
  case 0
  with assms have "I \<noteq> {}"
    by auto
  with 0 assms show ?thesis
    by (simp add: lagrange_sum_one)
next
  case (Suc m)
  with assms lagrange_sum_power [of I x k] show ?thesis
    by simp
qed

end
