(* ===== verification/Secret_Sharing.thy ===== *)
theory Secret_Sharing
  imports Lagrange Primitives
begin

text \<open>
  The crate \<open>juicebox_secret_sharing\<close> (rust/secret_sharing/src/lib.rs). The trait \<open>Secret\<close>
  is the locale \<open>secret_type\<close>: a group with an action of the scalars. Both functions take
  the action as an argument and are used with scalars (multiplication of the field) and with
  points (\<open>point_mul\<close>). Random coefficients come from the source \<open>random\<close>, which threads
  the state of the generator.
\<close>

section \<open>The trait \<open>Secret\<close>\<close>

locale secret_type =
  fixes smul :: "'v::ab_group_add \<Rightarrow> 's::field \<Rightarrow> 'v"
  assumes smul_one: "smul v 1 = v"
    and smul_add_right: "smul v (a + b) = smul v a + smul v b"
    and smul_add_left: "smul (v + w) a = smul v a + smul w a"
    and smul_smul: "smul (smul v a) b = smul v (a * b)"
begin

lemma smul_zero_left [simp]: "smul 0 a = 0"
  using smul_add_left [of 0 0 a] by simp

lemma smul_zero_right [simp]: "smul v 0 = 0"
  using smul_add_right [of v 0 0] by simp

lemma smul_sum_left: "smul (\<Sum>i \<in> I. f i) a = (\<Sum>i \<in> I. smul (f i) a)"
  by (induction I rule: infinite_finite_induct) (simp_all add: smul_add_left)

lemma smul_sum_right: "smul v (\<Sum>i \<in> I. f i) = (\<Sum>i \<in> I. smul v (f i))"
  by (induction I rule: infinite_finite_induct) (simp_all add: smul_add_right)

lemma smul_power_Suc: "smul (smul v (a ^ k)) a = smul v (a ^ Suc k)"
  by (simp add: smul_smul mult.commute)

end

section \<open>Shares\<close>

datatype index = Index (index_value: u32)

definition as_scalar :: "(u32 \<Rightarrow> 's) \<Rightarrow> index \<Rightarrow> 's" where
  "as_scalar sfrom i = sfrom (index_value i)"

record 'v share =
  share_idx :: index
  share_secret :: 'v

datatype recover_secret_error = DuplicateShares

text \<open>\<open>repeat_with(|| S::random(rng)).take(n).collect()\<close>\<close>

fun repeat_with :: "('r \<Rightarrow> 'v \<times> 'r) \<Rightarrow> nat \<Rightarrow> 'r \<Rightarrow> 'v list \<times> 'r" where
  "repeat_with random 0 rng = ([], rng)"
| "repeat_with random (Suc n) rng =
     (let (v, rng1) = random rng; (vs, rng2) = repeat_with random n rng1 in (v # vs, rng2))"

lemma length_repeat_with [simp]: "length (fst (repeat_with random n rng)) = n"
  by (induction n arbitrary: rng) (simp_all add: split_beta Let_def)

definition share_value :: "('v::ab_group_add \<Rightarrow> 's::field \<Rightarrow> 'v) \<Rightarrow> 'v list \<Rightarrow> 'v \<Rightarrow> 's \<Rightarrow> 'v" where
  "share_value smul coefficients secret x =
     foldl (\<lambda>acc coefficient. smul (acc + coefficient) x) 0 coefficients + secret"

definition create_shares ::
  "(u32 \<Rightarrow> 's::field) \<Rightarrow> ('v::ab_group_add \<Rightarrow> 's \<Rightarrow> 'v) \<Rightarrow> ('r \<Rightarrow> 'v \<times> 'r) \<Rightarrow>
     'v \<Rightarrow> u32 \<Rightarrow> u32 \<Rightarrow> 'r \<Rightarrow> ('v share list \<times> 'r) panics" where
  "create_shares sfrom smul random secret threshold cnt rng = do {
     assert_that (threshold > 0);
     assert_that (cnt > 0);
     assert_that (threshold \<le> cnt);
     let (random_coefficients, rng') = repeat_with random (unat (threshold - 1)) rng;
     Some (map (\<lambda>i. let index = Index (of_nat i) in
              \<lparr>share_idx = index,
               share_secret = share_value smul random_coefficients secret (as_scalar sfrom index)\<rparr>)
            [1..<Suc (unat cnt)], rng')
   }"

text \<open>\<open>Sum\<close> over \<open>Result\<close>: adds the values up and stops at the first error.\<close>

fun sum_results :: "'v::monoid_add \<Rightarrow> ('e + 'v) list \<Rightarrow> 'e + 'v" where
  "sum_results acc [] = Ok acc"
| "sum_results acc (Ok v # rest) = sum_results (acc + v) rest"
| "sum_results acc (Err e # rest) = Err e"

definition lagrange_term ::
  "(u32 \<Rightarrow> 's::field) \<Rightarrow> ('v \<Rightarrow> 's \<Rightarrow> 'v) \<Rightarrow> 'v share list \<Rightarrow> nat \<Rightarrow>
     recover_secret_error + 'v" where
  "lagrange_term sfrom smul shares i =
     (let share = shares ! i;
          others = take i shares @ drop (Suc i) shares;
          numerator = prod_list (map (\<lambda>other. as_scalar sfrom (share_idx other)) others);
          denominator = prod_list (map (\<lambda>other. as_scalar sfrom (share_idx other) -
                                       as_scalar sfrom (share_idx share)) others)
      in if denominator = 0 then Err DuplicateShares
         else Ok (smul (share_secret share) (numerator * inverse denominator)))"

definition recover_secret ::
  "(u32 \<Rightarrow> 's::field) \<Rightarrow> ('v::ab_group_add \<Rightarrow> 's \<Rightarrow> 'v) \<Rightarrow> 'v share list \<Rightarrow>
     recover_secret_error + 'v" where
  "recover_secret sfrom smul shares =
     sum_results 0 (map (lagrange_term sfrom smul shares) [0..<length shares])"

section \<open>Recovery as interpolation at zero\<close>

abbreviation node :: "(u32 \<Rightarrow> 's) \<Rightarrow> 'v share list \<Rightarrow> nat \<Rightarrow> 's" where
  "node sfrom shares i \<equiv> as_scalar sfrom (share_idx (shares ! i))"

lemma prod_others:
  assumes "i < length xs"
  shows "prod_list (map f (take i xs @ drop (Suc i) xs)) =
    (\<Prod>j \<in> {..<length xs} - {i}. f (xs ! j) :: 'a::comm_monoid_mult)"
proof -
  have "prod_list (map f ys) = (\<Prod>j < length ys. f (ys ! j))" for ys
    by (simp add: prod.list_conv_set_nth atLeast0LessThan)
  then have l: "prod_list (map f (take i xs)) = (\<Prod>j \<in> {..<i}. f (xs ! j))"
    using assms by simp
  have "prod_list (map f (drop (Suc i) xs)) =
      (\<Prod>j \<in> {0..<length xs - Suc i}. f (xs ! (j + Suc i)))"
    using assms by (simp add: prod.list_conv_set_nth add.commute)
  also have "\<dots> = (\<Prod>j \<in> {Suc i..<length xs}. f (xs ! j))"
    using prod.shift_bounds_nat_ivl [of "\<lambda>j. f (xs ! j)" 0 "Suc i" "length xs - Suc i"] assms
    by (simp only: add_0 le_add_diff_inverse2 Suc_leI)
  finally have r: "prod_list (map f (drop (Suc i) xs)) = (\<Prod>j \<in> {Suc i..<length xs}. f (xs ! j))" .
  have split: "{..<length xs} - {i} = {..<i} \<union> {Suc i..<length xs}"
    "{..<i} \<inter> {Suc i..<length xs} = {}"
    using assms by auto
  show ?thesis
    unfolding split(1) using l r split(2) by (simp add: prod.union_disjoint)
qed

lemma lagrange_term_eq:
  assumes "i < length shares"
  shows "lagrange_term sfrom smul shares i =
    (let I = {..<length shares}; x = node sfrom shares
     in if node_product x I i = 0 then Err DuplicateShares
        else Ok (smul (share_secret (shares ! i)) (lagrange_at_zero x I i)))"
  unfolding lagrange_term_def Let_def prod_others [OF assms]
  by (simp add: lagrange_at_zero_def node_product_def divide_inverse)

lemma sum_results_Ok: "sum_results acc (map Ok vs) = Ok (acc + sum_list vs)"
  by (induction vs arbitrary: acc) (simp_all add: add.assoc)

lemma sum_results_Err:
  "Err e0 \<in> set rs \<Longrightarrow> sum_results acc rs = Err (DuplicateShares :: recover_secret_error)"
proof (induction acc rs rule: sum_results.induct)
  case (3 acc e rest)
  show ?case
    by (cases e) simp
qed auto

lemma recover_secret_distinct:
  assumes inj: "inj_on (node sfrom shares) {..<length shares}"
  shows "recover_secret sfrom smul shares =
    Ok (\<Sum>i < length shares. smul (share_secret (shares ! i))
      (lagrange_at_zero (node sfrom shares) {..<length shares} i))"
proof -
  let ?v = "\<lambda>i. smul (share_secret (shares ! i))
    (lagrange_at_zero (node sfrom shares) {..<length shares} i)"
  have "lagrange_term sfrom smul shares i = Ok (?v i)" if "i < length shares" for i
    using that node_product_nonzero [OF finite_lessThan inj, of i]
    by (simp add: lagrange_term_eq Let_def)
  then have "map (lagrange_term sfrom smul shares) [0..<length shares] =
      map Ok (map ?v [0..<length shares])"
    by simp
  then show ?thesis
    unfolding recover_secret_def
    by (simp only: sum_results_Ok) (simp add: sum_list_sum_nth atLeast0LessThan)
qed

lemma recover_secret_duplicate:
  assumes dup: "\<not> inj_on (node sfrom shares) {..<length shares}"
  shows "recover_secret sfrom smul shares = Err DuplicateShares"
proof -
  obtain i j where ij: "i < length shares" "j < length shares" "i \<noteq> j"
      "node sfrom shares i = node sfrom shares j"
    using dup by (auto simp: inj_on_def)
  then have "node_product (node sfrom shares) {..<length shares} i = 0"
    by (auto simp: node_product_def intro!: bexI [of _ j])
  then have "lagrange_term sfrom smul shares i = Err DuplicateShares"
    using ij(1) by (simp add: lagrange_term_eq Let_def)
  then have "Err DuplicateShares \<in> set (map (lagrange_term sfrom smul shares) [0..<length shares])"
    using ij(1) by (force simp: image_iff)
  then show ?thesis
    unfolding recover_secret_def by (rule sum_results_Err)
qed

section \<open>Correctness, for every secret type\<close>

context secret_type
begin

text \<open>A share is the value of a polynomial whose constant coefficient is the secret.\<close>

lemma foldl_polynomial:
  "foldl (\<lambda>acc c. smul (acc + c) x) 0 cs = (\<Sum>k < length cs. smul (rev cs ! k) (x ^ Suc k))"
proof (induction cs rule: rev_induct)
  case (snoc c cs)
  have "foldl (\<lambda>acc c. smul (acc + c) x) 0 (cs @ [c]) =
      smul ((\<Sum>k < length cs. smul (rev cs ! k) (x ^ Suc k)) + c) x"
    by (simp only: foldl_append foldl.simps snoc.IH)
  also have "\<dots> = (\<Sum>k < length cs. smul (rev cs ! k) (x ^ Suc (Suc k))) + smul c x"
    by (simp only: smul_add_left smul_sum_left smul_power_Suc)
  also have "\<dots> = (\<Sum>k < Suc (length cs). smul ((c # rev cs) ! k) (x ^ Suc k))"
    unfolding sum.lessThan_Suc_shift by simp
  finally show ?case
    by simp
qed simp

lemma share_value_polynomial:
  "share_value smul cs s x = (\<Sum>k < Suc (length cs). smul ((s # rev cs) ! k) (x ^ k))"
  unfolding share_value_def foldl_polynomial sum.lessThan_Suc_shift
  by (simp add: smul_one)

lemma recover_share_values:
  assumes inj: "inj_on (node sfrom shares) {..<length shares}"
    and len: "length cs < length shares"
    and val: "\<And>i. i < length shares \<Longrightarrow>
      share_secret (shares ! i) = share_value smul cs s (node sfrom shares i)"
  shows "recover_secret sfrom smul shares = Ok s"
proof -
  let ?n = "length shares" and ?m = "Suc (length cs)"
  let ?x = "node sfrom shares" and ?c = "\<lambda>k. (s # rev cs) ! k"
  let ?L = "lagrange_at_zero ?x {..<?n}"
  have "(\<Sum>i < ?n. smul (share_secret (shares ! i)) (?L i)) =
      (\<Sum>i < ?n. \<Sum>k < ?m. smul (?c k) (?x i ^ k * ?L i))"
    using val by (simp add: share_value_polynomial smul_sum_left smul_smul del: sum.lessThan_Suc)
  also have "\<dots> = (\<Sum>k < ?m. smul (?c k) (\<Sum>i < ?n. ?x i ^ k * ?L i))"
    by (subst sum.swap) (simp only: smul_sum_right)
  also have "\<dots> = (\<Sum>k < ?m. smul (?c k) (0 ^ k))"
    using len inj by (intro sum.cong refl arg_cong [where f="smul _"] lagrange_interpolates) auto
  also have "\<dots> = s"
    unfolding sum.lessThan_Suc_shift by (simp add: smul_one)
  finally show ?thesis
    unfolding recover_secret_distinct [OF inj] by simp
qed

end

section \<open>The two implementations of the trait\<close>

interpretation scalar_secret: secret_type "\<lambda>(a :: 's::field) b. a * b"
  by unfold_locales (simp_all add: algebra_simps)

lemma secret_type_point: "curve_laws C \<Longrightarrow> secret_type (point_mul C)"
  by unfold_locales (simp_all add: curve_lawsD)

section \<open>What \<open>create_shares\<close> returns\<close>

lemma create_shares_None:
  "create_shares sfrom smul random secret threshold cnt rng = None \<longleftrightarrow>
     \<not> (0 < threshold \<and> 0 < cnt \<and> threshold \<le> cnt)"
  by (auto simp: create_shares_def split_beta Let_def)

definition share_for ::
  "(u32 \<Rightarrow> 's::field) \<Rightarrow> ('v::ab_group_add \<Rightarrow> 's \<Rightarrow> 'v) \<Rightarrow> 'v list \<Rightarrow> 'v \<Rightarrow> u32 \<Rightarrow> 'v share" where
  "share_for sfrom smul cs secret i =
     \<lparr>share_idx = Index i, share_secret = share_value smul cs secret (sfrom i)\<rparr>"

lemma create_shares_Some:
  assumes "create_shares sfrom smul random secret threshold cnt rng = Some (shares, rng')"
  obtains cs where "length cs = unat threshold - 1" "0 < threshold" "threshold \<le> cnt"
    and "shares = map (\<lambda>i. share_for sfrom smul cs secret (of_nat i)) [1..<Suc (unat cnt)]"
    and "repeat_with random (unat threshold - 1) rng = (cs, rng')"
proof -
  obtain cs r where r: "repeat_with random (unat (threshold - 1)) rng = (cs, r)"
    by fastforce
  have t: "0 < threshold" "threshold \<le> cnt"
    using assms create_shares_None [of sfrom smul random secret threshold cnt rng]
    by auto
  then have u: "unat (threshold - 1) = unat threshold - 1"
    by (simp add: unat_minus_one word_gt_0)
  have "length cs = unat (threshold - 1)"
    using length_repeat_with [of random "unat (threshold - 1)" rng] r by simp
  then show thesis
    using assms t r u
    by (intro that [of cs])
      (auto simp: create_shares_def share_for_def as_scalar_def Let_def split: if_splits)
qed

lemma length_create_shares:
  "create_shares sfrom smul random secret threshold cnt rng = Some (shares, rng') \<Longrightarrow>
     length shares = unat cnt"
  by (elim create_shares_Some) simp

lemma of_nat_u32_inject:
  "i < 2 ^ 32 \<Longrightarrow> j < 2 ^ 32 \<Longrightarrow> (of_nat i :: u32) = of_nat j \<longleftrightarrow> i = j"
  by (simp add: word_of_nat_eq_iff take_bit_nat_eq_self)

lemma create_shares_indices:
  assumes "create_shares sfrom smul random secret threshold cnt rng = Some (shares, rng')"
  shows "map share_idx shares = map (\<lambda>i. Index (of_nat i)) [1..<Suc (unat cnt)]"
    and "distinct (map share_idx shares)"
proof -
  show eq: "map share_idx shares = map (\<lambda>i. Index (of_nat i)) [1..<Suc (unat cnt)]"
    using assms by (elim create_shares_Some) (simp add: share_for_def)
  have "inj_on (\<lambda>i. Index (of_nat i)) (set [1..<Suc (unat cnt)])"
  proof (rule inj_onI)
    fix i j assume "i \<in> set [1..<Suc (unat cnt)]" "j \<in> set [1..<Suc (unat cnt)]"
    moreover have "unat cnt < 2 ^ 32"
      using unat_bound [of cnt] by simp
    ultimately have "i < 2 ^ 32" "j < 2 ^ 32"
      by auto
    then show "Index (of_nat i) = Index (of_nat j) \<Longrightarrow> i = j"
      using of_nat_u32_inject by simp
  qed
  then show "distinct (map share_idx shares)"
    unfolding eq by (simp add: distinct_map)
qed

text \<open>Selected shares have indices in range and different nodes.\<close>

lemma selection_members:
  assumes sh: "shares = map (\<lambda>i. share_for sfrom smul cs secret (of_nat i)) [1..<Suc (unat cnt)]"
    and inj: "inj_on sfrom {1..cnt}" and sel: "set chosen \<subseteq> set shares" "distinct chosen"
  shows "i < length chosen \<Longrightarrow> \<exists>k. chosen ! i = share_for sfrom smul cs secret k \<and> k \<in> {1..cnt}"
    and "inj_on (node sfrom chosen) {..<length chosen}"
proof -
  have mem: "\<exists>k. chosen ! i = share_for sfrom smul cs secret k \<and> k \<in> {1..cnt}"
    if "i < length chosen" for i
  proof -
    have "chosen ! i \<in> set shares"
      using that sel(1) by auto
    then obtain n where n: "chosen ! i = share_for sfrom smul cs secret (of_nat n)"
        "1 \<le> n" "n \<le> unat cnt"
      unfolding sh by auto
    then have "unat (of_nat n :: u32) = n"
      using unat_bound [of cnt] n(3) by (intro of_nat_inverse [OF refl]) simp
    with n show ?thesis
      by (auto intro!: exI [of _ "of_nat n"] simp: word_le_nat_alt)
  qed
  then show "i < length chosen \<Longrightarrow> \<exists>k. chosen ! i = share_for sfrom smul cs secret k \<and> k \<in> {1..cnt}" .
  show "inj_on (node sfrom chosen) {..<length chosen}"
  proof (rule inj_onI)
    fix i j assume ij: "i \<in> {..<length chosen}" "j \<in> {..<length chosen}"
      and eq: "node sfrom chosen i = node sfrom chosen j"
    obtain k l where k: "chosen ! i = share_for sfrom smul cs secret k" "k \<in> {1..cnt}"
      and l: "chosen ! j = share_for sfrom smul cs secret l" "l \<in> {1..cnt}"
      using mem ij by blast
    then have "k = l"
      using eq inj by (auto simp: share_for_def as_scalar_def dest: inj_onD)
    then show "i = j"
      using sel(2) k l ij nth_eq_iff_index_eq [of chosen i j] by simp
  qed
qed

text \<open>
  A selection of at least \<open>threshold\<close> created shares has distinct nodes and lies on one
  polynomial of lower degree, so both implementations recover its constant coefficient.
\<close>

lemma selection_values:
  assumes created: "create_shares sfrom smul random secret threshold cnt rng = Some (shares, rng')"
    and inj: "inj_on sfrom {1..cnt}"
    and sel: "set chosen \<subseteq> set shares" "distinct chosen" "unat threshold \<le> length chosen"
  shows "\<exists>cs. length cs < length chosen \<and> inj_on (node sfrom chosen) {..<length chosen} \<and>
    (\<forall>i < length chosen. share_secret (chosen ! i) = share_value smul cs secret (node sfrom chosen i))"
proof -
  obtain cs where cs: "length cs = unat threshold - 1" "0 < threshold"
    and sh: "shares = map (\<lambda>i. share_for sfrom smul cs secret (of_nat i)) [1..<Suc (unat cnt)]"
    using created by (rule create_shares_Some)
  have "length cs < length chosen"
    using cs sel(3) by (simp add: word_less_nat_alt)
  moreover have "share_secret (chosen ! i) = share_value smul cs secret (node sfrom chosen i)"
    if "i < length chosen" for i
    using selection_members(1) [OF sh inj sel(1,2) that] by (auto simp: share_for_def as_scalar_def)
  ultimately show ?thesis
    using selection_members(2) [OF sh inj sel(1,2)] by blast
qed

lemma recover_selection:
  assumes "secret_type smul"
    and "create_shares sfrom smul random secret threshold cnt rng = Some (shares, rng')"
    and "inj_on sfrom {1..cnt}"
    and "set chosen \<subseteq> set shares" "distinct chosen" "unat threshold \<le> length chosen"
  shows "recover_secret sfrom smul chosen = Ok secret"
  using selection_values [OF assms(2-6)] secret_type.recover_share_values [OF assms(1)] by blast

section \<open>Fewer shares than the threshold\<close>

text \<open>Horner's scheme; a share's value is it with the secret as the last coefficient.\<close>

definition horner :: "'s::field list \<Rightarrow> 's \<Rightarrow> 's" where
  "horner cs x = foldl (\<lambda>acc c. acc * x + c) 0 cs"

lemma horner_simps [simp]: "horner [] x = 0" "horner (cs @ [c]) x = horner cs x * x + c"
  by (simp_all add: horner_def)

lemma horner_sum: "horner cs x = (\<Sum>k < length cs. rev cs ! k * x ^ k)"
proof (induction cs rule: rev_induct)
  case (snoc c cs)
  then show ?case
    unfolding length_append list.size add_Suc_right add_0_right sum.lessThan_Suc_shift
    by (simp add: sum_distrib_left sum_distrib_right mult.assoc mult.commute mult.left_commute)
qed simp

lemma foldl_horner: "foldl (\<lambda>acc c. (acc + c) * x) 0 cs = horner cs x * x"
  by (induction cs rule: rev_induct) simp_all

lemma share_value_horner: "share_value (*) cs s x = horner (cs @ [s]) x"
  by (simp add: share_value_def foldl_horner)

text \<open>The value \<open>v\<close> at \<open>a\<close> and the quotient by \<open>x - a\<close> determine a polynomial.\<close>

lemma horner_quotient: "\<exists>ds. length ds = Suc (length cs) \<and> (\<forall>x. horner ds x = (x - a) * horner cs x + v)"
proof (induction cs arbitrary: v rule: rev_induct)
  case Nil
  show ?case
    by (rule exI [of _ "[v]"]) (simp add: horner_def)
next
  case (snoc c cs)
  obtain ds where ds: "length ds = Suc (length cs)" "\<And>x. horner ds x = (x - a) * horner cs x + c"
    using snoc.IH by blast
  have "horner (ds @ [v - a * c]) x = (x - a) * horner (cs @ [c]) x + v" for x
    unfolding horner_simps ds(2) by (simp add: algebra_simps)
  with ds(1) show ?case
    by (intro exI [of _ "ds @ [v - a * c]"]) simp
qed

lemma horner_interpolates:
  "distinct xs \<Longrightarrow> length vs = length xs \<Longrightarrow>
     \<exists>cs. length cs = length xs \<and> (\<forall>i < length xs. horner cs (xs ! i) = vs ! i)"
proof (induction xs arbitrary: vs)
  case (Cons a xs)
  obtain v ws where vs: "vs = v # ws" "length ws = length xs"
    using Cons.prems(2) by (cases vs) auto
  obtain cs where cs: "length cs = length xs"
      "\<And>i. i < length xs \<Longrightarrow> horner cs (xs ! i) = (ws ! i - v) / (xs ! i - a)"
    using Cons.IH [of "map (\<lambda>i. (ws ! i - v) / (xs ! i - a)) [0..<length xs]"] Cons.prems(1) by auto
  obtain ds where ds: "length ds = Suc (length cs)" "\<And>x. horner ds x = (x - a) * horner cs x + v"
    using horner_quotient by blast
  have "horner ds ((a # xs) ! i) = vs ! i" if "i < length (a # xs)" for i
  proof (cases i)
    case (Suc j)
    then have "xs ! j \<noteq> a"
      using Cons.prems(1) that by (metis Suc_less_eq distinct.simps(2) length_Cons nth_mem)
    then show ?thesis
      using Suc that cs(2) ds(2) vs(1) by simp
  qed (simp add: ds(2) vs(1))
  with cs(1) ds(1) show ?case
    by (intro exI [of _ ds]) simp
qed simp

text \<open>At different nodes other than 0, the values determine the coefficients.\<close>

lemma horner_unique:
  fixes x :: "nat \<Rightarrow> 's::field"
  assumes "inj_on x {..<n}" "0 \<notin> x ` {..<n}" "length cs \<le> n" "length ds = length cs"
    and "\<And>i. i < n \<Longrightarrow> horner cs (x i) = horner ds (x i)"
  shows "cs = ds"
  using assms(3-5)
proof (induction cs arbitrary: ds rule: rev_induct)
  case (snoc c cs)
  obtain e es where ds: "ds = es @ [e]" "length es = length cs"
    using snoc.prems(2) by (cases ds rule: rev_cases) auto
  let ?L = "lagrange_at_zero x {..<n}"
  have lowest: "(\<Sum>i < n. horner (bs @ [b]) (x i) * ?L i) = b" if "length bs < n" for b :: 's and bs
  proof -
    have "(\<Sum>i < n. horner (bs @ [b]) (x i) * ?L i) =
        (\<Sum>i < n. \<Sum>k < Suc (length bs). (b # rev bs) ! k * (x i ^ k * ?L i))"
      by (simp add: horner_sum sum_distrib_right mult.assoc del: sum.lessThan_Suc horner_simps)
    also have "\<dots> = (\<Sum>k < Suc (length bs). (b # rev bs) ! k * (\<Sum>i < n. x i ^ k * ?L i))"
      by (subst sum.swap) (simp only: sum_distrib_left)
    also have "\<dots> = (\<Sum>k < Suc (length bs). (b # rev bs) ! k * 0 ^ k)"
      using that assms(1) by (intro sum.cong refl arg_cong [where f = "(*) _"] lagrange_interpolates) auto
    also have "\<dots> = b"
      unfolding sum.lessThan_Suc_shift by simp
    finally show ?thesis .
  qed
  have "(\<Sum>i < n. horner (cs @ [c]) (x i) * ?L i) = (\<Sum>i < n. horner (es @ [e]) (x i) * ?L i)"
    using snoc.prems(3) ds(1) by (intro sum.cong) auto
  then have "c = e"
    using lowest [of cs c] lowest [of es e] snoc.prems(1) ds(2) by simp
  moreover have "horner cs (x i) = horner es (x i)" if "i < n" for i
  proof -
    have "x i \<noteq> 0"
      using assms(2) that by force
    then show ?thesis
      using snoc.prems(3) [OF that] \<open>c = e\<close> ds(1) by simp
  qed
  ultimately show ?case
    using snoc.IH [of es] snoc.prems(1) ds by simp
qed simp

section \<open>Properties\<close>

text \<open>Creating shares panics exactly outside \<open>1 \<le> threshold \<le> count\<close>, and otherwise returns one
  share for every index from 1 to the count, in order.\<close>

lemma create_shares_spec:
  "(create_shares sfrom smul random secret threshold cnt rng = None \<longleftrightarrow>
      \<not> (1 \<le> unat threshold \<and> unat threshold \<le> unat cnt)) \<and>
   (\<forall>shares rng'. create_shares sfrom smul random secret threshold cnt rng = Some (shares, rng') \<longrightarrow>
      map share_idx shares = map (\<lambda>i. Index (of_nat i)) [1..<Suc (unat cnt)] \<and>
      distinct (map share_idx shares))"
proof -
  have "create_shares sfrom smul random secret threshold cnt rng = None \<longleftrightarrow>
      \<not> (1 \<le> unat threshold \<and> unat threshold \<le> unat cnt)"
    unfolding create_shares_None by (auto simp: word_less_nat_alt word_le_nat_alt)
  then show ?thesis
    using create_shares_indices [of sfrom smul random secret threshold cnt rng] by blast
qed

text \<open>C9. Any selection of at least \<open>threshold\<close> distinct shares of a scalar recovers it, in any order,
  and a selection in which an index occurs twice is rejected.\<close>

theorem shamir_recovers_scalar:
  fixes secret :: "'s::field"
  assumes "create_shares sfrom (*) random secret threshold cnt rng = Some (shares, rng')"
    and "inj_on sfrom {1..cnt}"
    and "set chosen \<subseteq> set shares" and "unat threshold \<le> length chosen"
  shows "recover_secret sfrom (*) chosen = (if distinct chosen then Ok secret else Err DuplicateShares)"
proof (cases "distinct chosen")
  case True
  then show ?thesis
    using recover_selection [OF scalar_secret.secret_type_axioms assms(1-3)] assms(4) by simp
next
  case False
  then obtain i j where "i < length chosen" "j < length chosen" "i \<noteq> j" "chosen ! i = chosen ! j"
    by (auto simp: distinct_conv_nth)
  then have "\<not> inj_on (node sfrom chosen) {..<length chosen}"
    unfolding inj_on_def by (metis lessThan_iff)
  then show ?thesis
    using False recover_secret_duplicate by auto
qed

text \<open>The same holds for shares of a point, with scalar multiplication of the group.\<close>

lemma shamir_recovers_point:
  fixes secret :: "'p::ab_group_add"
  assumes "curve_laws C"
    and "create_shares (scalar_from C) (point_mul C) random secret threshold cnt rng = Some (shares, rng')"
    and "inj_on (scalar_from C) {1..cnt}"
    and "set chosen \<subseteq> set shares" "distinct chosen" "unat threshold \<le> length chosen"
  shows "recover_secret (scalar_from C) (point_mul C) chosen = Ok secret"
  by (rule recover_selection [OF secret_type_point [OF assms(1)] assms(2-6)])

lemma created_member:
  assumes "k \<in> {1..cnt}"
  shows "share_for sfrom smul ds s k \<in> set (map (\<lambda>i. share_for sfrom smul cs other (of_nat i)) [1..<Suc (unat cnt)]) \<longleftrightarrow>
    share_value smul cs other (sfrom k) = share_value smul ds s (sfrom k)"
proof
  assume "share_value smul cs other (sfrom k) = share_value smul ds s (sfrom k)"
  then have "share_for sfrom smul ds s k = share_for sfrom smul cs other (of_nat (unat k))"
    by (simp add: share_for_def)
  moreover have "unat k \<in> set [1..<Suc (unat cnt)]"
    using assms by (auto simp: word_le_nat_alt)
  ultimately show "share_for sfrom smul ds s k \<in> set (map (\<lambda>i. share_for sfrom smul cs other (of_nat i)) [1..<Suc (unat cnt)])"
    unfolding set_map by (intro image_eqI)
qed (auto simp: share_for_def)

text \<open>A source of randomness that gives a chosen list of coefficients, one per draw.\<close>

definition next_coefficient :: "'a list \<Rightarrow> 'a \<times> 'a list" where
  "next_coefficient cs = (hd cs, tl cs)"

lemma repeat_next: "repeat_with next_coefficient (length cs) cs = (cs, [])"
  by (induction cs) (simp_all add: next_coefficient_def)

text \<open>The nodes of a selection are not 0, and the other secret gets the selected shares exactly
  when Horner's scheme has the right values at them.\<close>

lemma selection_nodes_nonzero:
  assumes sh: "shares = map (\<lambda>i. share_for sfrom smul cs secret (of_nat i)) [1..<Suc (unat cnt)]"
    and inj: "inj_on sfrom {1..cnt}" and nz: "0 \<notin> sfrom ` {1..cnt}"
    and sel: "set chosen \<subseteq> set shares" "distinct chosen"
  shows "0 \<notin> node sfrom chosen ` {..<length chosen}"
proof
  assume "0 \<in> node sfrom chosen ` {..<length chosen}"
  then obtain i where i: "i < length chosen" "node sfrom chosen i = 0"
    by auto
  obtain k where "chosen ! i = share_for sfrom smul cs secret k" "k \<in> {1..cnt}"
    using selection_members(1) [OF sh inj sel i(1)] by blast
  with i(2) nz show False
    by (auto simp: share_for_def as_scalar_def)
qed

lemma selection_of_other:
  assumes sh: "shares = map (\<lambda>i. share_for sfrom (*) cs0 secret (of_nat i)) [1..<Suc (unat cnt)]"
    and t: "0 < threshold" "threshold \<le> cnt" and inj: "inj_on sfrom {1..cnt}"
    and sel: "set chosen \<subseteq> set shares" "distinct chosen" "length chosen = unat threshold - 1"
    and x0: "0 \<notin> node sfrom chosen ` {..<length chosen}" and len: "length cs = unat threshold - 1"
  shows "(\<exists>shares'. create_shares sfrom (*) next_coefficient other threshold cnt cs = Some (shares', []) \<and>
       set chosen \<subseteq> set shares') \<longleftrightarrow>
    (\<forall>i < length chosen. horner cs (node sfrom chosen i) = (share_secret (chosen ! i) - other) / node sfrom chosen i)"
proof -
  let ?x = "node sfrom chosen"
  have "create_shares sfrom (*) next_coefficient other threshold cnt cs \<noteq> None"
    unfolding create_shares_None using t by auto
  then obtain shares' r where run: "create_shares sfrom (*) next_coefficient other threshold cnt cs = Some (shares', r)"
    by auto
  then have sh': "shares' = map (\<lambda>i. share_for sfrom (*) cs other (of_nat i)) [1..<Suc (unat cnt)]" "r = []"
    using repeat_next [of cs] len by (auto elim!: create_shares_Some)
  have one: "chosen ! i \<in> set shares' \<longleftrightarrow> share_value (*) cs other (?x i) = share_secret (chosen ! i)" if i: "i < length chosen" for i
  proof -
    obtain k where "chosen ! i = share_for sfrom (*) cs0 secret k" "k \<in> {1..cnt}"
      using selection_members(1) [OF sh inj sel(1,2) i] by blast
    then show ?thesis
      unfolding sh' using created_member [of k cnt sfrom "(*)" cs0 secret cs other]
      by (simp add: share_for_def as_scalar_def)
  qed
  have "set chosen \<subseteq> set shares' \<longleftrightarrow> (\<forall>i < length chosen. chosen ! i \<in> set shares')"
    by (metis in_set_conv_nth subset_code(1))
  also have "\<dots> \<longleftrightarrow> (\<forall>i < length chosen. share_value (*) cs other (?x i) = share_secret (chosen ! i))"
    using one by blast
  also have "\<dots> \<longleftrightarrow> (\<forall>i < length chosen. horner cs (?x i) = (share_secret (chosen ! i) - other) / ?x i)"
    using x0 by (auto simp: share_value_horner field_simps image_iff)
  finally show ?thesis
    using run \<open>r = []\<close> by auto
qed

text \<open>C13. Fewer shares than the threshold say nothing about the secret: for any \<open>threshold - 1\<close> shares
  of a secret and any other secret, exactly one choice of the random coefficients makes
  \<open>create_shares\<close> give the other secret these very shares; so under uniform coefficients
  every secret is equally likely.\<close>

theorem shares_hide_secret:
  fixes secret other :: "'s::field"
  assumes created: "create_shares sfrom (*) random secret threshold cnt rng = Some (shares, rng')"
    and inj: "inj_on sfrom {1..cnt}" and nz: "0 \<notin> sfrom ` {1..cnt}"
    and sel: "set chosen \<subseteq> set shares" "distinct chosen" "length chosen = unat threshold - 1"
  shows "\<exists>!cs. length cs = unat threshold - 1 \<and>
    (\<exists>shares'. create_shares sfrom (*) next_coefficient other threshold cnt cs = Some (shares', []) \<and>
       set chosen \<subseteq> set shares')"
proof -
  let ?n = "unat threshold - 1" and ?x = "node sfrom chosen"
  obtain cs0 where t: "0 < threshold" "threshold \<le> cnt"
    and sh: "shares = map (\<lambda>i. share_for sfrom (*) cs0 secret (of_nat i)) [1..<Suc (unat cnt)]"
    using created by (rule create_shares_Some)
  note members = selection_members [OF sh inj sel(1,2)]
  note x0 = selection_nodes_nonzero [OF sh inj nz sel(1,2)]
  note accepts = selection_of_other [OF sh t inj sel x0, unfolded sel(3)]
  obtain cs where "length cs = ?n" "\<And>i. i < ?n \<Longrightarrow> horner cs (?x i) = (share_secret (chosen ! i) - other) / ?x i"
    using horner_interpolates [of "map ?x [0..<?n]" "map (\<lambda>i. (share_secret (chosen ! i) - other) / ?x i) [0..<?n]"]
      members(2) sel(3) by (auto simp: distinct_map atLeast0LessThan)
  moreover have "ds = cs" if "length ds = ?n" "\<forall>i < ?n. horner ds (?x i) = (share_secret (chosen ! i) - other) / ?x i" for ds
    using horner_unique [OF members(2) x0, of ds cs] that calculation sel(3) by simp
  ultimately show ?thesis
    using accepts by (intro ex1I [of _ cs]) blast+
qed

end
