(* ===== verification/Oprf.thy ===== *)
theory Oprf
  imports Marshalling Secret_Sharing
begin

text \<open>
  The crate \<open>juicebox_oprf\<close> (rust/oprf/src/lib.rs and dleq.rs): points kept in both forms,
  the client and server sides of the 2HashDH function, and the Chaum-Pedersen proof that two
  discrete logarithms are equal, made non-interactive by hashing the transcript.
\<close>

section \<open>Points in both forms (lib.rs)\<close>

record 'p precompressed_point =
  uncompressed :: 'p
  compressed :: "32 barray"

definition precompressed_eq :: "'p precompressed_point \<Rightarrow> 'p precompressed_point \<Rightarrow> bool" where
  "precompressed_eq a b \<longleftrightarrow> compressed a = compressed b"

definition precompressed_from :: "('s, 'p) curve \<Rightarrow> 'p \<Rightarrow> 'p precompressed_point" where
  "precompressed_from C point = \<lparr>uncompressed = point, compressed = compress C point\<rparr>"

definition precompressed_try_from ::
  "('s, 'p) curve \<Rightarrow> 32 barray \<Rightarrow> string + 'p precompressed_point" where
  "precompressed_try_from C cp =
     (case decompress C cp of
        Some point \<Rightarrow> Ok \<lparr>uncompressed = point, compressed = cp\<rparr>
      | None \<Rightarrow> Err ''decompression failed: not canonical point encoding'')"

definition serialize_precompressed :: "'p precompressed_point \<Rightarrow> serde_input" where
  "serialize_precompressed x = serialize_compressed (compressed x)"

definition deserialize_precompressed ::
  "('s, 'p) curve \<Rightarrow> serde_input \<Rightarrow> de_error + 'p precompressed_point" where
  "deserialize_precompressed C inp =
     and_then (deserialize_compressed inp)
       (\<lambda>cp. map_err De_custom (precompressed_try_from C cp))"

text \<open>The invariant of the type: the two forms denote the same point.\<close>

definition precompressed_ok :: "('s, 'p) curve \<Rightarrow> 'p precompressed_point \<Rightarrow> bool" where
  "precompressed_ok C x \<longleftrightarrow> compressed x = compress C (uncompressed x)"

lemma precompressed_from_ok [simp]: "precompressed_ok C (precompressed_from C P)"
  by (simp add: precompressed_ok_def precompressed_from_def)

lemma precompressed_from_sel [simp]:
  "uncompressed (precompressed_from C P) = P"
  "compressed (precompressed_from C P) = compress C P"
  by (simp_all add: precompressed_from_def)

lemma precompressed_try_from_ok:
  "curve_laws C \<Longrightarrow> precompressed_try_from C b = Ok x \<Longrightarrow> precompressed_ok C x \<and> compressed x = b"
  by (auto simp: precompressed_try_from_def precompressed_ok_def curve_lawsD(8) split: option.splits)

lemma precompressed_try_from_compress [simp]:
  "curve_laws C \<Longrightarrow> precompressed_try_from C (compress C P) = Ok (precompressed_from C P)"
  by (simp add: precompressed_try_from_def precompressed_from_def curve_lawsD(7))

section \<open>Messages and keys (lib.rs)\<close>

datatype 'p blinded_input = BlindedInput (bi_point: "'p precompressed_point")
datatype 'p blinded_output = BlindedOutput (bo_point: "'p precompressed_point")
datatype oprf_output = Output (output_bytes: "64 barray")
datatype 's private_key = PrivateKey (private_scalar: 's)
datatype public_key = PublicKey (public_bytes: "32 barray")
datatype 's blinding_factor = BlindingFactor (blinding_scalar: 's)

definition to_point :: "'p blinded_output \<Rightarrow> 'p" where
  "to_point b = uncompressed (bo_point b)"

definition blinded_output_from :: "('s, 'p) curve \<Rightarrow> 'p \<Rightarrow> 'p blinded_output" where
  "blinded_output_from C point = BlindedOutput (precompressed_from C point)"

definition private_key_random :: "('r \<Rightarrow> 's \<times> 'r) \<Rightarrow> 'r \<Rightarrow> 's private_key \<times> 'r" where
  "private_key_random random rng = (let (s, rng') = random rng in (PrivateKey s, rng'))"

definition to_public_key :: "('s, 'p) curve \<Rightarrow> 's private_key \<Rightarrow> public_key" where
  "to_public_key C k = PublicKey (compress C (mul_base C (private_scalar k)))"

section \<open>The DLEQ proof (dleq.rs)\<close>

record 's dleq_proof =
  proof_c :: 's
  proof_beta_z :: 's

definition challenge_input ::
  "32 barray \<Rightarrow> 32 barray \<Rightarrow> 32 barray \<Rightarrow> 32 barray \<Rightarrow> 32 barray \<Rightarrow> bytes" where
  "challenge_input u v w v_t w_t =
     ascii ''Juicebox_DLEQ_2023_1;'' @ bytes_of u @ bytes_of v @ bytes_of w @ bytes_of v_t @ bytes_of w_t"

definition hash_to_challenge ::
  "('s, 'p) curve \<Rightarrow> 32 barray \<Rightarrow> 32 barray \<Rightarrow> 32 barray \<Rightarrow> 32 barray \<Rightarrow> 32 barray \<Rightarrow> 's" where
  "hash_to_challenge C u v w v_t w_t = scalar_from_sha512 C (challenge_input u v w v_t w_t)"

definition dleq_generate_proof ::
  "('s::field, 'p::ab_group_add) curve \<Rightarrow> ('r \<Rightarrow> 's \<times> 'r) \<Rightarrow> 'r \<Rightarrow> 's \<Rightarrow>
     'p precompressed_point \<Rightarrow> 32 barray \<Rightarrow> 'p precompressed_point \<Rightarrow> 's dleq_proof \<times> 'r" where
  "dleq_generate_proof C random rng beta u v w =
     (let (beta_t, rng') = random rng;
          v_t = mul_base C beta_t;
          w_t = point_mul C (uncompressed u) beta_t;
          c = hash_to_challenge C (compressed u) v (compressed w) (compress C v_t) (compress C w_t);
          beta_z = beta_t + beta * c
      in (\<lparr>proof_c = c, proof_beta_z = beta_z\<rparr>, rng'))"

text \<open>The commitments that a verifier recomputes from the challenge and the response.\<close>

definition dleq_commitments ::
  "('s::field, 'p::ab_group_add) curve \<Rightarrow> 'p precompressed_point \<Rightarrow> 'p precompressed_point \<Rightarrow>
     'p precompressed_point \<Rightarrow> 's dleq_proof \<Rightarrow> 'p \<times> 'p" where
  "dleq_commitments C u v w prf =
     (mul_base C (proof_beta_z prf) - point_mul C (uncompressed v) (proof_c prf),
      multiscalar_mul C [proof_beta_z prf, - proof_c prf] [uncompressed u, uncompressed w])"

definition dleq_verify_proof ::
  "build \<Rightarrow> ('s::field, 'p::ab_group_add) curve \<Rightarrow> 'p precompressed_point \<Rightarrow>
     'p precompressed_point \<Rightarrow> 'p precompressed_point \<Rightarrow> 's dleq_proof \<Rightarrow> (string + unit) panics" where
  "dleq_verify_proof build C u v w prf = do {
     let (v_t, w_t) = dleq_commitments C u v w prf;
     debug_assert build
       (w_t = point_mul C (uncompressed u) (proof_beta_z prf) -
              point_mul C (uncompressed w) (proof_c prf));
     let c = hash_to_challenge C (compressed u) (compressed v) (compressed w)
               (compress C v_t) (compress C w_t);
     Some (if c = proof_c prf then Ok () else Err ''invalid proof'')
   }"

lemma dleq_commitments_eq:
  assumes laws: "curve_laws C"
  shows "dleq_commitments C u v w prf =
    (point_mul C (basepoint C) (proof_beta_z prf) - point_mul C (uncompressed v) (proof_c prf),
     point_mul C (uncompressed u) (proof_beta_z prf) - point_mul C (uncompressed w) (proof_c prf))"
  by (simp add: dleq_commitments_def curve_lawsD(5,6) [OF laws] point_mul_minus [OF laws])

text \<open>The debug assertion never fires, so the verifier is total.\<close>

lemma dleq_verify_proof_total:
  assumes laws: "curve_laws C"
  shows "dleq_verify_proof build C u v w prf =
    Some (if hash_to_challenge C (compressed u) (compressed v) (compressed w)
             (compress C (fst (dleq_commitments C u v w prf)))
             (compress C (snd (dleq_commitments C u v w prf))) = proof_c prf
          then Ok () else Err ''invalid proof'')"
  by (simp add: dleq_verify_proof_def Let_def split_beta dleq_commitments_eq [OF laws])

lemma dleq_complete:
  assumes laws: "curve_laws C"
    and u: "compressed u = compress C (uncompressed u)"
    and v: "v = precompressed_from C (mul_base C beta)"
    and w: "w = precompressed_from C (point_mul C (uncompressed u) beta)"
    and gen: "dleq_generate_proof C random rng beta u (compressed v) w = (prf, rng')"
  shows "dleq_verify_proof build C u v w prf = Some (Ok ())"
proof -
  obtain beta_t r where r: "random rng = (beta_t, r)"
    by fastforce
  let ?c = "proof_c prf" and ?z = "proof_beta_z prf"
  have z: "?z = beta_t + beta * ?c"
    using gen r by (auto simp: dleq_generate_proof_def Let_def)
  have "point_mul C P ?z - point_mul C (point_mul C P beta) ?c = point_mul C P beta_t" for P
    by (simp add: z curve_lawsD(2,4) [OF laws])
  then have "dleq_commitments C u v w prf = (mul_base C beta_t, point_mul C (uncompressed u) beta_t)"
    by (simp add: dleq_commitments_eq [OF laws] v w curve_lawsD(5) [OF laws])
  then show ?thesis
    using gen r by (auto simp: dleq_verify_proof_total [OF laws] dleq_generate_proof_def Let_def)
qed

text \<open>The bytes that the verifier hashes: they determine the commitments, and an accepted proof has
  their hash as its challenge.\<close>

definition verifier_query ::
  "('s::field, 'p::ab_group_add) curve \<Rightarrow> 'p precompressed_point \<Rightarrow> 'p precompressed_point \<Rightarrow>
     'p precompressed_point \<Rightarrow> 's dleq_proof \<Rightarrow> bytes" where
  "verifier_query C u v w prf =
     (let (v_t, w_t) = dleq_commitments C u v w prf
      in challenge_input (compressed u) (compressed v) (compressed w) (compress C v_t) (compress C w_t))"

lemma verifier_query_hash [simp]:
  "verifier_query (C\<lparr>scalar_from_sha512 := h\<rparr>) u v w prf = verifier_query C u v w prf"
  by (simp add: verifier_query_def dleq_commitments_def)

lemma accepted_challenge:
  assumes "curve_laws C" and "dleq_verify_proof build C u v w prf = Some (Ok ())"
  shows "proof_c prf = scalar_from_sha512 C (verifier_query C u v w prf)"
  using assms by (simp add: dleq_verify_proof_total verifier_query_def hash_to_challenge_def Let_def split_beta
      split: if_splits)

lemma same_query:
  assumes laws: "curve_laws C" and same: "verifier_query C u v w prf = verifier_query C u v w prf'"
  shows "dleq_commitments C u v w prf = dleq_commitments C u v w prf'"
proof -
  have inj: "P = Q" if "bytes_of (compress C P) = bytes_of (compress C Q)" for P Q
    using that curve_lawsD(7) [OF laws] by (metis bytes_of_inject option.inject)
  have "bytes_of (compress C (fst (dleq_commitments C u v w prf))) = bytes_of (compress C (fst (dleq_commitments C u v w prf')))"
    "bytes_of (compress C (snd (dleq_commitments C u v w prf))) = bytes_of (compress C (snd (dleq_commitments C u v w prf')))"
    using same by (simp_all add: verifier_query_def challenge_input_def Let_def split_beta)
  then show ?thesis
    by (intro prod_eqI inj)
qed

text \<open>
  Two accepting responses to different challenges on the same commitments determine a
  common discrete logarithm: the relation the proof is about.
\<close>

lemma dleq_extract:
  assumes laws: "curve_laws C"
    and same: "dleq_commitments C u v w prf = dleq_commitments C u v w prf'"
    and ne: "proof_c prf \<noteq> proof_c prf'"
  defines "beta \<equiv> (proof_beta_z prf - proof_beta_z prf') * inverse (proof_c prf - proof_c prf')"
  shows "uncompressed v = mul_base C beta" and "uncompressed w = point_mul C (uncompressed u) beta"
proof -
  let ?dz = "proof_beta_z prf - proof_beta_z prf'" and ?dc = "proof_c prf - proof_c prf'"
  have dc: "?dc \<noteq> 0"
    using ne by simp
  have sub: "point_mul C P (a - b) = point_mul C P a - point_mul C P b" for P a b
    using curve_lawsD(2) [OF laws, of P a "- b"] by (simp add: point_mul_minus [OF laws])
  have cancel: "Q = point_mul C P beta"
    if "point_mul C P (proof_beta_z prf) - point_mul C Q (proof_c prf) =
      point_mul C P (proof_beta_z prf') - point_mul C Q (proof_c prf')" for P Q
  proof -
    have "point_mul C P ?dz = point_mul C Q ?dc"
      using that by (simp add: sub algebra_simps)
    then have "point_mul C (point_mul C P ?dz) (inverse ?dc) = point_mul C Q (?dc * inverse ?dc)"
      by (simp add: curve_lawsD(4) [OF laws])
    then show ?thesis
      using dc by (simp add: beta_def curve_lawsD(1,4) [OF laws])
  qed
  show "uncompressed v = mul_base C beta" "uncompressed w = point_mul C (uncompressed u) beta"
    using same cancel [of "basepoint C" "uncompressed v"]
      cancel [of "uncompressed u" "uncompressed w"]
    by (simp_all add: dleq_commitments_eq [OF laws] curve_lawsD(5) [OF laws])
qed

section \<open>The function, obliviously and directly (lib.rs)\<close>

definition hash_to_output ::
  "('s, 'p) curve \<Rightarrow> 'ed prims \<Rightarrow> bytes \<Rightarrow> 'p \<Rightarrow> oprf_output" where
  "hash_to_output C H inp result =
     Output (sha512 H (ascii ''Juicebox_OPRF_2023_1;'' @ inp @ bytes_of (compress C result)))"

definition unoblivious_evaluate ::
  "('s, 'p) curve \<Rightarrow> 'ed prims \<Rightarrow> 's private_key \<Rightarrow> bytes \<Rightarrow> oprf_output" where
  "unoblivious_evaluate C H key inp =
     (let input_point = point_from_sha512 C inp;
          result = point_mul C input_point (private_scalar key)
      in hash_to_output C H inp result)"

definition oprf_start ::
  "('s, 'p) curve \<Rightarrow> bytes \<Rightarrow> ('r \<Rightarrow> 's \<times> 'r) \<Rightarrow> 'r \<Rightarrow>
     ('s blinding_factor \<times> 'p blinded_input) \<times> 'r" where
  "oprf_start C inp random rng =
     (let input_point = point_from_sha512 C inp;
          (blinding_factor, rng') = random rng;
          blinded_input = BlindedInput (precompressed_from C (point_mul C input_point blinding_factor))
      in ((BlindingFactor blinding_factor, blinded_input), rng'))"

definition oprf_finalize ::
  "('s::field, 'p) curve \<Rightarrow> 'ed prims \<Rightarrow> bytes \<Rightarrow> 's blinding_factor \<Rightarrow> 'p blinded_output \<Rightarrow>
     oprf_output" where
  "oprf_finalize C H inp factor blinded_output =
     (let result = point_mul C (uncompressed (bo_point blinded_output))
                     (inverse (blinding_scalar factor))
      in hash_to_output C H inp result)"

definition oprf_verify_proof ::
  "build \<Rightarrow> ('s::field, 'p::ab_group_add) curve \<Rightarrow> 'p blinded_input \<Rightarrow> 'p blinded_output \<Rightarrow>
     public_key \<Rightarrow> 's dleq_proof \<Rightarrow> (string + unit) panics" where
  "oprf_verify_proof build C inp out key prf =
     (case map_err (\<lambda>_. ''invalid public key'') (precompressed_try_from C (public_bytes key)) of
        Err e \<Rightarrow> Some (Err e)
      | Ok pk \<Rightarrow> dleq_verify_proof build C (bi_point inp) pk (bo_point out) prf)"

definition blind_evaluate ::
  "('s, 'p) curve \<Rightarrow> 's private_key \<Rightarrow> 'p blinded_input \<Rightarrow> 'p blinded_output" where
  "blind_evaluate C key inp =
     BlindedOutput (precompressed_from C
       (point_mul C (uncompressed (bi_point inp)) (private_scalar key)))"

definition oprf_generate_proof ::
  "('s::field, 'p::ab_group_add) curve \<Rightarrow> 's private_key \<Rightarrow> public_key \<Rightarrow> 'p blinded_input \<Rightarrow>
     'p blinded_output \<Rightarrow> ('r \<Rightarrow> 's \<times> 'r) \<Rightarrow> 'r \<Rightarrow> 's dleq_proof \<times> 'r" where
  "oprf_generate_proof C key pub inp out random rng =
     dleq_generate_proof C random rng (private_scalar key) (bi_point inp) (public_bytes pub)
       (bo_point out)"

definition blind_verifiable_evaluate ::
  "('s::field, 'p::ab_group_add) curve \<Rightarrow> 's private_key \<Rightarrow> public_key \<Rightarrow> 'p blinded_input \<Rightarrow>
     ('r \<Rightarrow> 's \<times> 'r) \<Rightarrow> 'r \<Rightarrow> ('p blinded_output \<times> 's dleq_proof) \<times> 'r" where
  "blind_verifiable_evaluate C key pub inp random rng =
     (let blinded_output = blind_evaluate C key inp;
          (prf, rng') = oprf_generate_proof C key pub inp blinded_output random rng
      in ((blinded_output, prf), rng'))"

section \<open>Correctness of the exchange\<close>

lemma blind_unblind:
  assumes "curve_laws C" "r \<noteq> 0"
  shows "point_mul C (point_mul C (point_mul C P r) k) (inverse r) = point_mul C P k"
  using assms(2) by (simp add: curve_lawsD(4) [OF assms(1)] mult.commute [of r k] mult.assoc)

lemma oprf_finalize_evaluated:
  assumes laws: "curve_laws C"
    and start: "oprf_start C inp random rng = ((factor, blinded), rng')"
    and nz: "blinding_scalar factor \<noteq> 0"
    and out: "uncompressed (bo_point out) = point_mul C (uncompressed (bi_point blinded)) k"
  shows "oprf_finalize C H inp factor out = unoblivious_evaluate C H (PrivateKey k) inp"
  using assms
  by (auto simp: oprf_finalize_def unoblivious_evaluate_def oprf_start_def Let_def split_beta
      blind_unblind)

lemma oprf_start_ok:
  "oprf_start C inp random rng = ((factor, blinded), rng') \<Longrightarrow> precompressed_ok C (bi_point blinded)"
  by (auto simp: oprf_start_def Let_def split_beta)

lemma oprf_proof_accepted:
  assumes laws: "curve_laws C" and ok: "precompressed_ok C (bi_point inp)"
    and ev: "blind_verifiable_evaluate C key (to_public_key C key) inp random rng = ((out, prf), rng')"
  shows "oprf_verify_proof build C inp out (to_public_key C key) prf = Some (Ok ())"
proof -
  let ?v = "precompressed_from C (mul_base C (private_scalar key))"
  have out: "out = blind_evaluate C key inp"
    and gen: "dleq_generate_proof C random rng (private_scalar key) (bi_point inp) (compressed ?v)
        (bo_point (blind_evaluate C key inp)) = (prf, rng')"
    using ev by (auto simp: blind_verifiable_evaluate_def oprf_generate_proof_def to_public_key_def
        Let_def split_beta)
  have "dleq_verify_proof build C (bi_point inp) ?v (bo_point (blind_evaluate C key inp)) prf =
      Some (Ok ())"
    by (rule dleq_complete [OF laws _ refl _ gen])
      (use ok in \<open>simp_all add: blind_evaluate_def precompressed_ok_def\<close>)
  then show ?thesis
    using laws by (simp add: oprf_verify_proof_def to_public_key_def out)
qed

text \<open>
  The threshold version: every realm evaluates with its share of the root key, and the
  results, put back together as shares of a point, are the evaluation under the root key.
\<close>

definition evaluated_share ::
  "('s, 'p) curve \<Rightarrow> 'p blinded_input \<Rightarrow> 's share \<Rightarrow> 'p share" where
  "evaluated_share C inp sh =
     \<lparr>share_idx = share_idx sh,
      share_secret = to_point (blind_evaluate C (PrivateKey (share_secret sh)) inp)\<rparr>"

lemma share_value_evaluated:
  assumes laws: "curve_laws C"
  shows "point_mul C P (share_value (*) cs s x) =
    share_value (point_mul C) (map (point_mul C P) cs) (point_mul C P s) x"
proof -
  have "point_mul C P (foldl (\<lambda>acc c. (acc + c) * x) a cs) =
      foldl (\<lambda>acc c. point_mul C (acc + c) x) (point_mul C P a) (map (point_mul C P) cs)" for a
    by (induction cs arbitrary: a)
      (simp_all add: curve_lawsD(4) [OF laws, symmetric] curve_lawsD(2) [OF laws])
  from this [of 0] show ?thesis
    by (simp add: share_value_def curve_lawsD(2) [OF laws] point_mul_zero_right [OF laws])
qed

lemma threshold_evaluation:
  assumes laws: "curve_laws C"
    and created: "create_shares (scalar_from C) (*) random key threshold cnt rng = Some (shares, rng')"
    and inj: "inj_on (scalar_from C) {1..cnt}"
    and sel: "set chosen \<subseteq> set shares" "distinct chosen" "unat threshold \<le> length chosen"
  shows "recover_secret (scalar_from C) (point_mul C) (map (evaluated_share C inp) chosen) =
    Ok (point_mul C (uncompressed (bi_point inp)) key)"
proof -
  let ?P = "uncompressed (bi_point inp)"
  obtain cs where len: "length cs < length chosen"
    and nodes: "inj_on (node (scalar_from C) chosen) {..<length chosen}"
    and val: "\<And>i. i < length chosen \<Longrightarrow> share_secret (chosen ! i) =
      share_value (*) cs key (node (scalar_from C) chosen i)"
    using selection_values [OF created inj sel] by blast
  show ?thesis
  proof (rule secret_type.recover_share_values [OF secret_type_point [OF laws],
        where cs = "map (point_mul C ?P) cs"])
    show "inj_on (node (scalar_from C) (map (evaluated_share C inp) chosen))
        {..<length (map (evaluated_share C inp) chosen)}"
      using nodes by (simp add: inj_on_def evaluated_share_def)
  qed (use len val in \<open>simp_all add: evaluated_share_def to_point_def blind_evaluate_def
      share_value_evaluated [OF laws]\<close>)
qed

section \<open>Properties\<close>

text \<open>C6. The threshold OPRF: when every realm evaluates the client's blinded input with its share of
  the key, any at least \<open>threshold\<close> of the results recover a point whose finalization is the
  direct evaluation under the root key.\<close>

theorem threshold_oprf:
  assumes laws: "curve_laws C"
    and created: "create_shares (scalar_from C) (*) random key threshold cnt rng = Some (shares, rng')"
    and inj: "inj_on (scalar_from C) {1..cnt}"
    and sel: "set chosen \<subseteq> set shares" "distinct chosen" "unat threshold \<le> length chosen"
    and start: "oprf_start C inp random2 rng2 = ((factor, blinded), rng2')"
    and nz: "blinding_scalar factor \<noteq> 0"
  shows "\<exists>P. recover_secret (scalar_from C) (point_mul C) (map (evaluated_share C blinded) chosen) = Ok P \<and>
    oprf_finalize C H inp factor (blinded_output_from C P) = unoblivious_evaluate C H (PrivateKey key) inp"
  using threshold_evaluation [OF laws created inj sel, of blinded]
    oprf_finalize_evaluated [OF laws start nz, of "blinded_output_from C _" key H]
  by (simp add: blinded_output_from_def)

text \<open>C16. A server's proof for its own evaluation is always accepted, and the verifier never panics.\<close>

theorem oprf_proof_complete:
  assumes "curve_laws C" and "oprf_start C inp random rng = ((factor, blinded), rng1)"
    and "blind_verifiable_evaluate C key (to_public_key C key) blinded random2 rng2 = ((out, prf), rng3)"
  shows "oprf_verify_proof build C blinded out (to_public_key C key) prf = Some (Ok ())"
  by (rule oprf_proof_accepted [OF assms(1) oprf_start_ok [OF assms(2)] assms(3)])

text \<open>C15. Special soundness of the proof, as it is used with a hash in place of the verifier's challenge: let
  the verifier accept one proof under one hash function and another proof under a second one, let
  both have made the verifier hash the same bytes, and let the two functions differ there. Then
  there is one scalar that is both the key behind the public key and the factor by which
  the input was multiplied. So whoever can answer the hash for two values knows the key.\<close>

theorem dleq_special_soundness:
  assumes "curve_laws C"
    and "dleq_verify_proof build C u v w prf = Some (Ok ())"
    and "dleq_verify_proof build (C\<lparr>scalar_from_sha512 := h\<rparr>) u v w prf' = Some (Ok ())"
    and "verifier_query C u v w prf = verifier_query C u v w prf'"
    and "scalar_from_sha512 C (verifier_query C u v w prf) \<noteq> h (verifier_query C u v w prf)"
  shows "\<exists>beta. uncompressed v = mul_base C beta \<and> uncompressed w = point_mul C (uncompressed u) beta"
proof -
  have "curve_laws (C\<lparr>scalar_from_sha512 := h\<rparr>)"
    using assms(1) by (simp add: curve_laws_def)
  from accepted_challenge [OF assms(1,2)] accepted_challenge [OF this assms(3)] assms(4,5)
  have "proof_c prf \<noteq> proof_c prf'"
    by simp
  with dleq_extract [OF assms(1) same_query [OF assms(1,4)]] show ?thesis
    by blast
qed

end
