(* ===== verification/Realm_Api.thy ===== *)
theory Realm_Api
  imports Realm_Types Noise Oprf
begin

text \<open>
  The messages of the realm protocol (rust/realm/api/src/requests.rs) and the signed OPRF
  public keys (signing.rs). Enums keep their variants; the payload types that depend on the
  curve take the scalar and point types as arguments.
\<close>

section \<open>Signed public keys (signing.rs)\<close>

datatype oprf_verifying_key = OprfVerifyingKey (verifying_bytes: "32 barray")
datatype oprf_signing_key = OprfSigningKey (signing_secret: "32 barray")

record oprf_signed_public_key =
  signed_public_key :: public_key
  verifying_key :: oprf_verifying_key
  signature :: "64 secret_bytes_array"

definition signing_key_new_random ::
  "('r \<Rightarrow> 32 barray \<times> 'r) \<Rightarrow> 'r \<Rightarrow> oprf_signing_key \<times> 'r" where
  "signing_key_new_random generate rng = (let (k, rng') = generate rng in (OprfSigningKey k, rng'))"

definition verifying_key_of :: "'ed prims \<Rightarrow> oprf_signing_key \<Rightarrow> oprf_verifying_key" where
  "verifying_key_of H k = OprfVerifyingKey (ed25519_public H (signing_secret k))"

definition signature_msg :: "realm_id \<Rightarrow> public_key \<Rightarrow> bytes panics" where
  "signature_msg realm_id public_key = do {
     l1 \<leftarrow> to_be2 (int (length (bytes_of (id_bytes realm_id))));
     l2 \<leftarrow> to_be2 (int (length (bytes_of (public_bytes public_key))));
     Some (concat [l1, bytes_of (id_bytes realm_id), l2, bytes_of (public_bytes public_key)])
   }"

definition sign_public_key ::
  "'ed prims \<Rightarrow> public_key \<Rightarrow> realm_id \<Rightarrow> oprf_signing_key \<Rightarrow> oprf_signed_public_key panics" where
  "sign_public_key H public_key realm_id signing_key = do {
     msg \<leftarrow> signature_msg realm_id public_key;
     Some \<lparr>signed_public_key = public_key,
           verifying_key = verifying_key_of H signing_key,
           signature = ed25519_sign H (signing_secret signing_key) msg\<rparr>
   }"

datatype signature_error = SignatureError

definition verify_signed_key ::
  "'ed prims \<Rightarrow> oprf_signed_public_key \<Rightarrow> realm_id \<Rightarrow> (signature_error + unit) panics" where
  "verify_signed_key H self realm_id =
     (case edwards_decompress H (verifying_bytes (verifying_key self)) of
        None \<Rightarrow> Some (Err SignatureError)
      | Some vk \<Rightarrow> do {
          msg \<leftarrow> signature_msg realm_id (signed_public_key self);
          Some (if ed25519_verify_strict H vk msg (signature self)
                then Ok () else Err SignatureError)
        })"

section \<open>Requests and responses (requests.rs)\<close>

datatype client_request_kind = HandshakeOnly | SecretsRequestKind

datatype noise_request =
    HandshakeRequest handshake_request
  | TransportRequest bytes

datatype noise_response =
    HandshakeResponse handshake_response nat
  | TransportResponse bytes

record client_request =
  request_realm :: realm_id
  request_auth_token :: auth_token
  request_session_id :: session_id
  request_kind :: client_request_kind
  request_encrypted :: noise_request

datatype client_response =
    ResponseOk noise_response
  | Unavailable
  | InvalidAuthResponse
  | MissingSession
  | SessionError
  | DecodingError
  | PayloadTooLarge
  | ResponseRateLimitExceeded

record 's register2_request =
  r2_version :: registration_version
  r2_oprf_private_key :: "'s private_key"
  r2_oprf_signed_public_key :: oprf_signed_public_key
  r2_unlock_key_commitment :: unlock_key_commitment
  r2_unlock_key_tag :: unlock_key_tag
  r2_encryption_key_scalar_share :: "'s scalar_share"
  r2_encrypted_secret :: encrypted_user_secret
  r2_encrypted_secret_commitment :: encrypted_user_secret_commitment
  r2_policy :: policy

record 'p recover2_request =
  rec2_version :: registration_version
  rec2_oprf_blinded_input :: "'p blinded_input"

record recover3_request =
  rec3_version :: registration_version
  rec3_unlock_key_tag :: unlock_key_tag

datatype ('s, 'p) secrets_request =
    Register1
  | Register2 "'s register2_request"
  | Recover1
  | Recover2 "'p recover2_request"
  | Recover3 recover3_request
  | Delete

fun needs_forward_secrecy :: "('s, 'p) secrets_request \<Rightarrow> bool" where
  "needs_forward_secrecy Register1 = False"
| "needs_forward_secrecy (Register2 _) = True"
| "needs_forward_secrecy Recover1 = False"
| "needs_forward_secrecy (Recover2 _) = True"
| "needs_forward_secrecy (Recover3 _) = True"
| "needs_forward_secrecy Delete = False"

datatype register1_response = Register1Ok
datatype register2_response = Register2Ok
datatype delete_response = DeleteOk

datatype recover1_response =
    Recover1Ok registration_version
  | Recover1NotRegistered
  | Recover1NoGuesses

record ('s, 'p) recover2_ok =
  ok_signed_public_key :: oprf_signed_public_key
  ok_blinded_result :: "'p blinded_output"
  ok_proof :: "'s dleq_proof"
  ok_unlock_key_commitment :: unlock_key_commitment
  ok_num_guesses :: u16
  ok_guess_count :: u16

datatype ('s, 'p) recover2_response =
    Recover2Ok "('s, 'p) recover2_ok"
  | Recover2VersionMismatch
  | Recover2NotRegistered
  | Recover2NoGuesses

datatype 's recover3_response =
    Recover3Ok "'s scalar_share" encrypted_user_secret encrypted_user_secret_commitment
  | Recover3VersionMismatch
  | Recover3NotRegistered
  | BadUnlockKeyTag u16
  | Recover3NoGuesses

datatype ('s, 'p) secrets_response =
    Register1Response register1_response
  | Register2Response register2_response
  | Recover1Response recover1_response
  | Recover2Response "('s, 'p) recover2_response"
  | Recover3Response "'s recover3_response"
  | DeleteResponse delete_response

definition BODY_SIZE_LIMIT :: nat where
  "BODY_SIZE_LIMIT = 2048"

section \<open>Padded responses (requests.rs)\<close>

text \<open>The length \<open>MAX_SECRETS_RESPONSE_LENGTH\<close> is also the type of the padded array.\<close>

definition MAX_SECRETS_RESPONSE_LENGTH :: nat where
  "MAX_SECRETS_RESPONSE_LENGTH = 436"

record padded_secrets_response =
  unpadded_length :: u16
  padded_bytes :: "436 secret_bytes_array"

text \<open>\<open>Vec::resize(n, x)\<close> truncates or extends.\<close>

definition vec_resize :: "nat \<Rightarrow> 'a \<Rightarrow> 'a list \<Rightarrow> 'a list" where
  "vec_resize n x xs = take n xs @ replicate (n - length xs) x"

lemma length_vec_resize [simp]: "length (vec_resize n x xs) = n"
  by (simp add: vec_resize_def)

text \<open>\<open>&xs[..n]\<close>\<close>

definition slice_to :: "'a list \<Rightarrow> nat \<Rightarrow> 'a list panics" where
  "slice_to xs n = (if n \<le> length xs then Some (take n xs) else None)"

definition pad_response ::
  "('s, 'p) secrets_response cbor \<Rightarrow> ('s, 'p) secrets_response \<Rightarrow>
     (serialization_error + padded_secrets_response) panics" where
  "pad_response K val =
     (case to_vec K val of
        Err e \<Rightarrow> Some (Err e)
      | Ok padded_response \<Rightarrow> do {
          assert_that (length padded_response \<le> MAX_SECRETS_RESPONSE_LENGTH);
          unpadded \<leftarrow> (if length padded_response < 2 ^ 16
                        then Some (of_nat (length padded_response)) else None);
          padded \<leftarrow> unwrap (secret_array_try_from
                        (vec_resize MAX_SECRETS_RESPONSE_LENGTH 0 padded_response));
          Some (Ok \<lparr>unpadded_length = unpadded, padded_bytes = padded\<rparr>)
        })"

definition unpad_response ::
  "('s, 'p) secrets_response cbor \<Rightarrow> padded_secrets_response \<Rightarrow>
     (deserialization_error + ('s, 'p) secrets_response) panics" where
  "unpad_response K val = do {
     bs \<leftarrow> slice_to (bytes_of (padded_bytes val)) (unat (unpadded_length val));
     Some (from_slice K bs)
   }"

section \<open>Lemmas\<close>

lemma pad_response_eq:
  assumes "into_writer K r = Ok bs"
  shows "pad_response K r =
    (if length bs \<le> 436 then Some (Ok \<lparr>unpadded_length = of_nat (length bs),
       padded_bytes = Barray (bs @ replicate (436 - length bs) 0)\<rparr>) else None)"
  using assms
  by (auto simp: pad_response_def to_vec_def MAX_SECRETS_RESPONSE_LENGTH_def vec_resize_def
      secret_array_try_from_def array_try_from_def)

lemma unpad_pad:
  assumes laws: "cbor_laws K" and wr: "into_writer K r = Ok bs" and len: "length bs \<le> 436"
  shows "\<exists>p. pad_response K r = Some (Ok p) \<and> unpad_response K p = Some (Ok r)"
proof -
  have "unat (of_nat (length bs) :: u16) = length bs"
    using len by (intro of_nat_inverse [OF refl]) simp
  then show ?thesis
    using laws wr len
    by (simp add: pad_response_eq unpad_response_def slice_to_def cbor_laws_def)
qed

lemma unpad_response_None:
  "unpad_response K p = None \<longleftrightarrow> 436 < unat (unpadded_length p)"
  by (auto simp: unpad_response_def slice_to_def)

lemma signature_msg_total: "\<exists>m. signature_msg i k = Some m"
  by (simp add: signature_msg_def to_be2_def)

lemma signature_msg_inject: "signature_msg i k = signature_msg j l \<longleftrightarrow> i = j \<and> k = l"
  by (auto simp: signature_msg_def to_be2_def intro: realm_id.expand public_key.expand)

lemma sign_verify:
  assumes "prim_laws H" and "sign_public_key H pk i sk = Some spk"
  shows "verify_signed_key H spk i = Some (Ok ())"
proof -
  obtain m where m: "signature_msg i pk = Some m"
    using signature_msg_total by blast
  obtain pt where "edwards_decompress H (ed25519_public H (signing_secret sk)) = Some pt"
    "ed25519_verify_strict H pt m (ed25519_sign H (signing_secret sk) m)"
    using prim_lawsD(5) [OF assms(1)] by blast
  then show ?thesis
    using assms(2) m by (auto simp: sign_public_key_def verify_signed_key_def verifying_key_of_def)
qed

section \<open>Properties\<close>

text \<open>Padding hides a response's length and loses nothing: every response whose encoding
  has at most 436 bytes is padded to 436 bytes without a panic, and unpadding gives it back.\<close>

lemma padded_response_roundtrip:
  assumes "cbor_laws K" and "into_writer K r = Ok bs" and "length bs \<le> MAX_SECRETS_RESPONSE_LENGTH"
  shows "\<exists>p. pad_response K r = Some (Ok p) \<and> length (bytes_of (padded_bytes p)) = 436 \<and>
    unpad_response K p = Some (Ok r)"
  using unpad_pad [OF assms(1,2)] assms(3) by (auto simp: MAX_SECRETS_RESPONSE_LENGTH_def)

text \<open>A public key signed for a realm verifies for that realm, and the signed message
  determines both the realm and the key.\<close>

lemma signed_key_verifies:
  assumes "prim_laws H"
  shows "\<exists>spk. sign_public_key H pk i sk = Some spk \<and> signed_public_key spk = pk \<and>
    verify_signed_key H spk i = Some (Ok ()) \<and>
    (\<forall>j l. signature_msg i pk = signature_msg j l \<longleftrightarrow> i = j \<and> pk = l)"
proof -
  obtain spk where s: "sign_public_key H pk i sk = Some spk"
    using signature_msg_total [of i pk] by (auto simp: sign_public_key_def)
  then have "signed_public_key spk = pk"
    by (auto simp: sign_public_key_def bind_eq_Some_conv)
  with s sign_verify [OF assms s] signature_msg_inject show ?thesis
    by auto
qed

end
