(* ===== verification/Sdk_Types.thy ===== *)
theory Sdk_Types
  imports Realm_Api
begin

text \<open>
  The client's own types (rust/sdk/src/types.rs) and the hashing of the PIN (pin.rs): realms
  and their textual encodings, the user secret with its padding and encryption, the keys
  derived from the PIN, and the split of the OPRF result into unlock key and commitment.
\<close>

section \<open>Realms (types.rs)\<close>

record 'u realm =
  realm_id :: realm_id
  realm_address :: 'u
  realm_public_key :: "bytes option"

text \<open>The serde modules \<open>hex_realm_id\<close> and \<open>hex_public_key\<close>, on the strings they exchange.\<close>

definition hex_realm_id_serialize :: "hex_codec \<Rightarrow> realm_id \<Rightarrow> string panics" where
  "hex_realm_id_serialize X i = realm_id_debug X i"

definition hex_realm_id_deserialize :: "hex_codec \<Rightarrow> de_error + string \<Rightarrow> de_error + realm_id" where
  "hex_realm_id_deserialize X deserializer =
     and_then deserializer (\<lambda>s. map_err De_custom (realm_id_from_str X s))"

definition hex_public_key_serialize :: "hex_codec \<Rightarrow> bytes option \<Rightarrow> string option" where
  "hex_public_key_serialize X public_key =
     (case public_key of None \<Rightarrow> None | Some key \<Rightarrow> Some (hex_encode X key))"

definition hex_public_key_deserialize ::
  "hex_codec \<Rightarrow> de_error + string option \<Rightarrow> de_error + bytes option" where
  "hex_public_key_deserialize X deserializer =
     and_then deserializer (\<lambda>v. case v of
       Some s \<Rightarrow> and_then (ok_or (De_custom ''hex'') (hex_decode X s)) (\<lambda>key. Ok (Some key))
     | None \<Rightarrow> Ok None)"

section \<open>User secrets and their padding (types.rs)\<close>

definition MAX_USER_SECRET_LENGTH :: nat where
  "MAX_USER_SECRET_LENGTH = 128"

definition USER_SECRET_ENCRYPTION_NONCE :: "12 barray" where
  "USER_SECRET_ENCRYPTION_NONCE = zero_array"

datatype user_secret = UserSecret (user_secret_bytes: bytes)
datatype padded_user_secret = PaddedUserSecret (padded_array: "129 secret_bytes_array")

definition user_secret_from :: "bytes \<Rightarrow> user_secret panics" where
  "user_secret_from value = do {
     assert_that (length value \<le> MAX_USER_SECRET_LENGTH);
     Some (UserSecret value)
   }"

definition padded_try_from :: "bytes \<Rightarrow> string + padded_user_secret" where
  "padded_try_from value =
     and_then (secret_array_try_from value) (\<lambda>a. Ok (PaddedUserSecret a))"

text \<open>
  \<open>insert(0, len)\<close> after converting the length to a byte, \<open>resize\<close> to 129 bytes, and the
  conversion to an array.
\<close>

definition padded_from :: "user_secret \<Rightarrow> padded_user_secret panics" where
  "padded_from value = do {
     let padded_secret = user_secret_bytes value;
     first \<leftarrow> (if length padded_secret < 2 ^ 8 then Some (of_nat (length padded_secret)) else None);
     let padded_secret = first # padded_secret;
     let padded_secret = vec_resize (MAX_USER_SECRET_LENGTH + 1) 0 padded_secret;
     unwrap (padded_try_from padded_secret)
   }"

text \<open>\<open>&v[1..=n]\<close> panics when \<open>n\<close> is not an index of \<open>v\<close>.\<close>

definition user_secret_unpad :: "padded_user_secret \<Rightarrow> user_secret panics" where
  "user_secret_unpad value = do {
     let exposed = bytes_of (padded_array value);
     let unpadded_length = unat (hd exposed);
     body \<leftarrow> slice_to exposed (Suc unpadded_length);
     user_secret_from (tl body)
   }"

section \<open>Keys (types.rs)\<close>

datatype encryption_key_seed = EncryptionKeySeed (seed_array: "32 secret_bytes_array")
datatype 's encryption_key_scalar = EncryptionKeyScalar (key_scalar: 's)
datatype encryption_key = EncryptionKey (key_array: "32 secret_bytes_array")
datatype user_info = UserInfo (user_info_bytes: bytes)

definition key_scalar_new_random :: "('r \<Rightarrow> 's \<times> 'r) \<Rightarrow> 'r \<Rightarrow> 's encryption_key_scalar \<times> 'r" where
  "key_scalar_new_random random rng = (let (s, rng') = random rng in (EncryptionKeyScalar s, rng'))"

definition encryption_key_derive ::
  "('s, 'p) curve \<Rightarrow> 'ed prims \<Rightarrow> encryption_key_seed \<Rightarrow> 's encryption_key_scalar \<Rightarrow>
     encryption_key panics" where
  "encryption_key_derive C H seed sc = do {
     let label = ascii ''User Secret Encryption Key'';
     input \<leftarrow> framed [label, bytes_of (scalar_bytes C (key_scalar sc))];
     Some (EncryptionKey (blake2s_mac32 H (seed_array seed) input))
   }"

definition user_secret_encrypt ::
  "'ed prims \<Rightarrow> user_secret \<Rightarrow> encryption_key \<Rightarrow> encrypted_user_secret panics" where
  "user_secret_encrypt H self key = do {
     padded_secret \<leftarrow> padded_from self;
     c \<leftarrow> aead_encrypt H (key_array key) USER_SECRET_ENCRYPTION_NONCE []
            (bytes_of (padded_array padded_secret));
     unwrap (encrypted_try_from c)
   }"

definition user_secret_decrypt ::
  "'ed prims \<Rightarrow> encrypted_user_secret \<Rightarrow> encryption_key \<Rightarrow> user_secret panics" where
  "user_secret_decrypt H encrypted_secret key = do {
     s \<leftarrow> aead_decrypt H (key_array key) USER_SECRET_ENCRYPTION_NONCE []
            (bytes_of (expose_encrypted encrypted_secret));
     padded_secret \<leftarrow> unwrap (padded_try_from s);
     user_secret_unpad padded_secret
   }"

definition derive_unlock_key_and_commitment ::
  "'ed prims \<Rightarrow> oprf_output \<Rightarrow> unlock_key \<times> unlock_key_commitment" where
  "derive_unlock_key_and_commitment H oprf_result =
     (let digest = bytes_of (sha512 H (bytes_of (output_bytes oprf_result)));
          commitment_bytes = Barray (take 32 digest);
          key_bytes = Barray (drop 32 digest)
      in (unlock_key_from key_bytes, UnlockKeyCommitment commitment_bytes))"

section \<open>Sessions (types.rs)\<close>

text \<open>Times are whole numbers of a unit that the parameters of the model fix.\<close>

record session =
  session_session_id :: session_id
  session_transport :: transport
  session_lifetime :: nat
  session_last_used :: nat

section \<open>Hashing the PIN (pin.rs)\<close>

datatype pin_hashing_mode = Standard2019 | FastInsecure
datatype pin = Pin (pin_bytes: bytes)

definition pin_hashing_mode_from :: "u8 \<Rightarrow> pin_hashing_mode panics" where
  "pin_hashing_mode_from value =
     (if value = 0 then Some Standard2019 else if value = 1 then Some FastInsecure else None)"

text \<open>
  The outer \<open>panics\<close> is the length prefix of the salt, the inner option is the code's
  \<open>Option\<close>: \<open>None\<close> when Argon2 rejects its input.
\<close>

definition pin_salt :: "registration_version \<Rightarrow> user_info \<Rightarrow> bytes panics" where
  "pin_salt version info = framed [bytes_of (expose_version version), user_info_bytes info]"

definition pin_argon2 ::
  "'ed prims \<Rightarrow> pin \<Rightarrow> nat \<times> nat \<times> nat \<Rightarrow> registration_version \<Rightarrow> user_info \<Rightarrow>
     (user_secret_access_key \<times> encryption_key_seed) option panics" where
  "pin_argon2 H self params version info = do {
     salt \<leftarrow> pin_salt version info;
     Some (case argon2id H params (pin_bytes self) salt of
       None \<Rightarrow> None
     | Some hashed_pin \<Rightarrow>
         (let access_key_bytes = Barray (take 32 (bytes_of hashed_pin));
              encryption_key_seed_bytes = Barray (drop 32 (bytes_of hashed_pin))
          in Some (access_key_from access_key_bytes, EncryptionKeySeed encryption_key_seed_bytes)))
   }"

definition pin_params :: "'ed prims \<Rightarrow> pin_hashing_mode \<Rightarrow> (nat \<times> nat \<times> nat) option" where
  "pin_params H mode =
     (case mode of
        Standard2019 \<Rightarrow> argon2_params H (1024 * 16) 32 1
      | FastInsecure \<Rightarrow> (let (m, t, p) = argon2_min_costs H in argon2_params H m t p))"

definition pin_hash ::
  "'ed prims \<Rightarrow> pin \<Rightarrow> pin_hashing_mode \<Rightarrow> registration_version \<Rightarrow> user_info \<Rightarrow>
     (user_secret_access_key \<times> encryption_key_seed) option panics" where
  "pin_hash H self mode version info =
     (case pin_params H mode of
        None \<Rightarrow> Some None
      | Some params \<Rightarrow> pin_argon2 H self params version info)"

section \<open>Lemmas\<close>

lemma user_secret_from_Some: "user_secret_from b = Some s \<longleftrightarrow> length b \<le> 128 \<and> s = UserSecret b"
  by (auto simp: user_secret_from_def MAX_USER_SECRET_LENGTH_def)

lemma padded_from_eq:
  assumes "length b \<le> 128"
  shows "padded_from (UserSecret b) =
    Some (PaddedUserSecret (Barray (of_nat (length b) # b @ replicate (128 - length b) 0)))"
  using assms
  by (simp add: padded_from_def padded_try_from_def secret_array_try_from_def array_try_from_def
      vec_resize_def MAX_USER_SECRET_LENGTH_def)

lemma unpad_padded:
  assumes "length b \<le> 128"
  shows "user_secret_unpad (PaddedUserSecret (Barray (of_nat (length b) # b @ replicate (128 - length b) 0)))
    = Some (UserSecret b)"
proof -
  have "unat (of_nat (length b) :: u8) = length b"
    using assms by (intro of_nat_inverse [OF refl]) simp
  then show ?thesis
    using assms
    by (simp add: user_secret_unpad_def slice_to_def user_secret_from_Some Let_def)
qed

lemma user_secret_unpad_None:
  "user_secret_unpad p = None \<longleftrightarrow> 128 < unat (hd (bytes_of (padded_array p)))"
  by (auto simp: user_secret_unpad_def slice_to_def user_secret_from_def MAX_USER_SECRET_LENGTH_def
      Let_def)

lemma encrypt_decrypt:
  assumes laws: "prim_laws H" and len: "length b \<le> 128"
  obtains e where "user_secret_encrypt H (UserSecret b) k = Some e"
    and "user_secret_decrypt H e k = Some (UserSecret b)"
proof -
  let ?p = "of_nat (length b) # b @ replicate (128 - length b) 0"
  have lp: "length ?p = 129"
    using len by simp
  obtain c where c: "aead_encrypt H (key_array k) USER_SECRET_ENCRYPTION_NONCE [] ?p = Some c"
    using prim_lawsD(3) [OF laws, of ?p "key_array k" USER_SECRET_ENCRYPTION_NONCE "[]"] lp by auto
  then have "aead_decrypt H (key_array k) USER_SECRET_ENCRYPTION_NONCE [] c = Some ?p"
    and "length c = 145"
    using prim_lawsD(1,2) [OF laws c] lp by simp_all
  moreover from this have "encrypted_try_from c = Ok (EncryptedUserSecret (Barray c))"
    by (simp add: encrypted_try_from_def secret_array_try_from_def array_try_from_def)
  moreover have "padded_try_from ?p = Ok (PaddedUserSecret (Barray ?p))"
    using len by (simp add: padded_try_from_def secret_array_try_from_def array_try_from_def)
  ultimately show thesis
    using c len lp
    by (intro that [of "EncryptedUserSecret (Barray c)"])
      (simp_all add: user_secret_encrypt_def user_secret_decrypt_def padded_from_eq unpad_padded
        expose_encrypted_def)
qed

lemma encryption_key_derive_total: "\<exists>k. encryption_key_derive C H seed s = Some k"
proof -
  obtain input where "framed [ascii ''User Secret Encryption Key'', bytes_of (scalar_bytes C (key_scalar s))]
      = Some input"
    using framed_Some [of "[ascii ''User Secret Encryption Key'', bytes_of (scalar_bytes C (key_scalar s))]"]
    by auto
  then show ?thesis
    by (simp add: encryption_key_derive_def Let_def del: framed.simps)
qed

lemma pin_salt_inject:
  assumes "pin_salt v i = Some bs" and "pin_salt w j = Some bs"
  shows "v = w \<and> i = j"
proof -
  have "[bytes_of (expose_version v), user_info_bytes i] = [bytes_of (expose_version w), user_info_bytes j]"
    by (rule framed_inject [of _ bs]) (use assms in \<open>simp_all add: pin_salt_def\<close>)
  then show ?thesis
    by (simp add: expose_version_def registration_version.expand user_info.expand)
qed

lemma pin_salt_None: "pin_salt v i = None \<longleftrightarrow> 2 ^ 32 \<le> length (user_info_bytes i)"
  using framed_Some [of "[bytes_of (expose_version v), user_info_bytes i]"]
  by (auto simp: pin_salt_def)

lemma hex_public_key_roundtrip:
  "hex_laws X \<Longrightarrow> hex_public_key_deserialize X (Ok (hex_public_key_serialize X k)) = Ok k"
  by (cases k) (simp_all add: hex_public_key_deserialize_def hex_public_key_serialize_def hex_laws_def)

section \<open>Properties\<close>

text \<open>A user secret of at most 128 bytes is padded to 129 bytes whatever its length, and
  unpadding returns it; encryption then yields 145 bytes and decryption under the same key
  the original secret, neither panicking.\<close>

lemma user_secret_roundtrip:
  assumes "prim_laws H" and "user_secret_from b = Some s"
  shows "\<exists>p e. padded_from s = Some p \<and> user_secret_unpad p = Some s \<and>
    user_secret_encrypt H s k = Some e \<and> user_secret_decrypt H e k = Some s"
proof -
  have s: "s = UserSecret b" and len: "length b \<le> 128"
    using assms(2) by (simp_all add: user_secret_from_Some)
  show ?thesis
    unfolding s using padded_from_eq [OF len] unpad_padded [OF len]
    by (rule_tac encrypt_decrypt [OF assms(1) len, of k]) auto
qed

text \<open>Unpadding panics exactly on a length byte above 128, and building a secret from more
  than 128 bytes panics.\<close>

lemma unpad_panics:
  "(user_secret_unpad p = None \<longleftrightarrow> 128 < unat (hd (bytes_of (padded_array p)))) \<and>
   (user_secret_from b = None \<longleftrightarrow> 128 < length b)"
  by (auto simp: user_secret_unpad_None user_secret_from_def MAX_USER_SECRET_LENGTH_def)

text \<open>The salt of the PIN hash determines the version and the user info (no two pairs share
  a salt), and computing it panics only on user info of 4 GiB or more.\<close>

lemma pin_salt_injective:
  "(pin_salt v i = None \<longleftrightarrow> 2 ^ 32 \<le> length (user_info_bytes i)) \<and>
   (pin_salt v i = pin_salt w j \<longleftrightarrow>
      v = w \<and> i = j \<or> pin_salt v i = None \<and> pin_salt w j = None)"
proof -
  have "pin_salt v i = pin_salt w j \<longleftrightarrow>
      v = w \<and> i = j \<or> pin_salt v i = None \<and> pin_salt w j = None"
  proof (cases "pin_salt v i")
    case (Some bs)
    then show ?thesis
      using pin_salt_inject [OF Some, of w j] by auto
  qed auto
  then show ?thesis
    by (intro conjI pin_salt_None)
qed

end
