(* ===== verification/Configuration.thy ===== *)
theory Configuration
  imports Sdk_Types
begin

text \<open>
  The client's configuration (rust/sdk/src/configuration.rs): the assertions that
  \<open>CheckedConfiguration::from\<close> makes, the fixed order of the realms, and the share index of
  a realm. JSON conversion is serde_json's.
\<close>

section \<open>The type and its check\<close>

record 'u configuration =
  realms :: "'u realm list"
  register_threshold :: u32
  recover_threshold :: u32
  config_pin_hashing_mode :: pin_hashing_mode

datatype 'u checked_configuration = CheckedConfiguration (the_configuration: "'u configuration")

text \<open>\<open>u32::try_from(usize)\<close>\<close>

definition u32_try_from :: "nat \<Rightarrow> u32 option" where
  "u32_try_from n = (if n < 2 ^ 32 then Some (of_nat n) else None)"

definition checked_configuration_from :: "'u configuration \<Rightarrow> 'u checked_configuration panics" where
  "checked_configuration_from c = do {
     assert_that (realms c \<noteq> []);
     assert_that (length (remdups (map realm_id (realms c))) = length (realms c));
     realm_count \<leftarrow> u32_try_from (length (realms c));
     assert_that (list_all (\<lambda>realm. case realm_public_key realm of
         Some public_key \<Rightarrow> length public_key = 32 | None \<Rightarrow> True) (realms c));
     assert_that (1 \<le> recover_threshold c);
     assert_that (recover_threshold c \<le> realm_count);
     assert_that (recover_threshold c > realm_count div 2);
     assert_that (recover_threshold c \<le> realm_count);
     assert_that (register_threshold c \<le> realm_count);
     let sorted_realms = sort_key realm_id (realms c);
     Some (CheckedConfiguration
       \<lparr>realms = sorted_realms, register_threshold = register_threshold c,
        recover_threshold = recover_threshold c,
        config_pin_hashing_mode = config_pin_hashing_mode c\<rparr>)
   }"

text \<open>\<open>Deref\<close>: a checked configuration is used as the configuration it holds.\<close>

abbreviation crealms :: "'u checked_configuration \<Rightarrow> 'u realm list" where
  "crealms c \<equiv> realms (the_configuration c)"

text \<open>\<open>iter().position(p)\<close>\<close>

fun position :: "('a \<Rightarrow> bool) \<Rightarrow> 'a list \<Rightarrow> nat option" where
  "position p [] = None"
| "position p (x # xs) = (if p x then Some 0 else map_option Suc (position p xs))"

definition share_index :: "'u checked_configuration \<Rightarrow> realm_id \<Rightarrow> index option" where
  "share_index self realm =
     (case position (\<lambda>r. realm_id r = realm) (crealms self) of
        Some index \<Rightarrow> map_option Index (u32_try_from (index + 1))
      | None \<Rightarrow> None)"

definition share_count :: "'u checked_configuration \<Rightarrow> u32 panics" where
  "share_count self = u32_try_from (length (crealms self))"

section \<open>What a checked configuration guarantees\<close>

definition configuration_ok :: "'u configuration \<Rightarrow> bool" where
  "configuration_ok c \<longleftrightarrow>
     distinct (map realm_id (realms c)) \<and> length (realms c) < 2 ^ 32 \<and>
     (\<forall>r \<in> set (realms c). \<forall>k. realm_public_key r = Some k \<longrightarrow> length k = 32) \<and>
     length (realms c) < 2 * unat (recover_threshold c) \<and>
     unat (recover_threshold c) \<le> length (realms c) \<and>
     unat (register_threshold c) \<le> length (realms c)"

lemma length_remdups_eq [simp]: "length (remdups xs) = length xs \<longleftrightarrow> distinct xs"
  by (simp add: length_remdups_concat [of "[xs]", simplified] card_distinct
      distinct_card iffI)

lemma length_remdups_map [simp]: "length (remdups (map f xs)) = length xs \<longleftrightarrow> distinct (map f xs)"
  using length_remdups_eq [of "map f xs"] by (simp del: length_remdups_eq)

lemma u32_try_from_Some: "u32_try_from n = Some w \<longleftrightarrow> n < 2 ^ 32 \<and> w = of_nat n"
  by (auto simp: u32_try_from_def)

lemma half_less: "n < 2 ^ 32 \<Longrightarrow> (of_nat n div 2 :: u32) < t \<longleftrightarrow> n < 2 * unat t"
proof -
  assume "n < 2 ^ 32"
  then have "unat (of_nat n :: u32) = n"
    by (intro of_nat_inverse [OF refl]) simp
  then have "unat (of_nat n div 2 :: u32) = n div 2"
    by (simp add: unat_div)
  then show ?thesis
    by (auto simp: word_less_nat_alt)
qed

lemma checked_configuration_from_eq:
  "checked_configuration_from c =
     (if configuration_ok c
      then Some (CheckedConfiguration (c\<lparr>realms := sort_key realm_id (realms c)\<rparr>))
      else None)"
proof (cases "length (realms c) < 2 ^ 32")
  case len: True
  then have u: "unat (of_nat (length (realms c)) :: u32) = length (realms c)"
    by (intro of_nat_inverse [OF refl]) simp
  have keys: "list_all (\<lambda>realm. case realm_public_key realm of
         Some public_key \<Rightarrow> length public_key = 32 | None \<Rightarrow> True) (realms c) \<longleftrightarrow>
      (\<forall>r \<in> set (realms c). \<forall>k. realm_public_key r = Some k \<longrightarrow> length k = 32)"
    by (auto simp: list_all_iff split: option.splits)
  have le: "t \<le> of_nat (length (realms c)) \<longleftrightarrow> unat t \<le> length (realms c)" for t :: u32
    by (simp add: word_le_nat_alt u)
  have one: "1 \<le> t \<longleftrightarrow> 0 < unat t" for t :: u32
    by (auto simp: word_le_nat_alt)
  have rec: "c\<lparr>realms := s\<rparr> = \<lparr>realms = s, register_threshold = register_threshold c,
        recover_threshold = recover_threshold c,
        config_pin_hashing_mode = config_pin_hashing_mode c\<rparr>" for s
    by simp
  show ?thesis
    using len by (auto simp: checked_configuration_from_def u32_try_from_def configuration_ok_def
        half_less [OF len] keys le one rec simp del: length_0_conv)
next
  case False
  then show ?thesis
    by (simp add: checked_configuration_from_def u32_try_from_def configuration_ok_def)
qed

definition checked_ok :: "'u checked_configuration \<Rightarrow> bool" where
  "checked_ok c \<longleftrightarrow> configuration_ok (the_configuration c) \<and> sorted (map realm_id (crealms c))"

lemma checked_configuration_from_ok: "checked_configuration_from c = Some cc \<Longrightarrow> checked_ok cc"
proof -
  assume "checked_configuration_from c = Some cc"
  then have c: "configuration_ok c"
    and cc: "cc = CheckedConfiguration (c\<lparr>realms := sort_key realm_id (realms c)\<rparr>)"
    by (simp_all add: checked_configuration_from_eq split: if_splits)
  have "mset (map realm_id (sort_key realm_id (realms c))) = mset (map realm_id (realms c))"
    by simp
  then have "distinct (map realm_id (sort_key realm_id (realms c)))"
    using c mset_eq_imp_distinct_iff unfolding configuration_ok_def by blast
  then show ?thesis
    using c by (simp add: checked_ok_def configuration_ok_def cc)
qed

lemma checked_key_length:
  "checked_ok c \<Longrightarrow> realm \<in> set (crealms c) \<Longrightarrow> realm_public_key realm = Some k \<Longrightarrow> length k = 32"
  by (auto simp: checked_ok_def configuration_ok_def)

lemma position_Some_nth:
  "position p xs = Some i \<Longrightarrow> i < length xs \<and> p (xs ! i) \<and> (\<forall>j < i. \<not> p (xs ! j))"
proof (induction xs arbitrary: i)
  case (Cons x xs)
  then show ?case
    by (cases i) (auto split: if_splits simp: less_Suc_eq_0_disj)
qed simp

lemma position_None: "position p xs = None \<longleftrightarrow> (\<forall>x \<in> set xs. \<not> p x)"
  by (induction xs) auto

lemma position_nth:
  assumes "distinct (map f xs)" and "i < length xs"
  shows "position (\<lambda>x. f x = f (xs ! i)) xs = Some i"
proof -
  obtain j where j: "position (\<lambda>x. f x = f (xs ! i)) xs = Some j"
    using position_None [of "\<lambda>x. f x = f (xs ! i)" xs] assms(2) by (metis not_Some_eq nth_mem)
  then have "j < length xs" "map f xs ! j = map f xs ! i"
    using position_Some_nth assms(2) by fastforce+
  then have "j = i"
    using assms by (simp add: nth_eq_iff_index_eq del: nth_map)
  with j show ?thesis
    by simp
qed

lemma share_index_nth:
  assumes "checked_ok c" and "i < length (crealms c)"
  shows "share_index c (realm_id (crealms c ! i)) = Some (Index (of_nat (Suc i)))"
  using assms position_nth [of realm_id "crealms c" i]
  by (simp add: share_index_def checked_ok_def configuration_ok_def u32_try_from_def)

lemma share_index_None: 
  assumes "checked_ok c"
  shows "share_index c i = None \<longleftrightarrow> i \<notin> realm_id ` set (crealms c)"
proof (cases "position (\<lambda>r. realm_id r = i) (crealms c)")
  case None
  then show ?thesis
    using position_None [of "\<lambda>r. realm_id r = i" "crealms c"] by (auto simp: share_index_def)
next
  case (Some k)
  then have "k < length (crealms c)" "realm_id (crealms c ! k) = i"
    using position_Some_nth by fastforce+
  then show ?thesis
    using share_index_nth [OF assms, of k] by auto
qed

lemma share_count_ok:
  "checked_ok c \<Longrightarrow> share_count c = Some (of_nat (length (crealms c)))"
  by (simp add: share_count_def checked_ok_def configuration_ok_def u32_try_from_def)

section \<open>Properties\<close>

text \<open>C26. Checking a configuration succeeds exactly when the realm ids are distinct, public keys
  have 32 bytes, the recover threshold is a majority, and neither threshold exceeds the
  number of realms; the result lists the same realms in the order of their ids.\<close>

theorem checked_configuration_spec:
  "(checked_configuration_from c \<noteq> None \<longleftrightarrow>
      distinct (map realm_id (realms c)) \<and> length (realms c) < 2 ^ 32 \<and>
      (\<forall>r \<in> set (realms c). \<forall>k. realm_public_key r = Some k \<longrightarrow> length k = 32) \<and>
      length (realms c) < 2 * unat (recover_threshold c) \<and>
      unat (recover_threshold c) \<le> length (realms c) \<and>
      unat (register_threshold c) \<le> length (realms c)) \<and>
   (\<forall>cc. checked_configuration_from c = Some cc \<longrightarrow>
      mset (crealms cc) = mset (realms c) \<and> sorted_wrt (<) (map realm_id (crealms cc)))"
proof -
  have "mset (crealms cc) = mset (realms c) \<and> sorted_wrt (<) (map realm_id (crealms cc))"
    if "checked_configuration_from c = Some cc" for cc
    using checked_configuration_from_ok [OF that] that
    by (auto simp: checked_configuration_from_eq checked_ok_def configuration_ok_def
        strict_sorted_iff split: if_splits)
  then show ?thesis
    by (auto simp: checked_configuration_from_eq configuration_ok_def)
qed

end
