(* ===== verification/Effects.thy ===== *)
theory Effects
  imports Network Configuration
begin

text \<open>
  Effects of the client. A step \<open>'st \<Rightarrow> (('e + 'a) \<times> 'st) panics\<close> may panic, fail with an
  error or return a value, and changes the state; \<open>io_bind\<close> is the \<open>?\<close> operator followed
  by the rest of the function. The environment collects what the client is given: the HTTP
  transport, the token manager, the sleeper, the clock, the random number generator, the
  executor that runs the futures, the CBOR codecs and the cryptographic crates.
\<close>

section \<open>Steps\<close>

type_synonym ('st, 'e, 'a) step = "'st \<Rightarrow> (('e + 'a) \<times> 'st) panics"

definition io_return :: "'a \<Rightarrow> ('st, 'e, 'a) step" where
  "io_return x st = Some (Ok x, st)"

definition io_err :: "'e \<Rightarrow> ('st, 'e, 'a) step" where
  "io_err e st = Some (Err e, st)"

definition io_result :: "'e + 'a \<Rightarrow> ('st, 'e, 'a) step" where
  "io_result r st = Some (r, st)"

definition io_panics :: "'a panics \<Rightarrow> ('st, 'e, 'a) step" where
  "io_panics m st = (case m of None \<Rightarrow> None | Some x \<Rightarrow> Some (Ok x, st))"

definition io_bind :: "('st, 'e, 'a) step \<Rightarrow> ('a \<Rightarrow> ('st, 'e, 'b) step) \<Rightarrow> ('st, 'e, 'b) step" where
  "io_bind m f st = (case m st of
     None \<Rightarrow> None
   | Some (Err e, st') \<Rightarrow> Some (Err e, st')
   | Some (Ok x, st') \<Rightarrow> f x st')"

text \<open>Running a step and looking at its \<open>Result\<close> (a \<open>match\<close> on it).\<close>

definition io_match :: "('st, 'e, 'a) step \<Rightarrow> ('e + 'a \<Rightarrow> ('st, 'f, 'b) step) \<Rightarrow> ('st, 'f, 'b) step" where
  "io_match m f st = (case m st of None \<Rightarrow> None | Some (r, st') \<Rightarrow> f r st')"

definition io_map_err :: "('e \<Rightarrow> 'f) \<Rightarrow> ('st, 'e, 'a) step \<Rightarrow> ('st, 'f, 'a) step" where
  "io_map_err g m st = (case m st of None \<Rightarrow> None | Some (r, st') \<Rightarrow> Some (map_err g r, st'))"

named_theorems io_defs \<open>the steps, unfolded\<close>

lemmas [io_defs] = io_return_def io_err_def io_result_def io_panics_def io_bind_def io_match_def
  io_map_err_def

lemma io_bind_Some:
  "io_bind m f st = Some (r, st') \<longleftrightarrow>
     (\<exists>e. m st = Some (Err e, st') \<and> r = Err e) \<or>
     (\<exists>x st1. m st = Some (Ok x, st1) \<and> f x st1 = Some (r, st'))"
  by (auto simp: io_bind_def split: option.splits sum.splits)

lemma io_match_Some:
  "io_match m f st = Some (r, st') \<longleftrightarrow> (\<exists>q st1. m st = Some (q, st1) \<and> f q st1 = Some (r, st'))"
  by (auto simp: io_match_def split: option.splits)

lemma io_map_err_Some:
  "io_map_err g m st = Some (r, st') \<longleftrightarrow> (\<exists>q. m st = Some (q, st') \<and> r = map_err g q)"
  by (auto simp: io_map_err_def split: option.splits)

lemma io_bind_assoc: "io_bind (io_bind m f) g = io_bind m (\<lambda>x. io_bind (f x) g)"
  by (rule ext) (simp add: io_bind_def split: option.splits sum.splits)

lemma io_bind_return [simp]: "io_bind (io_return x) f = f x"
  by (rule ext) (simp add: io_defs)

section \<open>The client's state and environment\<close>

text \<open>
  Sessions are behind one mutex per realm; the map has an entry for the realms the client
  was built with, and the entry is \<open>None\<close> when there is no session.
\<close>

record 'w client_state =
  world :: 'w
  sessions :: "realm_id \<Rightarrow> session option option"

record ('w, 'u, 's, 'p, 'ed) env =
  env_build :: build
  env_curve :: "('s, 'p) curve"
  env_prims :: "'ed prims"
  env_net :: "'u net_lib"
  env_http :: "'w http_client"
  env_token :: "realm_id \<Rightarrow> 'w \<Rightarrow> auth_token option \<times> 'w"
  env_sleep :: "nat \<Rightarrow> 'w \<Rightarrow> 'w"
  env_now :: "'w \<Rightarrow> nat \<times> 'w"
  env_random16 :: "'w \<Rightarrow> 16 barray \<times> 'w"
  env_random32 :: "'w \<Rightarrow> 32 barray \<times> 'w"
  env_random_scalar :: "'w \<Rightarrow> 's \<times> 'w"
  env_next_u32 :: "'w \<Rightarrow> u32 \<times> 'w"
  env_executor :: "nat \<Rightarrow> 'w \<Rightarrow> nat list \<times> 'w"
  cbor_client_request :: "client_request cbor"
  cbor_client_response :: "client_response cbor"
  cbor_secrets_request :: "('s, 'p) secrets_request cbor"
  cbor_secrets_response :: "('s, 'p) secrets_response cbor"
  cbor_padded_response :: "padded_secrets_response cbor"

definition io_world :: "('w \<Rightarrow> 'a \<times> 'w) \<Rightarrow> ('w client_state, 'e, 'a) step" where
  "io_world g st = (let (x, w) = g (world st) in Some (Ok x, st\<lparr>world := w\<rparr>))"

definition io_world_panics ::
  "('w \<Rightarrow> (('e + 'a) \<times> 'w) panics) \<Rightarrow> ('w client_state, 'e, 'a) step" where
  "io_world_panics g st =
     (case g (world st) of None \<Rightarrow> None | Some (r, w) \<Rightarrow> Some (r, st\<lparr>world := w\<rparr>))"

definition io_world_opt :: "('w \<Rightarrow> ('a \<times> 'w) panics) \<Rightarrow> ('w client_state, 'e, 'a) step" where
  "io_world_opt g st =
     (case g (world st) of None \<Rightarrow> None | Some (x, w) \<Rightarrow> Some (Ok x, st\<lparr>world := w\<rparr>))"

definition io_sleep :: "('w, 'u, 's, 'p, 'ed) env \<Rightarrow> nat \<Rightarrow> ('w client_state, 'e, unit) step" where
  "io_sleep E d st = Some (Ok (), st\<lparr>world := env_sleep E d (world st)\<rparr>)"

lemma io_bind_OkE:
  assumes "io_bind m f st = Some (Ok y, st')"
  obtains x st1 where "m st = Some (Ok x, st1)" "f x st1 = Some (Ok y, st')"
  using assms by (auto simp: io_bind_Some)

lemma io_panics_Ok: "io_panics p st = Some (Ok x, st') \<longleftrightarrow> p = Some x \<and> st' = st"
  by (auto simp: io_panics_def split: option.splits)

lemma io_world_Ok: "io_world g st = Some (Ok x, st') \<longleftrightarrow> g (world st) = (x, world st') \<and> sessions st' = sessions st"
  by (cases st; cases st') (auto simp: io_world_def Let_def split_beta)

text \<open>The executor completes \<open>n\<close> pending futures in some order: a permutation.\<close>

definition executor_ok :: "('w, 'u, 's, 'p, 'ed) env \<Rightarrow> bool" where
  "executor_ok E \<longleftrightarrow> (\<forall>n w. mset (fst (env_executor E n w)) = mset [0..<n])"

section \<open>What a step sends\<close>

text \<open>
  A log of the HTTP requests, kept in the world by the transport and left alone by
  everything else; \<open>sends\<close> bounds the requests a step makes and says of what form they are.
\<close>

definition logged :: "('w, 'u, 's, 'p, 'ed) env \<Rightarrow> ('w \<Rightarrow> http_request list) \<Rightarrow> bool" where
  "logged E log \<longleftrightarrow>
     (\<forall>q w. log (snd (env_http E q w)) = log w @ [q]) \<and>
     (\<forall>i w. log (snd (env_token E i w)) = log w) \<and>
     (\<forall>d w. log (env_sleep E d w) = log w) \<and>
     (\<forall>w. log (snd (env_now E w)) = log w) \<and>
     (\<forall>w. log (snd (env_random16 E w)) = log w) \<and>
     (\<forall>w. log (snd (env_random32 E w)) = log w) \<and>
     (\<forall>w. log (snd (env_random_scalar E w)) = log w) \<and>
     (\<forall>w. log (snd (env_next_u32 E w)) = log w) \<and>
     (\<forall>n w. log (snd (env_executor E n w)) = log w)"

definition sends ::
  "('w \<Rightarrow> http_request list) \<Rightarrow> nat \<Rightarrow> (http_request \<Rightarrow> bool) \<Rightarrow> ('w client_state, 'e, 'a) step \<Rightarrow> bool"
  where
  "sends log n Q m \<longleftrightarrow> (\<forall>st r st'. m st = Some (r, st') \<longrightarrow>
     (\<exists>qs. log (world st') = log (world st) @ qs \<and> length qs \<le> n \<and> list_all Q qs))"

lemma sendsI:
  "(\<And>st r st'. m st = Some (r, st') \<Longrightarrow>
     \<exists>qs. log (world st') = log (world st) @ qs \<and> length qs \<le> n \<and> list_all Q qs) \<Longrightarrow> sends log n Q m"
  by (simp add: sends_def)

lemma sendsD:
  assumes "sends log n Q m" and "m st = Some (r, st')"
  obtains qs where "log (world st') = log (world st) @ qs" "length qs \<le> n" "list_all Q qs"
  using assms unfolding sends_def by blast

lemma sends_mono: "sends log a Q m \<Longrightarrow> a \<le> b \<Longrightarrow> sends log b Q m"
  unfolding sends_def by (meson order_trans)

lemma sends_append:
  assumes "log (world st1) = log (world st) @ qs" "length qs \<le> a" "list_all Q qs"
    and "log (world st2) = log (world st1) @ rs" "length rs \<le> b" "list_all Q rs"
  shows "\<exists>ts. log (world st2) = log (world st) @ ts \<and> length ts \<le> a + b \<and> list_all Q ts"
  by (rule exI [of _ "qs @ rs"]) (use assms in \<open>auto simp: list_all_iff\<close>)

lemma sends_keep: "(\<And>st r st'. m st = Some (r, st') \<Longrightarrow> log (world st') = log (world st)) \<Longrightarrow> sends log n Q m"
  by (rule sendsI) (auto intro: exI [of _ "[]"])

named_theorems sends_intros

lemma sends_pure [sends_intros]:
  "sends log n Q (io_return x)" "sends log n Q (io_err e)" "sends log n Q (io_result r)"
  "sends log n Q (io_panics p)"
  by (auto intro!: sends_keep simp: io_defs split: option.splits)

lemma sends_bind:
  assumes "sends log a Q m" and "\<And>x. sends log b Q (f x)" and "a + b \<le> n"
  shows "sends log n Q (io_bind m f)"
proof (rule sends_mono [OF sendsI assms(3)])
  fix st r st' assume "io_bind m f st = Some (r, st')"
  then consider e where "m st = Some (Err e, st')" | x st1 where "m st = Some (Ok x, st1)"
      "f x st1 = Some (r, st')"
    by (auto simp: io_bind_Some)
  then show "\<exists>qs. log (world st') = log (world st) @ qs \<and> length qs \<le> a + b \<and> list_all Q qs"
  proof cases
    case 1
    obtain qs where "log (world st') = log (world st) @ qs" "length qs \<le> a" "list_all Q qs"
      using assms(1) 1 by (rule sendsD)
    then show ?thesis
      by (intro exI [of _ qs]) simp
  next
    case 2
    obtain qs where qs: "log (world st1) = log (world st) @ qs" "length qs \<le> a" "list_all Q qs"
      using assms(1) 2(1) by (rule sendsD)
    obtain rs where "log (world st') = log (world st1) @ rs" "length rs \<le> b" "list_all Q rs"
      using assms(2) 2(2) by (rule sendsD)
    with qs show ?thesis
      by (rule sends_append)
  qed
qed

lemma sends_match:
  assumes "sends log a Q m" and "\<And>r. sends log b Q (f r)" and "a + b \<le> n"
  shows "sends log n Q (io_match m f)"
proof (rule sends_mono [OF sendsI assms(3)])
  fix st r st' assume "io_match m f st = Some (r, st')"
  then obtain q st1 where q: "m st = Some (q, st1)" "f q st1 = Some (r, st')"
    by (auto simp: io_match_Some)
  obtain qs where qs: "log (world st1) = log (world st) @ qs" "length qs \<le> a" "list_all Q qs"
    using assms(1) q(1) by (rule sendsD)
  obtain rs where "log (world st') = log (world st1) @ rs" "length rs \<le> b" "list_all Q rs"
    using assms(2) q(2) by (rule sendsD)
  with qs show "\<exists>qs. log (world st') = log (world st) @ qs \<and> length qs \<le> a + b \<and> list_all Q qs"
    by (rule sends_append)
qed

lemma sends_match_pure:
  assumes "sends log n Q m" and "\<And>r. sends log 0 Q (f r)"
  shows "sends log n Q (io_match m f)"
  by (rule sends_match [OF assms]) simp

lemma sends_bind_pure:
  assumes "sends log n Q m" and "\<And>x. sends log 0 Q (f x)"
  shows "sends log n Q (io_bind m f)"
  by (rule sends_bind [OF assms]) simp

lemma sends_bind_returns:
  assumes "sends log a Q m"
    and "\<And>st x st'. m st = Some (Ok x, st') \<Longrightarrow> P x"
    and "\<And>x. P x \<Longrightarrow> sends log b Q (f x)"
  shows "sends log (a + b) Q (io_bind m f)"
proof -
  have "sends log (a + b) Q (io_bind m (\<lambda>x. if P x then f x else io_panics None))"
    by (rule sends_bind [OF assms(1)]) (auto intro: assms(3) sends_pure)
  moreover have "io_bind m (\<lambda>x. if P x then f x else io_panics None) st = io_bind m f st" for st
    using assms(2) [of st] by (auto simp: io_bind_def split: option.split sum.split)
  ultimately show ?thesis
    by (simp add: sends_def)
qed

lemma sends_map_err: "sends log n Q m \<Longrightarrow> sends log n Q (io_map_err g m)"
  unfolding sends_def by (auto simp: io_map_err_Some)

lemma sends_world [sends_intros]:
  "(\<And>w. log (snd (g w)) = log w) \<Longrightarrow> sends log n Q (io_world g)"
proof (rule sends_keep)
  fix st r st' assume g: "\<And>w. log (snd (g w)) = log w" and "io_world g st = Some (r, st')"
  then show "log (world st') = log (world st)"
    using g [of "world st"] by (auto simp: io_world_def Let_def split_beta)
qed

lemma sends_if: "sends log n Q a \<Longrightarrow> sends log n Q b \<Longrightarrow> sends log n Q (if c then a else b)"
  by simp

section \<open>Which state a step touches\<close>

text \<open>Every outcome of a step is related to its start by a reflexive and transitive relation.\<close>

definition io_rel :: "('st \<Rightarrow> 'st \<Rightarrow> bool) \<Rightarrow> ('st, 'e, 'a) step \<Rightarrow> bool" where
  "io_rel R m \<longleftrightarrow> (\<forall>st r st'. m st = Some (r, st') \<longrightarrow> R st st')"

lemma io_relI: "(\<And>st r st'. m st = Some (r, st') \<Longrightarrow> R st st') \<Longrightarrow> io_rel R m"
  by (simp add: io_rel_def)

lemma io_relD: "io_rel R m \<Longrightarrow> m st = Some (r, st') \<Longrightarrow> R st st'"
  unfolding io_rel_def by blast

lemma io_rel_pure:
  assumes "reflp R"
  shows "io_rel R (io_return x)" "io_rel R (io_err e)" "io_rel R (io_result r)" "io_rel R (io_panics p)"
  using reflpD [OF assms] by (auto intro!: io_relI simp: io_defs split: option.splits)

lemma io_rel_bind:
  assumes "transp R" "io_rel R m" "\<And>x. io_rel R (f x)"
  shows "io_rel R (io_bind m f)"
proof (rule io_relI)
  fix st r st' assume "io_bind m f st = Some (r, st')"
  then consider e where "m st = Some (Err e, st')" | x st1 where "m st = Some (Ok x, st1)"
      "f x st1 = Some (r, st')"
    by (auto simp: io_bind_Some)
  then show "R st st'"
    using io_relD [OF assms(2)] io_relD [OF assms(3)] transpD [OF assms(1)] by cases blast+
qed

lemma io_rel_match:
  assumes "transp R" "io_rel R m" "\<And>r. io_rel R (f r)"
  shows "io_rel R (io_match m f)"
proof (rule io_relI)
  fix st r st' assume "io_match m f st = Some (r, st')"
  then obtain q st1 where "m st = Some (q, st1)" "f q st1 = Some (r, st')"
    by (auto simp: io_match_Some)
  then show "R st st'"
    using io_relD [OF assms(2)] io_relD [OF assms(3)] transpD [OF assms(1)] by blast
qed

lemma io_rel_map_err: "io_rel R m \<Longrightarrow> io_rel R (io_map_err g m)"
  by (auto simp: io_rel_def io_map_err_Some)

text \<open>The relation for the sessions: only the slot of realm \<open>i\<close> changes, and none appears.\<close>

definition only_slot :: "realm_id \<Rightarrow> 'w client_state \<Rightarrow> 'w client_state \<Rightarrow> bool" where
  "only_slot i st st' \<longleftrightarrow> (\<forall>j. j \<noteq> i \<longrightarrow> sessions st' j = sessions st j) \<and>
     (sessions st i \<noteq> None \<longrightarrow> sessions st' i \<noteq> None)"

lemma only_slot_reflp: "reflp (only_slot i)" and only_slot_transp: "transp (only_slot i)"
  by (auto simp: only_slot_def intro!: reflpI transpI)

lemma io_rel_only_slot_world [intro]:
  assumes "\<And>st r st'. m st = Some (r, st') \<Longrightarrow> sessions st' = sessions st"
  shows "io_rel (only_slot i) m"
  by (rule io_relI) (simp add: only_slot_def assms)

end
