(* ===== verification/Join.thy ===== *)
theory Join
  imports Effects
begin

text \<open>
  \<open>join_at_least_threshold\<close> and \<open>min\<close> (rust/sdk/src/request.rs), and the \<open>join_all\<close> of
  delete.rs. The executor chooses the order in which the futures complete; a future's
  effects happen when it completes, and a future that is dropped by an early return has no
  effects.
\<close>

section \<open>The operations\<close>

fun min_value :: "'e::linorder list \<Rightarrow> 'e panics" where
  "min_value [] = None"
| "min_value (x # xs) = Some (foldl min x xs)"

fun join_loop ::
  "nat \<Rightarrow> 'a list \<Rightarrow> 'e::linorder list \<Rightarrow> ('st, 'e, 'a) step list \<Rightarrow> ('st, 'e, 'a list) step" where
  "join_loop limit oks errors [] st = Some (Ok oks, st)"
| "join_loop limit oks errors (f # fs) st =
     (case f st of
        None \<Rightarrow> None
      | Some (Ok ok, st') \<Rightarrow> join_loop limit (oks @ [ok]) errors fs st'
      | Some (Err error, st') \<Rightarrow>
          (let errors = errors @ [error] in
           if length errors > limit
           then (case min_value errors of None \<Rightarrow> None | Some e \<Rightarrow> Some (Err e, st'))
           else join_loop limit oks errors fs st'))"

definition join_at_least_threshold ::
  "('w, 'u, 's, 'p, 'ed) env \<Rightarrow> ('w client_state, 'e::linorder, 'a) step list \<Rightarrow> u32 \<Rightarrow>
     ('w client_state, 'e, 'a list) step" where
  "join_at_least_threshold E futures threshold =
     (let total = length futures; threshold = unat threshold in
      io_bind (io_panics (assert_that (total \<ge> threshold))) (\<lambda>_.
      io_bind (io_panics (assert_that (threshold > 0))) (\<lambda>_.
      io_bind (io_world (env_executor E total)) (\<lambda>order.
      io_bind (join_loop (total - threshold) [] [] (in_order order futures)) (\<lambda>oks.
      io_bind (io_panics (assert_that (length oks \<ge> threshold))) (\<lambda>_.
      io_return oks))))))"

text \<open>
  \<open>join_all\<close> runs every future and returns the results in the order of the futures;
  collecting them into a \<open>Result\<close> keeps the first error of that order.
\<close>

fun run_all :: "('st, 'e, 'a) step list \<Rightarrow> 'st \<Rightarrow> (('e + 'a) list \<times> 'st) panics" where
  "run_all [] st = Some ([], st)"
| "run_all (f # fs) st =
     (case f st of
        None \<Rightarrow> None
      | Some (r, st') \<Rightarrow>
          (case run_all fs st' of None \<Rightarrow> None | Some (rs, st'') \<Rightarrow> Some (r # rs, st'')))"

fun collect_results :: "('e + 'a) list \<Rightarrow> 'e + 'a list" where
  "collect_results [] = Ok []"
| "collect_results (Err e # rs) = Err e"
| "collect_results (Ok x # rs) = and_then (collect_results rs) (\<lambda>xs. Ok (x # xs))"

definition join_all ::
  "('w, 'u, 's, 'p, 'ed) env \<Rightarrow> ('w client_state, 'e, 'a) step list \<Rightarrow>
     'w client_state \<Rightarrow> (('e + 'a) list \<times> 'w client_state) panics" where
  "join_all E futures st =
     (let (order, w) = env_executor E (length futures) (world st) in
      case run_all (in_order order futures) (st\<lparr>world := w\<rparr>) of
        None \<Rightarrow> None
      | Some (rs, st') \<Rightarrow>
          Some (map (\<lambda>i. the (map_of (zip order rs) i)) [0..<length futures], st'))"

section \<open>Successes and errors of a run\<close>

fun oks_of :: "('e + 'a) list \<Rightarrow> 'a list" where
  "oks_of [] = []"
| "oks_of (Ok x # rs) = x # oks_of rs"
| "oks_of (Err e # rs) = oks_of rs"

fun errs_of :: "('e + 'a) list \<Rightarrow> 'e list" where
  "errs_of [] = []"
| "errs_of (Ok x # rs) = errs_of rs"
| "errs_of (Err e # rs) = e # errs_of rs"

lemma length_oks_errs: "length (oks_of rs) + length (errs_of rs) = length rs"
  by (induction rs rule: oks_of.induct) simp_all

lemma oks_of_append [simp]: "oks_of (rs @ qs) = oks_of rs @ oks_of qs"
  by (induction rs rule: oks_of.induct) simp_all

lemma errs_of_append [simp]: "errs_of (rs @ qs) = errs_of rs @ errs_of qs"
  by (induction rs rule: errs_of.induct) simp_all

lemma oks_of_map_Ok [simp]: "oks_of (map Ok xs) = xs" "errs_of (map Ok xs) = []"
  by (induction xs) simp_all

lemma set_oks_of: "x \<in> set (oks_of rs) \<longleftrightarrow> Ok x \<in> set rs"
  by (induction rs rule: oks_of.induct) auto

lemma set_errs_of: "e \<in> set (errs_of rs) \<longleftrightarrow> Err e \<in> set rs"
  by (induction rs rule: errs_of.induct) auto

lemma length_run_all: "run_all fs st = Some (rs, st') \<Longrightarrow> length rs = length fs"
  by (induction fs arbitrary: st rs) (auto split: option.splits)

lemma foldl_min: "foldl min x xs = Min (set (x # xs))" for x :: "'e::linorder"
proof (induction xs arbitrary: x)
  case (Cons y ys)
  have "Min (insert x (insert y (set ys))) = Min (insert (min x y) (set ys))"
    by (cases "ys = []") (simp_all add: min.assoc)
  with Cons show ?case
    by simp
qed simp

lemma min_value_eq: "errors \<noteq> [] \<Longrightarrow> min_value errors = Some (Min (set errors))"
  by (cases errors) (simp_all add: foldl_min del: foldl_Cons)

section \<open>What the loop returns\<close>

lemma join_loop_Ok:
  "join_loop limit oks errors fs st = Some (Ok res, st') \<Longrightarrow>
     \<exists>rs. run_all fs st = Some (rs, st') \<and> res = oks @ oks_of rs \<and>
       (errs_of rs \<noteq> [] \<longrightarrow> length errors + length (errs_of rs) \<le> limit)"
proof (induction fs arbitrary: oks errors st)
  case (Cons f fs)
  consider (ok) ok st1 where "f st = Some (Ok ok, st1)"
    | (err) e st1 where "f st = Some (Err e, st1)"
    using Cons.prems by (cases "f st") (auto split: sum.splits)
  then show ?case
  proof cases
    case ok
    obtain rs where "run_all fs st1 = Some (rs, st')" "res = (oks @ [ok]) @ oks_of rs"
        "errs_of rs \<noteq> [] \<longrightarrow> length errors + length (errs_of rs) \<le> limit"
      using Cons.IH [of "oks @ [ok]" errors st1] Cons.prems ok by auto
    with ok show ?thesis
      by (intro exI [of _ "Ok ok # rs"]) simp
  next
    case err
    have le: "\<not> limit < length (errors @ [e])"
      using Cons.prems err by (auto simp: Let_def split: option.splits)
    then obtain rs where "run_all fs st1 = Some (rs, st')" "res = oks @ oks_of rs"
        "errs_of rs \<noteq> [] \<longrightarrow> length (errors @ [e]) + length (errs_of rs) \<le> limit"
      using Cons.IH [of oks "errors @ [e]" st1] Cons.prems err by (auto simp: Let_def)
    with le err show ?thesis
      by (intro exI [of _ "Err e # rs"]) (cases "errs_of rs"; simp)
  qed
qed simp

lemma join_loop_Err:
  "join_loop limit oks errors fs st = Some (Err e, st') \<Longrightarrow> length errors \<le> limit \<Longrightarrow>
     \<exists>k rs. k \<le> length fs \<and> run_all (take k fs) st = Some (rs, st') \<and>
       length errors + length (errs_of rs) = Suc limit \<and> e = Min (set (errors @ errs_of rs))"
proof (induction fs arbitrary: oks errors st)
  case (Cons f fs)
  consider (ok) ok st1 where "f st = Some (Ok ok, st1)"
    | (err) e1 st1 where "f st = Some (Err e1, st1)"
    using Cons.prems by (cases "f st") (auto split: sum.splits)
  then show ?case
  proof cases
    case ok
    then obtain k rs where "k \<le> length fs" "run_all (take k fs) st1 = Some (rs, st')"
        "length errors + length (errs_of rs) = Suc limit" "e = Min (set (errors @ errs_of rs))"
      using Cons.IH [of "oks @ [ok]" errors st1] Cons.prems by auto
    with ok show ?thesis
      by (intro exI [of _ "Suc k"] exI [of _ "Ok ok # rs"]) simp
  next
    case err
    show ?thesis
    proof (cases "limit < length (errors @ [e1])")
      case True
      then have "e = Min (set (errors @ [e1]))" "st' = st1"
        using Cons.prems(1) err min_value_eq [of "errors @ [e1]"] by (simp_all add: Let_def)
      with True err Cons.prems(2) show ?thesis
        by (intro exI [of _ "Suc 0"] exI [of _ "[Err e1]"]) simp
    next
      case False
      then obtain k rs where "k \<le> length fs" "run_all (take k fs) st1 = Some (rs, st')"
          "length (errors @ [e1]) + length (errs_of rs) = Suc limit"
          "e = Min (set ((errors @ [e1]) @ errs_of rs))"
        using Cons.IH [of oks "errors @ [e1]" st1] Cons.prems err by (auto simp: Let_def)
      with err show ?thesis
        by (intro exI [of _ "Suc k"] exI [of _ "Err e1 # rs"]) simp
    qed
  qed
qed simp

lemma join_loop_None: "join_loop limit oks errors fs st = None \<Longrightarrow> run_all fs st = None"
proof (induction fs arbitrary: oks errors st)
  case (Cons f fs)
  show ?case
  proof (cases "f st")
    case (Some p)
    consider (ok) ok st1 where "f st = Some (Ok ok, st1)"
      | (err) e1 st1 where "f st = Some (Err e1, st1)"
      using Some by (cases p; cases "fst p") auto
    then show ?thesis
    proof cases
      case ok
      then show ?thesis
        using Cons.IH [of "oks @ [ok]" errors st1] Cons.prems by simp
    next
      case err
      have "\<not> limit < length (errors @ [e1])"
        using Cons.prems err min_value_eq [of "errors @ [e1]"] by (auto simp: Let_def)
      then show ?thesis
        using Cons.IH [of oks "errors @ [e1]" st1] Cons.prems err by (simp add: Let_def)
    qed
  qed simp
qed simp

lemma join_unfold:
  assumes t: "0 < unat threshold" "unat threshold \<le> length futures"
    and order: "env_executor E (length futures) (world st) = (order, w)"
  shows "join_at_least_threshold E futures threshold st =
    (case join_loop (length futures - unat threshold) [] [] (in_order order futures) (st\<lparr>world := w\<rparr>) of
       None \<Rightarrow> None
     | Some (Ok oks, st') \<Rightarrow> if unat threshold \<le> length oks then Some (Ok oks, st') else None
     | Some (Err e, st') \<Rightarrow> Some (Err e, st'))"
  using assms by (simp add: join_at_least_threshold_def io_defs io_world_def Let_def
      split: option.splits sum.splits)

lemma join_guard_None:
  "\<not> (0 < unat threshold \<and> unat threshold \<le> length futures) \<Longrightarrow>
     join_at_least_threshold E futures threshold st = None"
  by (auto simp: join_at_least_threshold_def io_defs Let_def)

lemma executor_order:
  "executor_ok E \<Longrightarrow> env_executor E n w = (order, w') \<Longrightarrow> mset order = mset [0..<n] \<and> length order = n"
  by (metis executor_ok_def fst_conv length_upt minus_nat.diff_0 mset_eq_length)

text \<open>The assertion after the loop cannot fail, so the only panics are the guards' and the futures'.\<close>

lemma join_spec:
  assumes ok: "executor_ok E" and t: "0 < unat threshold" "unat threshold \<le> length futures"
    and order: "env_executor E (length futures) (world st) = (order, w)"
    and nopanic: "run_all (in_order order futures) (st\<lparr>world := w\<rparr>) \<noteq> None"
  shows "(\<exists>oks st'. join_at_least_threshold E futures threshold st = Some (Ok oks, st') \<and>
      unat threshold \<le> length oks \<and>
      (\<exists>rs. run_all (in_order order futures) (st\<lparr>world := w\<rparr>) = Some (rs, st') \<and> oks = oks_of rs)) \<or>
    (\<exists>e st'. join_at_least_threshold E futures threshold st = Some (Err e, st') \<and>
      (\<exists>k rs. k \<le> length futures \<and>
        run_all (take k (in_order order futures)) (st\<lparr>world := w\<rparr>) = Some (rs, st') \<and>
        length (errs_of rs) = Suc (length futures - unat threshold) \<and> e = Min (set (errs_of rs))))"
proof -
  let ?fs = "in_order order futures" and ?limit = "length futures - unat threshold"
  have len: "length ?fs = length futures"
    using executor_order [OF ok order] by simp
  obtain r st' where r: "join_loop ?limit [] [] ?fs (st\<lparr>world := w\<rparr>) = Some (r, st')"
    using join_loop_None [of ?limit "[]" "[]" ?fs "st\<lparr>world := w\<rparr>"] nopanic
    by (cases "join_loop ?limit [] [] ?fs (st\<lparr>world := w\<rparr>)") auto
  show ?thesis
  proof (cases r)
    case (Inr oks)
    then obtain rs where rs: "run_all ?fs (st\<lparr>world := w\<rparr>) = Some (rs, st')" "oks = oks_of rs"
        "errs_of rs \<noteq> [] \<longrightarrow> length (errs_of rs) \<le> ?limit"
      using join_loop_Ok [OF r [unfolded Inr]] by auto
    have "length (oks_of rs) + length (errs_of rs) = length futures"
      using length_oks_errs [of rs] length_run_all [OF rs(1)] len by simp
    then have "unat threshold \<le> length oks"
      using rs(2,3) t by (cases "errs_of rs") auto
    then show ?thesis
      using r Inr rs by (simp add: join_unfold [OF t order])
  next
    case (Inl e)
    then show ?thesis
      using join_loop_Err [of ?limit "[]" "[]" ?fs "st\<lparr>world := w\<rparr>" e st'] r len
      by (simp add: join_unfold [OF t order])
  qed
qed

lemma join_Ok:
  assumes "executor_ok E" and "join_at_least_threshold E futures threshold st = Some (Ok oks, st')"
  shows "0 < unat threshold \<and> unat threshold \<le> length oks \<and> length oks \<le> length futures"
proof -
  obtain order w where order: "env_executor E (length futures) (world st) = (order, w)"
    by fastforce
  have t: "0 < unat threshold" "unat threshold \<le> length futures"
    using join_guard_None [of threshold futures E st] assms(2) by (metis option.distinct(1))+
  have loop: "join_loop (length futures - unat threshold) [] [] (in_order order futures)
      (st\<lparr>world := w\<rparr>) = Some (Ok oks, st')" "unat threshold \<le> length oks"
    using assms(2) unfolding join_unfold [OF t order]
    by (auto split: option.splits sum.splits if_splits)
  obtain rs where "run_all (in_order order futures) (st\<lparr>world := w\<rparr>) = Some (rs, st')" "oks = oks_of rs"
    using join_loop_Ok [OF loop(1)] by auto
  then show ?thesis
    using t loop(2) length_run_all length_oks_errs [of rs] executor_order [OF assms(1) order]
    by fastforce
qed

section \<open>Futures that all succeed\<close>

lemma run_all_ok:
  assumes "\<And>i st. i \<in> set order \<Longrightarrow> I st \<Longrightarrow> \<exists>st'. (futures ! i) st = Some (Ok (v i), st') \<and> I st'"
  shows "I st \<Longrightarrow> \<exists>st'. run_all (in_order order futures) st = Some (map (\<lambda>i. Ok (v i)) order, st') \<and> I st'"
  using assms
proof (induction order arbitrary: st)
  case (Cons i order)
  obtain st1 where st1: "(futures ! i) st = Some (Ok (v i), st1)" "I st1"
    using Cons.prems(2) [of i st] Cons.prems(1) by auto
  obtain st' where "run_all (in_order order futures) st1 = Some (map (\<lambda>i. Ok (v i)) order, st')" "I st'"
    using Cons.IH [OF st1(2)] Cons.prems(2) by auto
  with st1 show ?case
    by (simp add: in_order_def)
qed (simp add: in_order_def)

lemma join_all_ok:
  assumes ok: "executor_ok E" and t: "0 < unat threshold" "unat threshold \<le> length futures"
    and run: "\<And>i st. i < length futures \<Longrightarrow> I st \<Longrightarrow>
      \<exists>st'. (futures ! i) st = Some (Ok (v i), st') \<and> I st'"
    and exec: "I (st\<lparr>world := snd (env_executor E (length futures) (world st))\<rparr>)"
  shows "\<exists>order st'. join_at_least_threshold E futures threshold st = Some (Ok (map v order), st') \<and>
    I st' \<and> mset order = mset [0..<length futures]"
proof -
  obtain order w where order: "env_executor E (length futures) (world st) = (order, w)"
    by fastforce
  have perm: "mset order = mset [0..<length futures]" "length order = length futures"
    using executor_order [OF ok order] by auto
  then have set: "i < length futures" if "i \<in> set order" for i
    using mset_eq_setD [OF perm(1)] that by auto
  obtain st' where st': "run_all (in_order order futures) (st\<lparr>world := w\<rparr>) =
      Some (map (\<lambda>i. Ok (v i)) order, st')" "I st'"
    using run_all_ok [of order I futures v "st\<lparr>world := w\<rparr>"] run set exec order by auto
  have noerr: "oks_of (map (\<lambda>i. Ok (v i)) order) = map v order"
    "errs_of (map (\<lambda>i. Ok (v i)) order) = []"
    by (induction order) simp_all
  consider oks st2 where "join_at_least_threshold E futures threshold st = Some (Ok oks, st2)"
      "\<exists>rs. run_all (in_order order futures) (st\<lparr>world := w\<rparr>) = Some (rs, st2) \<and> oks = oks_of rs"
    | k rs st2 where "run_all (take k (in_order order futures)) (st\<lparr>world := w\<rparr>) = Some (rs, st2)"
      "errs_of rs \<noteq> []"
    using join_spec [OF ok t order] st'(1) by fastforce
  then show ?thesis
  proof cases
    case 1
    then show ?thesis
      using st' noerr perm(1) by auto
  next
    case 2
    have "take k (in_order order futures) = in_order (take k order) futures"
      by (simp add: in_order_def take_map)
    moreover have "\<exists>st3. run_all (in_order (take k order) futures) (st\<lparr>world := w\<rparr>) =
        Some (map (\<lambda>i. Ok (v i)) (take k order), st3) \<and> I st3"
      by (rule run_all_ok) (use run set exec order in \<open>auto dest: in_set_takeD\<close>)
    moreover have "errs_of (map (\<lambda>i. Ok (v i)) (take k order)) = []" for k
      by (induction order arbitrary: k) (auto simp: take_Cons split: nat.splits)
    ultimately show ?thesis
      using 2 by auto
  qed
qed

section \<open>What joined futures send\<close>

lemma sends_join_loop:
  assumes "\<And>f. f \<in> set fs \<Longrightarrow> sends log n Q f"
  shows "sends log (length fs * n) Q (join_loop limit oks errors fs)"
  using assms
proof (induction fs arbitrary: oks errors)
  case Nil
  show ?case
    by (rule sends_keep) simp
next
  case (Cons f fs)
  show ?case
  proof (rule sendsI)
    fix st r st' assume run: "join_loop limit oks errors (f # fs) st = Some (r, st')"
    then obtain q st1 where f: "f st = Some (q, st1)"
      by (cases "f st") auto
    obtain qs where qs: "log (world st1) = log (world st) @ qs" "length qs \<le> n" "list_all Q qs"
      using Cons.prems [of f] f by (auto elim: sendsD)
    consider "st' = st1" | oks' errors' where "join_loop limit oks' errors' fs st1 = Some (r, st')"
      using run f by (cases q) (auto simp: Let_def split: if_splits option.splits)
    then show "\<exists>qs. log (world st') = log (world st) @ qs \<and> length qs \<le> length (f # fs) * n \<and>
        list_all Q qs"
    proof cases
      case 1
      then show ?thesis
        using qs by (intro exI [of _ qs]) simp
    next
      case 2
      have "sends log (length fs * n) Q (join_loop limit oks' errors' fs)"
        by (rule Cons.IH) (use Cons.prems in simp)
      then obtain rs where "log (world st') = log (world st1) @ rs" "length rs \<le> length fs * n"
          "list_all Q rs"
        using 2 by (rule sendsD)
      with qs show ?thesis
        using sends_append [of log st1 st qs n Q st' rs "length fs * n"] by simp
    qed
  qed
qed

lemma sends_join:
  assumes "logged E log" and "executor_ok E"
    and "\<And>f. f \<in> set futures \<Longrightarrow> sends log n Q f"
  shows "sends log (length futures * n) Q (join_at_least_threshold E futures threshold)"
proof (rule sendsI)
  fix st r st' assume run: "join_at_least_threshold E futures threshold st = Some (r, st')"
  obtain order w where order: "env_executor E (length futures) (world st) = (order, w)"
    by fastforce
  have perm: "mset order = mset [0..<length futures]" "length order = length futures"
    using executor_order [OF assms(2) order] by auto
  have t: "0 < unat threshold" "unat threshold \<le> length futures"
    using join_guard_None [of threshold futures E st] run by (metis option.distinct(1))+
  have loop: "\<exists>q. join_loop (length futures - unat threshold) [] [] (in_order order futures)
      (st\<lparr>world := w\<rparr>) = Some (q, st')"
    using run unfolding join_unfold [OF t order]
    by (auto split: option.splits sum.splits if_splits)
  have "is_schedule order futures"
    using perm by (simp add: is_schedule_def)
  then have "sends log (length (in_order order futures) * n) Q
      (join_loop (length futures - unat threshold) [] [] (in_order order futures))"
    by (intro sends_join_loop) (use set_in_order assms(3) in blast)
  moreover have "log w = log (world st)"
    using assms(1) order unfolding logged_def by (metis snd_conv)
  ultimately show "\<exists>qs. log (world st') = log (world st) @ qs \<and> length qs \<le> length futures * n \<and>
      list_all Q qs"
    using loop perm(2) unfolding sends_def by fastforce
qed

lemma run_all_mem:
  "run_all fs st = Some (rs, st') \<Longrightarrow> r \<in> set rs \<Longrightarrow> \<exists>f st1 st2. f \<in> set fs \<and> f st1 = Some (r, st2)"
proof (induction fs arbitrary: st rs)
  case (Cons f fs)
  then obtain q st1 qs where q: "f st = Some (q, st1)" "run_all fs st1 = Some (qs, st')" "rs = q # qs"
    by (auto split: option.splits)
  then show ?case
  proof (cases "r = q")
    case True
    then show ?thesis
      using q(1) by auto
  next
    case False
    then have "r \<in> set qs"
      using Cons.prems q by simp
    from Cons.IH [OF q(2) this] show ?thesis
      by auto
  qed
qed simp

lemma join_outcome:
  assumes "executor_ok E" and "join_at_least_threshold E futures threshold st = Some (Ok oks, st')"
    and f: "\<And>f st x st'. f \<in> set futures \<Longrightarrow> f st = Some (Ok x, st') \<Longrightarrow> P x"
  shows "\<forall>x \<in> set oks. P x"
proof
  fix x assume x: "x \<in> set oks"
  obtain order w where order: "env_executor E (length futures) (world st) = (order, w)"
    by fastforce
  have t: "0 < unat threshold" "unat threshold \<le> length futures"
    using join_guard_None [of threshold futures E st] assms(2) by (metis option.distinct(1))+
  have "join_loop (length futures - unat threshold) [] [] (in_order order futures)
      (st\<lparr>world := w\<rparr>) = Some (Ok oks, st')"
    using assms(2) unfolding join_unfold [OF t order]
    by (auto split: option.splits sum.splits if_splits)
  then obtain rs where rs: "run_all (in_order order futures) (st\<lparr>world := w\<rparr>) = Some (rs, st')"
      "oks = oks_of rs"
    using join_loop_Ok by fastforce
  have "is_schedule order futures"
    using executor_order [OF assms(1) order] by (simp add: is_schedule_def)
  then have "set (in_order order futures) = set futures"
    by (rule set_in_order)
  moreover have "Ok x \<in> set rs"
    using x rs(2) by (simp add: set_oks_of)
  ultimately show "P x"
    using run_all_mem [OF rs(1)] f by blast
qed

section \<open>Steps that do not panic\<close>

text \<open>
  \<open>post B c m P\<close>: from a state whose budget is \<open>n + c\<close>, the step does not panic, leaves the
  budget \<open>n\<close>, and a value it returns satisfies \<open>P\<close>. \<open>yields\<close>: it also returns a value, for nothing.
\<close>

definition post :: "(nat \<Rightarrow> 'st \<Rightarrow> bool) \<Rightarrow> nat \<Rightarrow> ('st, 'e, 'a) step \<Rightarrow> ('a \<Rightarrow> bool) \<Rightarrow> bool" where
  "post B c m P \<longleftrightarrow>
     (\<forall>n st. B (n + c) st \<longrightarrow> (\<exists>r st'. m st = Some (r, st') \<and> B n st' \<and> (\<forall>x. r = Ok x \<longrightarrow> P x)))"

definition yields :: "(nat \<Rightarrow> 'st \<Rightarrow> bool) \<Rightarrow> ('st, 'e, 'a) step \<Rightarrow> ('a \<Rightarrow> bool) \<Rightarrow> bool" where
  "yields B m P \<longleftrightarrow> (\<forall>n st. B n st \<longrightarrow> (\<exists>x st'. m st = Some (Ok x, st') \<and> B n st' \<and> P x))"

lemma postE:
  assumes "post B c m P" and "B (n + c) st"
  obtains r st' where "m st = Some (r, st')" "B n st'" "\<And>x. r = Ok x \<Longrightarrow> P x"
  using assms unfolding post_def by blast

lemma postD:
  "post B c m P \<Longrightarrow> B (n + c) st \<Longrightarrow> \<exists>r st'. m st = Some (r, st') \<and> B n st' \<and> (\<forall>x. r = Ok x \<longrightarrow> P x)"
  unfolding post_def by blast

lemma postI:
  "(\<And>n st. B (n + c) st \<Longrightarrow> \<exists>r st'. m st = Some (r, st') \<and> B n st' \<and> (\<forall>x. r = Ok x \<longrightarrow> P x)) \<Longrightarrow> post B c m P"
  unfolding post_def by blast

lemma yields_bind: "yields B m P \<Longrightarrow> (\<And>x. P x \<Longrightarrow> yields B (f x) Q) \<Longrightarrow> yields B (io_bind m f) Q"
  unfolding yields_def io_bind_def by (metis (mono_tags, lifting) case_prod_conv option.case(2) sum.case(2))

lemma yields_seq: "yields B m P \<Longrightarrow> (\<And>x. yields B (f x) Q) \<Longrightarrow> yields B (io_bind m f) Q"
  by (rule yields_bind)

lemma yields_post: "yields B m P \<Longrightarrow> post B 0 m P"
  unfolding yields_def post_def by (metis Inr_inject add_0_right)

text \<open>
  What a budget must be: less of it is enough for less, and what happens in the world does not
  use it.
\<close>

locale budget =
  fixes B :: "nat \<Rightarrow> 'w client_state \<Rightarrow> bool"
  assumes less: "B n st \<Longrightarrow> m \<le> n \<Longrightarrow> B m st"
    and world_change: "B n st \<Longrightarrow> B n (st\<lparr>world := w\<rparr>)"
begin

lemma post_weaken:
  assumes "post B c m P" and "c \<le> d" and "\<And>x. P x \<Longrightarrow> Q x"
  shows "post B d m Q"
proof (rule postI)
  fix n st assume "B (n + d) st"
  then have "B (n + c) st"
    by (rule less) (use assms(2) in simp)
  then show "\<exists>r st'. m st = Some (r, st') \<and> B n st' \<and> (\<forall>x. r = Ok x \<longrightarrow> Q x)"
    by (rule postE [OF assms(1)]) (use assms(3) in blast)
qed

lemma post_mono: "post B c m P \<Longrightarrow> (\<And>x. P x \<Longrightarrow> Q x) \<Longrightarrow> post B c m Q"
  by (rule post_weaken [OF _ order_refl])

lemma post_bind:
  assumes m: "post B a m P" and f: "\<And>x. P x \<Longrightarrow> post B b (f x) Q"
  shows "post B (a + b) (io_bind m f) Q"
proof (rule postI)
  fix n st assume "B (n + (a + b)) st"
  then have "B (n + b + a) st"
    by (simp add: ac_simps)
  then obtain r st1 where r: "m st = Some (r, st1)" "B (n + b) st1" "\<And>x. r = Ok x \<Longrightarrow> P x"
    by (rule postE [OF m]) blast
  show "\<exists>q st'. io_bind m f st = Some (q, st') \<and> B n st' \<and> (\<forall>x. q = Ok x \<longrightarrow> Q x)"
  proof (cases r)
    case (Inl e)
    then show ?thesis
      using r(1) less [OF r(2)] by (simp add: io_bind_def)
  next
    case (Inr x)
    then show ?thesis
      using r(1) postD [OF f r(2), of x] r(3) by (auto simp: io_bind_def)
  qed
qed

lemma post_match:
  assumes m: "post B a m (\<lambda>_. True)" and f: "\<And>r. post B b (f r) Q"
  shows "post B (a + b) (io_match m f) Q"
proof (rule postI)
  fix n st assume "B (n + (a + b)) st"
  then have "B (n + b + a) st"
    by (simp add: ac_simps)
  then obtain r st1 where r: "m st = Some (r, st1)" "B (n + b) st1"
    by (rule postE [OF m]) blast
  from postD [OF f r(2), of r] show "\<exists>q st'. io_match m f st = Some (q, st') \<and> B n st' \<and> (\<forall>x. q = Ok x \<longrightarrow> Q x)"
    using r(1) by (auto simp: io_match_def)
qed

text \<open>Binds of which only one side costs something.\<close>

lemmas post_last = post_bind [where b=0, simplified]
lemmas post_then = post_bind [where a=0, simplified]
lemmas post_match_last = post_match [where b=0, simplified]

lemma post_intros:
  "P x \<Longrightarrow> post B c (io_return x) P" "post B c (io_err e) P" "(\<And>x. r = Ok x \<Longrightarrow> P x) \<Longrightarrow> post B c (io_result r) P"
  "p = Some x \<Longrightarrow> P x \<Longrightarrow> post B c (io_panics p) P" "(\<And>w. P (fst (g w))) \<Longrightarrow> post B c (io_world g) P"
  by (auto simp: post_def io_defs io_world_def Let_def split_beta intro: world_change less)

lemma post_result_then:
  "(\<And>x. r = Ok x \<Longrightarrow> post B c (f x) Q) \<Longrightarrow> post B c (io_bind (io_result r) f) Q"
  by (rule post_then [where P="\<lambda>x. r = Ok x"]) (auto intro: post_intros)

lemma post_world_then: "(\<And>x. post B c (f x) Q) \<Longrightarrow> post B c (io_bind (io_world g) f) Q"
  by (rule post_then [where P="\<lambda>_. True"]) (auto intro: post_intros)

lemma post_map_err: "post B c m P \<Longrightarrow> post B c (io_map_err g m) P"
  by (intro postI) (erule (1) postE, auto simp: io_map_err_def map_err_def split: sum.splits)

lemma post_sleep: "post B c (io_sleep E d) (\<lambda>_. True)"
  by (auto simp: post_def io_sleep_def intro: world_change less)

lemma post_world_panics:
  assumes "\<And>w. h w \<noteq> None"
  shows "post B c (io_world_panics h) (\<lambda>_. True)"
proof (rule postI)
  fix n st assume "B (n + c) st"
  moreover obtain r w where "h (world st) = Some (r, w)"
    using assms [of "world st"] by auto
  ultimately show "\<exists>r st'. io_world_panics h st = Some (r, st') \<and> B n st' \<and> (\<forall>x. r = Ok x \<longrightarrow> True)"
    using less [OF world_change, of "n + c" st n w] by (simp add: io_world_panics_def)
qed

lemma yields_intros:
  "P x \<Longrightarrow> yields B (io_return x) P" "p = Some x \<Longrightarrow> P x \<Longrightarrow> yields B (io_panics p) P"
  "(\<And>w. P (fst (g w))) \<Longrightarrow> yields B (io_world g) P"
  by (auto simp: yields_def io_defs io_world_def Let_def split_beta intro: world_change)

lemma post_run_all:
  assumes "\<And>f. f \<in> set fs \<Longrightarrow> post B c f P" and "B (n + length fs * c) st"
  shows "\<exists>rs st'. run_all fs st = Some (rs, st') \<and> B n st' \<and> (\<forall>x \<in> set (oks_of rs). P x)"
  using assms
proof (induction fs arbitrary: st)
  case (Cons f fs)
  have "B (n + length fs * c + c) st"
    using Cons.prems(2) by (simp add: ac_simps)
  then obtain r st1 where r: "f st = Some (r, st1)" "B (n + length fs * c) st1" "\<And>x. r = Ok x \<Longrightarrow> P x"
    by (rule postE [OF Cons.prems(1) [of f], rotated]) auto
  obtain rs st' where "run_all fs st1 = Some (rs, st')" "B n st'" "\<forall>x \<in> set (oks_of rs). P x"
    using Cons.IH [OF _ r(2)] Cons.prems(1) by auto
  with r show ?case
    by (cases r) auto
qed simp

lemma post_join:
  assumes ok: "executor_ok E" and t: "0 < unat threshold" "unat threshold \<le> length futures"
    and f: "\<And>f. f \<in> set futures \<Longrightarrow> post B c f P"
  shows "post B (length futures * c) (join_at_least_threshold E futures threshold)
    (\<lambda>oks. unat threshold \<le> length oks \<and> length oks \<le> length futures \<and> (\<forall>x \<in> set oks. P x))"
proof (rule postI)
  fix n st assume enough: "B (n + length futures * c) st"
  obtain order w where order: "env_executor E (length futures) (world st) = (order, w)"
    by fastforce
  let ?fs = "in_order order futures" and ?st = "st\<lparr>world := w\<rparr>"
  have fs: "set ?fs = set futures" "length ?fs = length futures"
    using executor_order [OF ok order] set_in_order [of order futures] by (simp_all add: is_schedule_def)
  have run: "\<exists>rs st'. run_all (take k ?fs) ?st = Some (rs, st') \<and> B n st' \<and> (\<forall>x \<in> set (oks_of rs). P x)" for k
  proof (rule post_run_all)
    show "B (n + length (take k ?fs) * c) ?st"
      by (rule less [OF world_change [OF enough]]) (use fs(2) in simp)
    show "post B c g P" if "g \<in> set (take k ?fs)" for g
      using f [of g] that fs(1) by (auto dest: in_set_takeD)
  qed
  have "run_all ?fs ?st \<noteq> None"
    using run [of "length ?fs"] by auto
  from join_spec [OF ok t order this]
  consider (ok) oks st' rs where "join_at_least_threshold E futures threshold st = Some (Ok oks, st')"
      "run_all ?fs ?st = Some (rs, st')" "oks = oks_of rs"
    | (err) e st' k rs where "join_at_least_threshold E futures threshold st = Some (Err e, st')"
      "run_all (take k ?fs) ?st = Some (rs, st')"
    by blast
  then show "\<exists>r st'. join_at_least_threshold E futures threshold st = Some (r, st') \<and> B n st' \<and>
      (\<forall>oks. r = Ok oks \<longrightarrow> unat threshold \<le> length oks \<and> length oks \<le> length futures \<and> (\<forall>x \<in> set oks. P x))"
  proof cases
    case ok
    then show ?thesis
      using run [of "length ?fs"] join_Ok [OF assms(1) ok(1)] by auto
  next
    case err
    then show ?thesis
      using run [of k] by auto
  qed
qed

lemma post_join_each:
  assumes "executor_ok E" and "0 < unat threshold" and "unat threshold \<le> length futures"
    and "\<And>f. f \<in> set futures \<Longrightarrow> post B 1 f (\<lambda>_. True)"
  shows "post B (length futures) (join_at_least_threshold E futures threshold)
    (\<lambda>oks. unat threshold \<le> length oks \<and> length oks \<le> length futures)"
  using post_join [OF assms(1-3), where c=1 and P="\<lambda>_. True"] assms(4) by simp

end

section \<open>Properties\<close>

text \<open>C14. Joining futures under a threshold between 1 and their number never panics on its own:
  it returns all the successes, at least the threshold many, or, once one failure more than
  the threshold tolerates has happened, the least error seen. Outside that range it panics.\<close>

theorem join_at_least_threshold_spec:
  assumes "executor_ok E"
    and "env_executor E (length futures) (world st) = (order, w)"
    and "run_all (in_order order futures) (st\<lparr>world := w\<rparr>) \<noteq> None"
  shows "case join_at_least_threshold E futures threshold st of
      None \<Rightarrow> unat threshold = 0 \<or> length futures < unat threshold
    | Some (Ok oks, st') \<Rightarrow> 0 < unat threshold \<and> unat threshold \<le> length oks \<and>
        (\<exists>rs. run_all (in_order order futures) (st\<lparr>world := w\<rparr>) = Some (rs, st') \<and> oks = oks_of rs)
    | Some (Err e, st') \<Rightarrow> 0 < unat threshold \<and> unat threshold \<le> length futures \<and>
        (\<exists>k rs. run_all (take k (in_order order futures)) (st\<lparr>world := w\<rparr>) = Some (rs, st') \<and>
          length (errs_of rs) = Suc (length futures - unat threshold) \<and> e = Min (set (errs_of rs)))"
proof (cases "0 < unat threshold \<and> unat threshold \<le> length futures")
  case True
  then have t: "0 < unat threshold" "unat threshold \<le> length futures"
    by auto
  show ?thesis
    using join_spec [OF assms(1) t assms(2,3)]
  proof (elim disjE exE conjE)
    fix oks st' rs
    assume "join_at_least_threshold E futures threshold st = Some (Ok oks, st')"
      "unat threshold \<le> length oks" "oks = oks_of rs"
      "run_all (in_order order futures) (st\<lparr>world := w\<rparr>) = Some (rs, st')"
    with t show ?thesis
      by auto
  next
    fix e st' k rs
    assume "join_at_least_threshold E futures threshold st = Some (Err e, st')"
      "run_all (take k (in_order order futures)) (st\<lparr>world := w\<rparr>) = Some (rs, st')"
      "length (errs_of rs) = Suc (length futures - unat threshold)" "e = Min (set (errs_of rs))"
    with t show ?thesis
      by (simp only: option.case sum.case prod.case) blast
  qed
next
  case False
  then show ?thesis
    using join_guard_None [OF False, of E st] by auto
qed

end
