(* ===== verification/Request.thy ===== *)
theory Request
  imports Join
begin

text \<open>
  Requests to a realm (rust/sdk/src/request.rs): a plain RPC with a bearer token to software
  realms, a Noise session to hardware realms, with retries in both cases.
\<close>

section \<open>Errors\<close>

datatype request_error =
    InvalidAuth
  | UpgradeRequired
  | RateLimitExceeded
  | Transient
  | Assertion

fun request_error_from :: "rpc_error \<Rightarrow> request_error" where
  "request_error_from NetworkError = Transient"
| "request_error_from (HttpStatus code) =
     (if code = 401 then InvalidAuth
      else if code = 426 then UpgradeRequired
      else if code = 429 then RateLimitExceeded
      else Transient)"
| "request_error_from (Serialization _) = Assertion"
| "request_error_from (Deserialization _) = Assertion"

datatype request_error_or_missing_session =
    RequestError request_error
  | MissingSessionError

section \<open>Pieces shared by the requests\<close>

text \<open>\<open>auth_token_manager.get(&realm.id).await.ok_or(InvalidAuth)?\<close>\<close>

definition get_token ::
  "('w, 'u, 's, 'p, 'ed) env \<Rightarrow> realm_id \<Rightarrow> ('w client_state, request_error, auth_token) step" where
  "get_token E i st =
     (let (t, w) = env_token E i (world st) in Some (ok_or InvalidAuth t, st\<lparr>world := w\<rparr>))"

definition send_client_request ::
  "('w, 'u, 's, 'p, 'ed) env \<Rightarrow> 'u realm \<Rightarrow> client_request \<Rightarrow>
     ('w client_state, request_error, client_response) step" where
  "send_client_request E realm request =
     io_map_err request_error_from (io_world_panics
       (send (env_net E) (cbor_client_request E) (cbor_client_response E) (env_http E)
          (realm_address realm) request))"

section \<open>Handshake requests\<close>

fun handshake_response_error :: "client_response \<Rightarrow> request_error" where
  "handshake_response_error Unavailable = Transient"
| "handshake_response_error InvalidAuthResponse = InvalidAuth"
| "handshake_response_error ResponseRateLimitExceeded = RateLimitExceeded"
| "handshake_response_error _ = Assertion"

definition finish_handshake ::
  "('w, 'u, 's, 'p, 'ed) env \<Rightarrow> client_handshake \<Rightarrow> session_id \<Rightarrow> client_response \<Rightarrow>
     ('w client_state, request_error, session \<times> bytes) step" where
  "finish_handshake E handshake session_id resp =
     (case resp of
        ResponseOk (HandshakeResponse handshake_response lifetime) \<Rightarrow>
          io_bind (io_panics (client_finish (env_prims E) handshake handshake_response)) (\<lambda>r.
          io_bind (io_result (map_err (\<lambda>_. Assertion) r)) (\<lambda>(transport, response).
          io_bind (io_world (env_now E)) (\<lambda>now.
          io_return (\<lparr>session_session_id = session_id, session_transport = transport,
                      session_lifetime = lifetime, session_last_used = now\<rparr>, response))))
      | _ \<Rightarrow> io_err (handshake_response_error resp))"

definition make_handshake_request ::
  "('w, 'u, 's, 'p, 'ed) env \<Rightarrow> 'u realm \<Rightarrow> bytes \<Rightarrow> bytes \<Rightarrow>
     ('w client_state, request_error, session \<times> bytes) step" where
  "make_handshake_request E realm public_key request =
     io_bind (io_panics (assert_that (length public_key = 32))) (\<lambda>_.
     io_bind (io_world (env_random32 E)) (\<lambda>ephemeral.
     io_bind (io_panics
       (client_start_with_secret (env_prims E) ephemeral (Barray public_key) [] request)) (\<lambda>r.
     io_bind (io_result (map_err (\<lambda>_. Assertion) r)) (\<lambda>(handshake, flds).
     io_bind (io_world (env_next_u32 E)) (\<lambda>n.
     io_bind (get_token E (realm_id realm)) (\<lambda>auth_token.
     io_bind (send_client_request E realm
       \<lparr>request_realm = realm_id realm, request_auth_token = auth_token,
        request_session_id = SessionId n,
        request_kind = (if request = [] then HandshakeOnly else SecretsRequestKind),
        request_encrypted = HandshakeRequest flds\<rparr>)
       (finish_handshake E handshake (SessionId n))))))))"

section \<open>Transport requests\<close>

fun transport_response_error :: "client_response \<Rightarrow> request_error_or_missing_session" where
  "transport_response_error Unavailable = RequestError Transient"
| "transport_response_error InvalidAuthResponse = RequestError InvalidAuth"
| "transport_response_error MissingSession = MissingSessionError"
| "transport_response_error ResponseRateLimitExceeded = RequestError RateLimitExceeded"
| "transport_response_error _ = RequestError Assertion"

text \<open>
  The session is borrowed mutably; the callers drop it when the request fails, so only the
  session of a success is returned.
\<close>

definition finish_transport ::
  "('w, 'u, 's, 'p, 'ed) env \<Rightarrow> session \<Rightarrow> client_response \<Rightarrow>
     ('w client_state, request_error_or_missing_session, session \<times> bytes) step" where
  "finish_transport E session resp =
     (case resp of
        ResponseOk (TransportResponse ciphertext) \<Rightarrow>
          io_bind (io_world (env_now E)) (\<lambda>now.
          io_bind (io_panics (transport_decrypt (env_prims E) (session_transport session) ciphertext))
            (\<lambda>(r, transport).
          io_bind (io_result (map_err (\<lambda>_. RequestError Assertion) r)) (\<lambda>plaintext.
          io_return (session\<lparr>session_last_used := now, session_transport := transport\<rparr>, plaintext))))
      | _ \<Rightarrow> io_err (transport_response_error resp))"

definition make_transport_request ::
  "('w, 'u, 's, 'p, 'ed) env \<Rightarrow> 'u realm \<Rightarrow> session \<Rightarrow> bytes \<Rightarrow>
     ('w client_state, request_error_or_missing_session, session \<times> bytes) step" where
  "make_transport_request E realm session request =
     io_bind (io_map_err RequestError (get_token E (realm_id realm))) (\<lambda>auth_token.
     io_bind (io_panics (transport_encrypt (env_prims E) (session_transport session) request))
       (\<lambda>(r, transport).
     io_bind (io_result (map_err (\<lambda>_. RequestError Assertion) r)) (\<lambda>ciphertext.
     io_bind (io_map_err RequestError (send_client_request E realm
       \<lparr>request_realm = realm_id realm, request_auth_token = auth_token,
        request_session_id = session_session_id session,
        request_kind = SecretsRequestKind,
        request_encrypted = TransportRequest ciphertext\<rparr>))
       (finish_transport E (session\<lparr>session_transport := transport\<rparr>)))))"

section \<open>One attempt\<close>

fun missing_session_is_assertion :: "request_error_or_missing_session \<Rightarrow> request_error" where
  "missing_session_is_assertion (RequestError e) = e"
| "missing_session_is_assertion MissingSessionError = Assertion"

definition try_make_request ::
  "('w, 'u, 's, 'p, 'ed) env \<Rightarrow> 'u realm \<Rightarrow> bytes \<Rightarrow> session option \<Rightarrow> bytes \<Rightarrow> bool \<Rightarrow>
     ('w client_state, request_error_or_missing_session, session \<times> bytes) step" where
  "try_make_request E realm public_key session request nfs =
     (case session of
        None \<Rightarrow>
          if nfs then
            io_bind (io_map_err RequestError (make_handshake_request E realm public_key []))
              (\<lambda>(session, handshake_response).
            if handshake_response \<noteq> [] then io_err (RequestError Assertion)
            else io_map_err (\<lambda>e. RequestError (missing_session_is_assertion e))
              (make_transport_request E realm session request))
          else
            io_bind (io_panics (assert_that (\<not> nfs))) (\<lambda>_.
            io_map_err RequestError (make_handshake_request E realm public_key request))
      | Some session \<Rightarrow> make_transport_request E realm session request)"

section \<open>Requests with retries\<close>

definition send_secrets_request ::
  "('w, 'u, 's, 'p, 'ed) env \<Rightarrow> 'u realm \<Rightarrow> ('s, 'p) secrets_request \<Rightarrow> headers \<Rightarrow>
     ('w client_state, request_error, ('s, 'p) secrets_response) step" where
  "send_secrets_request E realm request headers =
     io_map_err request_error_from (io_world_panics
       (send_with_options (env_net E) (cbor_secrets_request E) (cbor_secrets_response E)
          (env_http E) (realm_address realm) request (with_headers send_options_default headers)))"

text \<open>\<open>for _attempt in 0..2\<close>: \<open>n\<close> attempts are left.\<close>

fun software_attempts ::
  "('w, 'u, 's, 'p, 'ed) env \<Rightarrow> 'u realm \<Rightarrow> ('s, 'p) secrets_request \<Rightarrow> headers \<Rightarrow> nat \<Rightarrow>
     ('w client_state, request_error, ('s, 'p) secrets_response) step" where
  "software_attempts E realm request headers 0 = io_err Transient"
| "software_attempts E realm request headers (Suc n) =
     io_match (send_secrets_request E realm request headers) (\<lambda>r. case r of
         Ok response \<Rightarrow> io_return response
       | Err e \<Rightarrow>
           if e = Transient
           then io_bind (io_sleep E 5) (\<lambda>_. software_attempts E realm request headers n)
           else io_err e)"

definition make_software_realm_request ::
  "('w, 'u, 's, 'p, 'ed) env \<Rightarrow> 'u realm \<Rightarrow> ('s, 'p) secrets_request \<Rightarrow>
     ('w client_state, request_error, ('s, 'p) secrets_response) step" where
  "make_software_realm_request E realm request =
     io_bind (get_token E (realm_id realm)) (\<lambda>auth_token.
     software_attempts E realm request
       [(''Authorization'', ''Bearer '' @ expose_token auth_token)] 2)"

text \<open>\<open>locked.take().filter(|session| session.last_used.elapsed() < session.lifetime)\<close>\<close>

definition take_session ::
  "('w, 'u, 's, 'p, 'ed) env \<Rightarrow> realm_id \<Rightarrow> ('w client_state, 'e, session option) step" where
  "take_session E i st =
     (let st' = st\<lparr>sessions := (sessions st)(i \<mapsto> None)\<rparr> in
      case the (sessions st i) of
        None \<Rightarrow> Some (Ok None, st')
      | Some session \<Rightarrow>
          (let (now, w) = env_now E (world st) in
           Some (Ok (if now - session_last_used session < session_lifetime session
                     then Some session else None), st'\<lparr>world := w\<rparr>)))"

definition put_session :: "realm_id \<Rightarrow> session \<Rightarrow> ('w client_state, 'e, unit) step" where
  "put_session i session st = Some (Ok (), st\<lparr>sessions := (sessions st)(i \<mapsto> Some session)\<rparr>)"

definition decode_response ::
  "('w, 'u, 's, 'p, 'ed) env \<Rightarrow> bytes \<Rightarrow> (request_error + ('s, 'p) secrets_response) panics" where
  "decode_response E response =
     (case map_err (\<lambda>_. Assertion) (from_slice (cbor_padded_response E) response) of
        Err e \<Rightarrow> Some (Err e)
      | Ok padded_response \<Rightarrow>
          map_option (map_err (\<lambda>_. Assertion)) (unpad_response (cbor_secrets_response E) padded_response))"

text \<open>\<open>for attempt in 1..6\<close>: the remaining values of \<open>attempt\<close>.\<close>

fun hardware_attempts ::
  "('w, 'u, 's, 'p, 'ed) env \<Rightarrow> 'u realm \<Rightarrow> bytes \<Rightarrow> bytes \<Rightarrow> bool \<Rightarrow> nat list \<Rightarrow>
     ('w client_state, request_error, ('s, 'p) secrets_response) step" where
  "hardware_attempts E realm public_key request nfs [] = io_err Transient"
| "hardware_attempts E realm public_key request nfs (attempt # rest) =
     io_bind (take_session E (realm_id realm)) (\<lambda>session.
     io_match (try_make_request E realm public_key session request nfs) (\<lambda>r. case r of
         Ok (session, response) \<Rightarrow>
           io_bind (put_session (realm_id realm) session) (\<lambda>_.
           io_bind (io_panics (decode_response E response)) io_result)
       | Err (RequestError e) \<Rightarrow>
           if e = Transient
           then io_bind (io_sleep E (5 * attempt)) (\<lambda>_.
                hardware_attempts E realm public_key request nfs rest)
           else io_err e
       | Err MissingSessionError \<Rightarrow> hardware_attempts E realm public_key request nfs rest))"

definition lock_sessions ::
  "realm_id \<Rightarrow> ('w client_state, 'e, unit) step" where
  "lock_sessions i st = (if sessions st i = None then None else Some (Ok (), st))"

definition make_hardware_realm_request ::
  "('w, 'u, 's, 'p, 'ed) env \<Rightarrow> 'u realm \<Rightarrow> bytes \<Rightarrow> ('s, 'p) secrets_request \<Rightarrow>
     ('w client_state, request_error, ('s, 'p) secrets_response) step" where
  "make_hardware_realm_request E realm public_key request =
     (let nfs = needs_forward_secrecy request in
      io_bind (io_result (map_err (\<lambda>_. Assertion) (to_vec (cbor_secrets_request E) request))) (\<lambda>request.
      io_bind (lock_sessions (realm_id realm)) (\<lambda>_.
      hardware_attempts E realm public_key request nfs [1, 2, 3, 4, 5])))"

definition make_request ::
  "('w, 'u, 's, 'p, 'ed) env \<Rightarrow> 'u realm \<Rightarrow> ('s, 'p) secrets_request \<Rightarrow>
     ('w client_state, request_error, ('s, 'p) secrets_response) step" where
  "make_request E realm request =
     (case realm_public_key realm of
        Some public_key \<Rightarrow> make_hardware_realm_request E realm public_key request
      | None \<Rightarrow> make_software_realm_request E realm request)"

section \<open>What the requests send\<close>

abbreviation posts :: "http_request \<Rightarrow> bool" where "posts q \<equiv> http_method q = Post"

text \<open>The HTTP request that carries a client request, and the two ways one is encrypted.\<close>

definition carries :: "('w, 'u, 's, 'p, 'ed) env \<Rightarrow> client_request \<Rightarrow> http_request \<Rightarrow> bool" where
  "carries E cr q \<longleftrightarrow> http_method q = Post \<and>
     (\<exists>body. into_writer (cbor_client_request E) cr = Ok body \<and> http_body q = Some body)"

definition handshake_for ::
  "('w, 'u, 's, 'p, 'ed) env \<Rightarrow> bytes \<Rightarrow> bytes \<Rightarrow> client_request \<Rightarrow> bool" where
  "handshake_for E public_key payload cr \<longleftrightarrow>
     request_kind cr = (if payload = [] then HandshakeOnly else SecretsRequestKind) \<and>
     (\<exists>ephemeral hs hr. client_start_with_secret (env_prims E) ephemeral (Barray public_key) [] payload =
        Some (Ok (hs, hr)) \<and> request_encrypted cr = HandshakeRequest hr)"

definition transport_for :: "client_request \<Rightarrow> bool" where
  "transport_for cr \<longleftrightarrow> request_kind cr = SecretsRequestKind \<and>
     (\<exists>c. request_encrypted cr = TransportRequest c)"

lemma loggedD:
  assumes "logged E log"
  shows "log (snd (env_http E q w)) = log w @ [q]" "log (snd (env_token E i w)) = log w"
    "log (env_sleep E d w) = log w" "log (snd (env_now E w)) = log w"
    "log (snd (env_random16 E w)) = log w" "log (snd (env_random32 E w)) = log w"
    "log (snd (env_random_scalar E w)) = log w" "log (snd (env_next_u32 E w)) = log w"
  using assms by (simp_all add: logged_def)

lemma sends_get_token: "logged E log \<Longrightarrow> sends log n Q (get_token E i)"
  by (rule sends_keep) (auto simp: get_token_def Let_def split_beta loggedD)

lemma sends_sleep: "logged E log \<Longrightarrow> sends log n Q (io_sleep E d)"
  by (rule sends_keep) (auto simp: io_sleep_def loggedD)

lemma sends_rpc:
  assumes log: "logged E log"
    and Q: "\<And>url body. into_writer KQ request = Ok body \<Longrightarrow> Q \<lparr>http_method = Post, http_url = url,
      http_headers = options_headers opts, http_body = Some body, http_timeout = options_timeout opts\<rparr>"
  shows "sends log 1 Q (io_world_panics
    (send_with_options (env_net E) KQ KA (env_http E) base request opts))"
proof (rule sendsI)
  fix st r st'
  assume "io_world_panics (send_with_options (env_net E) KQ KA (env_http E) base request opts) st = Some (r, st')"
  then obtain url where run:
    "(case map_err Serialization (to_vec KQ request) of
       Err e \<Rightarrow> (Err e, world st)
     | Ok body \<Rightarrow>
         (let (response, w') = env_http E
            \<lparr>http_method = Post, http_url = url_to_string (env_net E) url,
             http_headers = options_headers opts, http_body = Some body,
             http_timeout = options_timeout opts\<rparr> (world st)
          in (rpc_response (env_net E) KA response, w'))) = (r, world st')"
    by (auto simp: io_world_panics_def send_with_options_def bind_eq_Some_conv split: option.splits)
  show "\<exists>qs. log (world st') = log (world st) @ qs \<and> length qs \<le> 1 \<and> list_all Q qs"
  proof (cases "to_vec KQ request")
    case (Inl e)
    then show ?thesis
      using run by (intro exI [of _ "[]"]) simp
  next
    case (Inr body)
    let ?q = "\<lparr>http_method = Post, http_url = url_to_string (env_net E) url,
      http_headers = options_headers opts, http_body = Some body,
      http_timeout = options_timeout opts\<rparr>"
    have "world st' = snd (env_http E ?q (world st))"
      using run Inr by (auto simp: Let_def split_beta)
    then show ?thesis
      using Q [of body] Inr loggedD(1) [OF log, of ?q "world st"] by (intro exI [of _ "[?q]"]) simp
  qed
qed

lemma sends_client_request:
  assumes "logged E log" and "\<And>q. carries E cr q \<Longrightarrow> Q q"
  shows "sends log 1 Q (send_client_request E realm cr)"
  unfolding send_client_request_def send_def
  by (intro sends_map_err sends_rpc [OF assms(1)] assms(2)) (simp add: carries_def)

lemma sends_finish_handshake: "logged E log \<Longrightarrow> sends log 0 Q (finish_handshake E hs i resp)"
  unfolding finish_handshake_def
  by (auto intro!: sends_bind [where a=0 and b=0] sends_intros loggedD split: client_response.split
      noise_response.split)

lemma sends_finish_transport: "logged E log \<Longrightarrow> sends log 0 Q (finish_transport E session resp)"
  unfolding finish_transport_def
  by (auto intro!: sends_bind [where a=0 and b=0] sends_intros loggedD split: client_response.split
      noise_response.split)

lemma io_bind_panics [simp]: "io_bind (io_panics (Some x)) f = f x"
  by (rule ext) (simp add: io_defs)

text \<open>Binding a pure result, whose value the continuation may use.\<close>

lemma sends_bind_panics:
  "(\<And>x. p = Some x \<Longrightarrow> sends log n Q (f x)) \<Longrightarrow> sends log n Q (io_bind (io_panics p) f)"
  by (cases p) (auto simp: sends_def io_defs)

lemma sends_bind_result:
  "(\<And>x. r = Ok x \<Longrightarrow> sends log n Q (f x)) \<Longrightarrow> sends log n Q (io_bind (io_result r) f)"
  by (cases r) (auto simp: sends_def io_defs)

lemma sends_handshake:
  assumes log: "logged E log"
    and Q: "\<And>cr q. handshake_for E public_key request cr \<Longrightarrow> carries E cr q \<Longrightarrow> Q q"
  shows "sends log 1 Q (make_handshake_request E realm public_key request)"
proof -
  let ?tail = "\<lambda>hs hr. io_bind (io_world (env_next_u32 E)) (\<lambda>n.
       io_bind (get_token E (realm_id realm)) (\<lambda>auth_token.
       io_bind (send_client_request E realm
         \<lparr>request_realm = realm_id realm, request_auth_token = auth_token,
          request_session_id = SessionId n,
          request_kind = (if request = [] then HandshakeOnly else SecretsRequestKind),
          request_encrypted = HandshakeRequest hr\<rparr>)
         (finish_handshake E hs (SessionId n))))"
  have "sends log 1 Q (?tail hs hr)"
    if "client_start_with_secret (env_prims E) e (Barray public_key) [] request = Some (Ok (hs, hr))"
    for e hs hr
    using that
    by (intro sends_bind [where a=0 and b=1] sends_bind [where a=1 and b=0] sends_world
        sends_get_token [OF log] sends_finish_handshake [OF log] sends_client_request [OF log] Q)
      (auto simp: loggedD [OF log] handshake_for_def)
  then show ?thesis
    unfolding make_handshake_request_def
    by (intro sends_bind_panics sends_bind [where a=0 and b=1] sends_bind_result sends_world)
      (auto simp: loggedD [OF log])
qed

lemma sends_transport:
  assumes log: "logged E log" and Q: "\<And>cr q. transport_for cr \<Longrightarrow> carries E cr q \<Longrightarrow> Q q"
  shows "sends log 1 Q (make_transport_request E realm session request)"
  unfolding make_transport_request_def split_beta
  by (intro sends_bind [where a=0 and b=1] sends_bind_panics sends_bind_result sends_map_err
      sends_get_token [OF log] sends_bind [where a=1 and b=0] sends_client_request [OF log]
      sends_finish_transport [OF log] Q)
    (auto simp: transport_for_def)

lemma sends_try:
  assumes log: "logged E log"
    and T: "\<And>cr q. transport_for cr \<Longrightarrow> carries E cr q \<Longrightarrow> Q q"
    and S: "\<And>cr q. handshake_for E public_key (if nfs then [] else request) cr \<Longrightarrow> carries E cr q \<Longrightarrow> Q q"
  shows "sends log 2 Q (try_make_request E realm public_key session request nfs)"
proof -
  have tr: "sends log 1 Q (make_transport_request E realm s request)" for s
    by (rule sends_transport [OF log]) (rule T)
  have hs: "sends log 1 Q (make_handshake_request E realm public_key (if nfs then [] else request))"
    by (rule sends_handshake [OF log]) (rule S)
  consider (some) s where "session = Some s" | (fs) "session = None" nfs
    | (no_fs) "session = None" "\<not> nfs"
    by (cases session) auto
  then show ?thesis
  proof cases
    case some
    then show ?thesis
      using sends_mono [OF tr, of 2] by (simp add: try_make_request_def)
  next
    case fs
    have cont: "sends log 1 Q (case x of (session, handshake_response) \<Rightarrow>
        if handshake_response \<noteq> [] then io_err (RequestError Assertion)
        else io_map_err (\<lambda>e. RequestError (missing_session_is_assertion e))
          (make_transport_request E realm session request))" for x
      using sends_map_err [OF tr] by (auto simp: sends_pure split: prod.split simp del: One_nat_def)
    have "sends log 2 Q (io_bind (io_map_err RequestError (make_handshake_request E realm public_key []))
        (\<lambda>x. case x of (session, handshake_response) \<Rightarrow>
          if handshake_response \<noteq> [] then io_err (RequestError Assertion)
          else io_map_err (\<lambda>e. RequestError (missing_session_is_assertion e))
            (make_transport_request E realm session request)))"
      using sends_bind [OF sends_map_err [OF hs] cont, of 2] fs by simp
    then show ?thesis
      using fs by (simp add: try_make_request_def)
  next
    case no_fs
    have "sends log 2 Q (io_map_err RequestError (make_handshake_request E realm public_key request))"
      using sends_map_err [OF sends_mono [OF hs, of 2]] no_fs by simp
    then show ?thesis
      using no_fs by (simp add: try_make_request_def io_bind_panics)
  qed
qed

lemma sends_take: "logged E log \<Longrightarrow> sends log n Q (take_session E i)"
  by (rule sends_keep)
    (auto simp: take_session_def Let_def split_beta loggedD split: option.splits)

lemma sends_put: "sends log n Q (put_session i s)"
  by (rule sends_keep) (auto simp: put_session_def)

lemma sends_hardware_attempts:
  assumes log: "logged E log"
    and T: "\<And>cr q. transport_for cr \<Longrightarrow> carries E cr q \<Longrightarrow> Q q"
    and S: "\<And>cr q. handshake_for E public_key (if nfs then [] else request) cr \<Longrightarrow> carries E cr q \<Longrightarrow> Q q"
  shows "sends log (2 * length attempts) Q (hardware_attempts E realm public_key request nfs attempts)"
proof (induction attempts)
  case Nil
  show ?case
    by (simp add: sends_pure)
next
  case (Cons attempt rest)
  have cont: "sends log (2 * length rest) Q (case r of
         Ok (session, response) \<Rightarrow>
           io_bind (put_session (realm_id realm) session) (\<lambda>_.
           io_bind (io_panics (decode_response E response)) io_result)
       | Err (RequestError e) \<Rightarrow>
           if e = Transient
           then io_bind (io_sleep E (5 * attempt)) (\<lambda>_.
                hardware_attempts E realm public_key request nfs rest)
           else io_err e
       | Err MissingSessionError \<Rightarrow> hardware_attempts E realm public_key request nfs rest)" for r
    by (cases r)
      (auto intro!: sends_bind [where a=0 and b="2 * length rest"] sends_put sends_bind_panics sends_pure
        sends_sleep [OF log] Cons.IH split: request_error_or_missing_session.split)
  have "sends log (0 + (2 + 2 * length rest)) Q
      (hardware_attempts E realm public_key request nfs (attempt # rest))"
    unfolding hardware_attempts.simps
    by (intro sends_bind [OF sends_take [OF log] sends_match [OF sends_try [OF log] cont]] T S) auto
  then show ?case
    by simp
qed

lemma sends_hardware:
  assumes log: "logged E log"
    and T: "\<And>cr q. transport_for cr \<Longrightarrow> carries E cr q \<Longrightarrow> Q q"
    and S: "\<And>payload cr q. needs_forward_secrecy request \<longrightarrow> payload = [] \<Longrightarrow>
      handshake_for E public_key payload cr \<Longrightarrow> carries E cr q \<Longrightarrow> Q q"
  shows "sends log 10 Q (make_hardware_realm_request E realm public_key request)"
proof -
  have lock: "sends log 0 Q (lock_sessions i)" for i
    by (rule sends_keep) (auto simp: lock_sessions_def split: if_splits)
  have "sends log (2 * length [1, 2, 3, 4, 5 :: nat]) Q
      (hardware_attempts E realm public_key payload (needs_forward_secrecy request) [1, 2, 3, 4, 5])"
    for payload
    by (rule sends_hardware_attempts [OF log]) (use T S in \<open>auto split: if_splits\<close>)
  then show ?thesis
    unfolding make_hardware_realm_request_def Let_def
    by (intro sends_bind_result sends_bind [OF lock, where b=10]) simp_all
qed

lemma sends_software:
  assumes "logged E log"
  shows "sends log n posts (software_attempts E realm request headers n)"
proof (induction n)
  case 0
  show ?case
    by (simp add: sends_pure)
next
  case (Suc n)
  have one: "sends log 1 posts (send_secrets_request E realm request headers)"
    unfolding send_secrets_request_def by (intro sends_map_err sends_rpc [OF assms]) simp
  have cont: "sends log n posts (case r of
         Ok response \<Rightarrow> io_return response
       | Err e \<Rightarrow>
           if e = Transient
           then io_bind (io_sleep E 5) (\<lambda>_. software_attempts E realm request headers n)
           else io_err e)" for r
    by (cases r)
      (auto intro!: sends_pure sends_bind [where a=0 and b=n] sends_sleep [OF assms] Suc.IH)
  show ?case
    unfolding software_attempts.simps by (rule sends_match [OF one cont]) simp
qed

lemma sends_make_request:
  assumes "logged E log"
  shows "sends log 10 posts (make_request E realm request)"
proof (cases "realm_public_key realm")
  case None
  have "sends log 2 posts (make_software_realm_request E realm request)"
    unfolding make_software_realm_request_def
    by (rule sends_bind [OF sends_get_token [OF assms] sends_software [OF assms], of 0]) simp
  then have "sends log 10 posts (make_software_realm_request E realm request)"
    by (rule sends_mono) simp
  then show ?thesis
    using None by (simp add: make_request_def)
next
  case (Some k)
  have "sends log 10 posts (make_hardware_realm_request E realm k request)"
    by (rule sends_hardware [OF assms]) (auto simp: carries_def)
  then show ?thesis
    using Some by (simp add: make_request_def)
qed

section \<open>What the requests do to the sessions\<close>

definition same_sessions :: "'w client_state \<Rightarrow> 'w client_state \<Rightarrow> bool" where
  "same_sessions st st' \<longleftrightarrow> sessions st' = sessions st"

lemma same_sessions_preorder: "reflp same_sessions" "transp same_sessions"
  by (auto simp: same_sessions_def intro!: reflpI transpI)

lemma rel_same_sessions:
  "io_rel same_sessions (io_world g)" "io_rel same_sessions (io_world_panics h)"
  "io_rel same_sessions (io_sleep E d)" "io_rel same_sessions (get_token E i)"
  by (auto intro!: io_relI simp: same_sessions_def io_world_def io_world_panics_def io_sleep_def
      get_token_def Let_def split_beta split: option.splits)

lemmas same_sessions_intros = io_rel_bind [OF same_sessions_preorder(2)]
  io_rel_match [OF same_sessions_preorder(2)] io_rel_map_err rel_same_sessions
  io_rel_pure [OF same_sessions_preorder(1)]

lemma same_sessions_send: "io_rel same_sessions (send_client_request E realm cr)"
  "io_rel same_sessions (send_secrets_request E realm request headers)"
  unfolding send_client_request_def send_secrets_request_def by (intro same_sessions_intros)+

lemma same_sessions_finish:
  "io_rel same_sessions (finish_handshake E hs i resp)"
  "io_rel same_sessions (finish_transport E session resp)"
  unfolding finish_handshake_def finish_transport_def
  by (auto intro!: same_sessions_intros split: client_response.split noise_response.split)

lemma same_sessions_try:
  "io_rel same_sessions (make_handshake_request E realm public_key payload)"
  "io_rel same_sessions (make_transport_request E realm s payload)"
  "io_rel same_sessions (try_make_request E realm public_key session payload nfs)"
proof -
  show h: "io_rel same_sessions (make_handshake_request E realm public_key payload)" for payload
    unfolding make_handshake_request_def
    by (auto intro!: same_sessions_intros same_sessions_send same_sessions_finish)
  show t: "io_rel same_sessions (make_transport_request E realm s payload)" for s
    unfolding make_transport_request_def
    by (auto intro!: same_sessions_intros same_sessions_send same_sessions_finish)
  show "io_rel same_sessions (try_make_request E realm public_key session payload nfs)"
    unfolding try_make_request_def
    by (auto intro!: same_sessions_intros h t split: option.split)
qed

lemma same_sessions_software: "io_rel same_sessions (software_attempts E realm request headers n)"
proof (induction n)
  case (Suc n)
  then show ?case
    by (auto intro!: same_sessions_intros same_sessions_send split: sum.split)
qed (simp add: same_sessions_intros)

lemma same_sessions_only_slot: "io_rel same_sessions m \<Longrightarrow> io_rel (only_slot i) m"
  by (auto simp: io_rel_def same_sessions_def only_slot_def)

lemma only_slot_sessions:
  "io_rel (only_slot i) (take_session E i)" "io_rel (only_slot i) (put_session i s)"
  "io_rel (only_slot i) (lock_sessions i)"
  by (auto intro!: io_relI simp: only_slot_def take_session_def put_session_def lock_sessions_def
      Let_def split_beta split: option.splits if_splits)

lemmas only_slot_intros = io_rel_bind [OF only_slot_transp] io_rel_match [OF only_slot_transp]
  io_rel_map_err io_rel_pure [OF only_slot_reflp] only_slot_sessions

lemma only_slot_hardware_attempts:
  "io_rel (only_slot (realm_id realm)) (hardware_attempts E realm public_key request nfs attempts)"
proof (induction attempts)
  case (Cons attempt rest)
  then show ?case
    by (auto intro!: only_slot_intros same_sessions_only_slot [OF same_sessions_try(3)]
        same_sessions_only_slot [OF rel_same_sessions(3)]
        split: sum.split request_error_or_missing_session.split)
qed (simp add: only_slot_intros)

lemma only_slot_make_request: "io_rel (only_slot (realm_id realm)) (make_request E realm request)"
proof (cases "realm_public_key realm")
  case None
  have "io_rel same_sessions (make_software_realm_request E realm request)"
    unfolding make_software_realm_request_def
    by (auto intro!: same_sessions_intros same_sessions_software)
  then show ?thesis
    using None same_sessions_only_slot by (auto simp: make_request_def)
next
  case (Some k)
  then show ?thesis
    by (auto simp: make_request_def make_hardware_realm_request_def Let_def
        simp del: hardware_attempts.simps intro!: only_slot_intros only_slot_hardware_attempts)
qed

text \<open>A failed series of attempts leaves no session behind: it was taken and dropped.\<close>

lemma take_session_spec:
  assumes "take_session E i st = Some (r, st')"
  shows "sessions st' i = Some None"
    and "r = Ok (Some s) \<Longrightarrow> the (sessions st i) = Some s \<and>
      fst (env_now E (world st)) - session_last_used s < session_lifetime s"
  using assms
  by (auto simp: take_session_def Let_def split_beta split: option.splits if_splits)

lemma take_session_total: "\<exists>session st1. take_session E i st = Some (Ok session, st1)"
  by (cases "the (sessions st i)") (auto simp: take_session_def Let_def split_beta)

lemma decode_response_Err: "decode_response E response = Some (Err e) \<Longrightarrow> e = Assertion"
  by (auto simp: decode_response_def map_err_Err split: sum.splits)

lemma hardware_attempts_Transient:
  "hardware_attempts E realm public_key request nfs attempts st = Some (Err Transient, st') \<Longrightarrow>
     attempts = [] \<and> st' = st \<or> sessions st' (realm_id realm) = Some None"
proof (induction attempts arbitrary: st)
  case Nil
  then show ?case
    by (simp add: io_err_def)
next
  case (Cons attempt rest)
  let ?i = "realm_id realm"
  obtain session st1 where
    t: "take_session E ?i st = Some (Ok session :: request_error + session option, st1)"
    using take_session_total by blast
  obtain r st2 where r: "try_make_request E realm public_key session request nfs st1 = Some (r, st2)"
    using Cons.prems t by (auto simp: io_bind_Some io_match_Some)
  have st2: "sessions st2 ?i = Some None"
    using io_relD [OF same_sessions_try(3) r] take_session_spec(1) [OF t]
    by (simp add: same_sessions_def)
  consider (ok) s bs where "r = Ok (s, bs)" | (err) e where "r = Err (RequestError e)"
    | (missing) "r = Err MissingSessionError"
    by (metis request_error_or_missing_session.exhaust sum.exhaust surj_pair)
  then show ?case
  proof cases
    case ok
    then obtain e where "decode_response E bs = Some (Err e)" "e = Transient"
      using Cons.prems t r by (auto simp: io_bind_Some io_match_Some io_result_def io_panics_def
          put_session_def split: option.splits)
    then show ?thesis
      using decode_response_Err [of E bs e] by simp
  next
    case err
    then have "e = Transient" and
      "hardware_attempts E realm public_key request nfs rest
         (st2\<lparr>world := env_sleep E (5 * attempt) (world st2)\<rparr>) = Some (Err Transient, st')"
      using Cons.prems t r by (auto simp: io_bind_Some io_match_Some io_err_def io_sleep_def
          split: if_splits)
    from Cons.IH [OF this(2)] st2 show ?thesis
      by auto
  next
    case missing
    then have "hardware_attempts E realm public_key request nfs rest st2 = Some (Err Transient, st')"
      using Cons.prems t r by (auto simp: io_bind_Some io_match_Some)
    from Cons.IH [OF this] st2 show ?thesis
      by auto
  qed
qed

section \<open>Requests do not panic\<close>

text \<open>
  Enough for \<open>n\<close> more requests to the realms \<open>ids\<close>: each has its slot, and no session is near the
  end of its nonces. A request uses at most one nonce of the session it finds, in each direction.
\<close>

definition session_budget :: "realm_id set \<Rightarrow> nat \<Rightarrow> 'w client_state \<Rightarrow> bool" where
  "session_budget ids n st \<longleftrightarrow> n < 2 ^ 63 \<and>
     (\<forall>i \<in> ids. sessions st i \<noteq> None \<and>
        (\<forall>s. sessions st i = Some (Some s) \<longrightarrow> messages_left n (session_transport s)))"

text \<open>
  What the answers of a realm must not do: claim more padded bytes than there are. The decoder accepts
  such a claim, and the client then panics (\<open>overlong_answer_panics\<close>). This speaks only of what an
  attempt of the client is given by its transport, after decryption.
\<close>

definition overlong :: "('w, 'u, 's, 'p, 'ed) env \<Rightarrow> bytes \<Rightarrow> bool" where
  "overlong E response =
     (case from_slice (cbor_padded_response E) response of
        Err e \<Rightarrow> False
      | Ok padded_response \<Rightarrow> 436 < unat (unpadded_length padded_response))"

definition short_answers :: "('w, 'u, 's, 'p, 'ed) env \<Rightarrow> 'u realm \<Rightarrow> bool" where
  "short_answers E realm \<longleftrightarrow>
     (\<forall>public_key session payload nfs st s response st'. realm_public_key realm = Some public_key \<longrightarrow>
        try_make_request E realm public_key session payload nfs st = Some (Ok (s, response), st') \<longrightarrow>
        \<not> overlong E response)"

lemma short_answersD:
  "short_answers E realm \<Longrightarrow> realm_public_key realm = Some public_key \<Longrightarrow>
     try_make_request E realm public_key session payload nfs st = Some (Ok (s, response), st') \<Longrightarrow> \<not> overlong E response"
  unfolding short_answers_def by blast

definition joinable :: "('w, 'u, 's, 'p, 'ed) env \<Rightarrow> 'u realm \<Rightarrow> bool" where
  "joinable E realm \<longleftrightarrow> url_join (env_net E) (realm_address realm) RPC_PATH \<noteq> None"

interpretation requests: budget "session_budget ids" for ids
  by unfold_locales (auto simp: session_budget_def intro: messages_left_less)

interpretation unchanged: budget "\<lambda>_ st. sessions st = S" for S
  by unfold_locales auto

lemma messages_left_fresh: "n < 2 ^ 63 \<Longrightarrow> nonce (inbound t) = 0 \<Longrightarrow> nonce (outbound t) = 0 \<Longrightarrow> messages_left (Suc n) t"
  by (simp add: messages_left_def)

lemma send_with_options_total:
  "url_join L base RPC_PATH \<noteq> None \<Longrightarrow> send_with_options L KQ KA http base request opts w \<noteq> None"
  by (auto simp: send_with_options_def)

lemma unchanged_send:
  assumes "joinable E realm"
  shows "post (\<lambda>_ st. sessions st = S) 0 (send_client_request E realm cr) (\<lambda>_. True)"
    and "post (\<lambda>_ st. sessions st = S) 0 (send_secrets_request E realm request headers) (\<lambda>_. True)"
  using assms unfolding send_client_request_def send_secrets_request_def send_def joinable_def
  by (auto intro!: unchanged.post_map_err unchanged.post_world_panics send_with_options_total)

lemma unchanged_get_token: "post (\<lambda>_ st. sessions st = S) 0 (get_token E i) (\<lambda>_. True)"
  by (auto simp: post_def get_token_def Let_def split_beta)

lemma handshake_post:
  assumes url: "joinable E realm" and len: "length public_key = 32" and laws: "prim_laws (env_prims E)"
  shows "post (\<lambda>_ st. sessions st = S) 0 (make_handshake_request E realm public_key payload)
    (\<lambda>(s, _). nonce (inbound (session_transport s)) = 0 \<and> nonce (outbound (session_transport s)) = 0)"
proof -
  let ?fresh = "\<lambda>(s, _). nonce (inbound (session_transport s)) = 0 \<and> nonce (outbound (session_transport s)) = 0"
  have finish: "post (\<lambda>_ st. sessions st = S) 0 (finish_handshake E hs i resp) ?fresh" for hs i resp
  proof -
    obtain fr where fr: "\<And>r. client_finish (env_prims E) hs r = Some (fr r)"
      "\<And>r t m. fr r = Ok (t, m) \<Longrightarrow> nonce (inbound t) = 0 \<and> nonce (outbound t) = 0"
      using client_finish_total [OF laws, of hs] by metis
    show ?thesis
      unfolding finish_handshake_def
      by (auto split: client_response.split noise_response.split sum.splits simp: fr map_err_def dest: fr(2)
          intro!: unchanged.post_intros unchanged.post_result_then unchanged.post_world_then)
  qed
  have start: "\<exists>r. client_start_with_secret (env_prims E) e (Barray public_key) [] payload = Some r" for e
    by (rule client_start_total [OF laws])
  have started: "post (\<lambda>_ st. sessions st = S) 0 (io_bind (io_panics
      (client_start_with_secret (env_prims E) e (Barray public_key) [] payload)) f) ?fresh"
    if "\<And>r. post (\<lambda>_ st. sessions st = S) 0 (f r) ?fresh" for e f
    using start [of e] that by auto
  show ?thesis
    unfolding make_handshake_request_def len simp_thms assert_that_def if_True io_bind_panics
    by (intro unchanged.post_world_then started unchanged.post_result_then)
      (auto split: prod.split intro!: unchanged.post_world_then finish
        unchanged.post_then [OF unchanged_get_token] unchanged.post_then [OF unchanged_send(1) [OF url]])
qed

lemma transport_post:
  assumes url: "joinable E realm" and left: "messages_left (Suc n) (session_transport s)"
  shows "post (\<lambda>_ st. sessions st = S) 0 (make_transport_request E realm s payload)
    (\<lambda>(s, _). messages_left n (session_transport s))"
proof -
  obtain r t where enc: "transport_encrypt (env_prims E) (session_transport s) payload = Some (r, t)"
    and t: "inbound t = inbound (session_transport s)"
      "unat (nonce (outbound t)) = Suc (unat (nonce (outbound (session_transport s))))"
    using transport_encrypt_nonce [of "session_transport s" "env_prims E" payload] left by (auto simp: messages_left_def)
  have finish: "post (\<lambda>_ st. sessions st = S) 0 (finish_transport E (s\<lparr>session_transport := t\<rparr>) resp)
      (\<lambda>(s, _). messages_left n (session_transport s))" for resp
  proof -
    have "\<forall>c. \<exists>x. transport_decrypt (env_prims E) t c = Some x \<and> messages_left n (snd x)"
    proof
      fix c
      obtain r t' where "transport_decrypt (env_prims E) t c = Some (r, t')" "outbound t' = outbound t"
          "unat (nonce (inbound t')) = Suc (unat (nonce (inbound t)))"
        using transport_decrypt_nonce [of t "env_prims E" c] left t(1) by (auto simp: messages_left_def)
      with left t show "\<exists>x. transport_decrypt (env_prims E) t c = Some x \<and> messages_left n (snd x)"
        by (auto simp: messages_left_def)
    qed
    then obtain dr where "\<And>c. transport_decrypt (env_prims E) t c = Some (dr c)" "\<And>c. messages_left n (snd (dr c))"
      by metis
    then show ?thesis
      unfolding finish_transport_def
      by (auto split: client_response.split noise_response.split simp: split_beta intro!: unchanged.post_intros
          unchanged.post_world_then unchanged.post_result_then)
  qed
  show ?thesis
    unfolding make_transport_request_def enc io_bind_panics prod.case
    by (intro unchanged.post_then [OF unchanged.post_map_err [OF unchanged_get_token]] unchanged.post_result_then
        unchanged.post_then [OF unchanged.post_map_err [OF unchanged_send(1) [OF url]]] finish)
qed

lemma try_post:
  assumes url: "joinable E realm" and len: "length public_key = 32" and laws: "prim_laws (env_prims E)"
    and n: "n < 2 ^ 63" and left: "\<And>s. session = Some s \<Longrightarrow> messages_left (Suc n) (session_transport s)"
  shows "post (\<lambda>_ st. sessions st = S) 0 (try_make_request E realm public_key session payload nfs)
    (\<lambda>(s, _). messages_left n (session_transport s))"
proof (cases session)
  case None
  note fresh = messages_left_fresh [OF n]
  note shake = unchanged.post_map_err [OF handshake_post [OF url len laws]]
  show ?thesis
  proof (cases nfs)
    case True
    then show ?thesis
      unfolding try_make_request_def None
      by (auto intro!: unchanged.post_then [OF shake] unchanged.post_intros unchanged.post_map_err
          transport_post [OF url] fresh)
  next
    case False
    then show ?thesis
      unfolding try_make_request_def None
      using unchanged.post_mono [OF unchanged.post_map_err [OF handshake_post [OF url len laws, of S payload]], of "\<lambda>(s, _). messages_left n (session_transport s)"]
        messages_left_less [OF fresh] by (auto simp: split_beta)
  qed
next
  case (Some s)
  then show ?thesis
    using transport_post [OF url left] by (simp add: try_make_request_def)
qed

text \<open>Taking a session leaves an empty slot and keeps the budget.\<close>

lemma take_session_budget:
  assumes "session_budget ids n st" and "i \<in> ids"
  obtains session st1 where "take_session E i st = Some (Ok session :: 'e + session option, st1)"
    and "session_budget ids n st1"
    and "sessions st1 i = Some None" and "\<And>s. session = Some s \<Longrightarrow> messages_left n (session_transport s)"
proof -
  obtain session st1 where t: "take_session E i st = Some (Ok session :: 'e + session option, st1)"
    using take_session_total by blast
  have "sessions st i \<noteq> None"
    using assms by (auto simp: session_budget_def)
  then have "messages_left n (session_transport s)" if "session = Some s" for s
    using take_session_spec(2) [OF t, of s] that assms by (auto simp: session_budget_def)
  moreover have "session_budget ids n st1"
    using io_relD [OF only_slot_sessions(1) t] take_session_spec(1) [OF t] assms
    by (auto simp: session_budget_def only_slot_def) (metis option.distinct(1) option.inject)+
  ultimately show thesis
    using that [OF t] take_session_spec(1) [OF t] by blast
qed

lemma decode_response_None: "decode_response E response = None \<longleftrightarrow> overlong E response"
proof (cases "from_slice (cbor_padded_response E) response")
  case (Inr p)
  show ?thesis
    unfolding decode_response_def overlong_def Inr by (simp add: unpad_response_None)
qed (simp add: decode_response_def overlong_def)

text \<open>So an attempt that is given an overlong answer makes the client panic.\<close>

lemma overlong_answer_panics:
  assumes "take_session E (realm_id realm) st = Some (Ok session :: request_error + session option, st1)"
    and "try_make_request E realm public_key session payload nfs st1 = Some (Ok (s, response), st2)"
    and "overlong E response"
  shows "hardware_attempts E realm public_key payload nfs (attempt # rest) st = None"
proof -
  have "decode_response E response = None"
    using assms(3) by (simp add: decode_response_None)
  with assms(1,2) show ?thesis
    by (simp add: io_bind_def io_match_def put_session_def io_panics_def)
qed

text \<open>One attempt uses up a message at most: the session it took is gone, and the one it returns has enough left.\<close>

lemma attempt_budget:
  fixes E :: "('w, 'u, 's, 'p, 'ed) env"
  assumes url: "joinable E realm" and len: "length public_key = 32" and laws: "prim_laws (env_prims E)"
    and mem: "realm_id realm \<in> ids" and budget: "session_budget ids (Suc n) st"
  obtains session st1 r st2 where
      "take_session E (realm_id realm) st = Some (Ok session :: request_error + session option, st1)"
    and "try_make_request E realm public_key session payload nfs st1 = Some (r, st2)"
    and "session_budget ids (Suc n) st2"
    and "\<And>s b. r = Ok (s, b) \<Longrightarrow> messages_left n (session_transport s)"
proof -
  obtain session st1 where t: "take_session E (realm_id realm) st = Some (Ok session :: request_error + session option, st1)"
    and b1: "session_budget ids (Suc n) st1" "sessions st1 (realm_id realm) = Some None"
    and left: "\<And>s. session = Some s \<Longrightarrow> messages_left (Suc n) (session_transport s)"
    using take_session_budget [OF budget mem] by auto
  have n: "n < 2 ^ 63"
    using b1(1) by (simp add: session_budget_def)
  have "post (\<lambda>_ st. sessions st = sessions st1) 0 (try_make_request E realm public_key session payload nfs)
      (\<lambda>(s, _). messages_left n (session_transport s))"
    by (rule try_post [OF url len laws n left])
  then obtain r st2 where r: "try_make_request E realm public_key session payload nfs st1 = Some (r, st2)"
    and s2: "sessions st2 = sessions st1"
    and ok: "\<And>s b. r = Ok (s, b) \<Longrightarrow> messages_left n (session_transport s)"
    by (rule postE [where st=st1]) auto
  have "session_budget ids (Suc n) st2"
    using b1(1) s2 by (simp add: session_budget_def)
  then show thesis
    by (rule that [OF t r _ ok])
qed

lemma hardware_attempts_post:
  fixes E :: "('w, 'u, 's, 'p, 'ed) env"
  assumes url: "joinable E realm" and len: "length public_key = 32" and laws: "prim_laws (env_prims E)"
    and short: "short_answers E realm" and key: "realm_public_key realm = Some public_key"
    and mem: "realm_id realm \<in> ids"
  shows "post (session_budget ids) 1 (hardware_attempts E realm public_key payload nfs attempts) (\<lambda>_. True)"
proof (induction attempts)
  case Nil
  show ?case
    by (simp add: requests.post_intros)
next
  case (Cons attempt rest)
  show ?case
  proof (rule postI)
    fix n and st :: "'w client_state"
    assume "session_budget ids (n + 1) st"
    then obtain session st1 r st2 where
        t: "take_session E (realm_id realm) st = Some (Ok session :: request_error + session option, st1)"
      and r: "try_make_request E realm public_key session payload nfs st1 = Some (r, st2)"
      and b2: "session_budget ids (Suc n) st2"
      and left: "\<And>s b. r = Ok (s, b) \<Longrightarrow> messages_left n (session_transport s)"
      using attempt_budget [OF url len laws mem, of n st payload nfs thesis] by auto
    have again: "\<exists>r st'. hardware_attempts E realm public_key payload nfs rest (st2\<lparr>world := w\<rparr>) = Some (r, st') \<and>
        session_budget ids n st'" for w
      using postD [OF Cons.IH, where n=n and st="st2\<lparr>world := w\<rparr>"] requests.world_change [OF b2] by auto
    consider (ok) s b where "r = Ok (s, b)" | (err) e where "r = Err (RequestError e)" | (missing) "r = Err MissingSessionError"
      by (metis request_error_or_missing_session.exhaust sum.exhaust surj_pair)
    then show "\<exists>r st'. hardware_attempts E realm public_key payload nfs (attempt # rest) st = Some (r, st') \<and>
        session_budget ids n st' \<and> (\<forall>x. r = Ok x \<longrightarrow> True)"
    proof cases
      case (ok s b)
      obtain q where "decode_response E b = Some q"
        using short_answersD [OF short key r [unfolded ok]] decode_response_None [of E b] by auto
      moreover have "session_budget ids n (st2\<lparr>sessions := (sessions st2)(realm_id realm \<mapsto> Some s)\<rparr>)"
        using requests.less [OF b2, of n] left ok by (auto simp: session_budget_def)
      ultimately show ?thesis
        using t r ok by (simp add: io_bind_def io_match_def put_session_def io_result_def)
    next
      case (err e)
      then show ?thesis
        using t r again [of "env_sleep E (5 * attempt) (world st2)"] requests.less [OF b2, of n]
        by (simp add: io_bind_def io_match_def io_sleep_def io_err_def)
    next
      case missing
      then show ?thesis
        using t r again [of "world st2"] by (simp add: io_bind_def io_match_def)
    qed
  qed
qed

lemma software_attempts_post:
  assumes "joinable E realm"
  shows "post (\<lambda>_ st. sessions st = S) 0 (software_attempts E realm request headers n) (\<lambda>_. True)"
proof (induction n)
  case (Suc n)
  then show ?case
    by (auto intro!: unchanged.post_match_last unchanged_send(2) [OF assms] unchanged.post_intros
        unchanged.post_then [OF unchanged.post_sleep] split: sum.split)
qed (simp add: unchanged.post_intros)

lemma make_request_post:
  assumes url: "joinable E realm" and len: "\<And>k. realm_public_key realm = Some k \<Longrightarrow> length k = 32"
    and laws: "prim_laws (env_prims E)" and short: "short_answers E realm" and mem: "realm_id realm \<in> ids"
  shows "post (session_budget ids) 1 (make_request E realm request) (\<lambda>_. True)"
proof (cases "realm_public_key realm")
  case None
  have soft: "post (\<lambda>_ st. sessions st = S) 0 (make_software_realm_request E realm request) (\<lambda>_. True)" for S
    unfolding make_software_realm_request_def
    by (intro unchanged.post_then [OF unchanged_get_token] software_attempts_post [OF url])
  show ?thesis
  proof (rule postI)
    fix n st assume "session_budget ids (n + 1) (st :: 'a client_state)"
    then show "\<exists>r st'. make_request E realm request st = Some (r, st') \<and> session_budget ids n st' \<and> (\<forall>x. r = Ok x \<longrightarrow> True)"
      using postD [OF soft [of "sessions st"], where st=st] requests.less [of ids "n + 1" st n] None
      by (auto simp: make_request_def session_budget_def)
  qed
next
  case (Some k)
  have lock: "post (session_budget ids) 0 (lock_sessions (realm_id realm)) (\<lambda>_. True)"
    using mem by (auto simp: post_def lock_sessions_def session_budget_def)
  show ?thesis
    unfolding make_request_def Some option.case make_hardware_realm_request_def Let_def
    by (intro requests.post_result_then requests.post_then [OF lock]
        hardware_attempts_post [OF url len [OF Some] laws short Some mem])
qed

section \<open>Properties\<close>

text \<open>C12. A request that needs forward secrecy is never piggy-backed on a handshake: of the at
  most ten HTTP requests sent for it, each carries either a handshake for the empty payload or
  a message of an established session.\<close>

theorem forward_secrecy:
  assumes "logged E log" and "needs_forward_secrecy request"
    and "make_hardware_realm_request E realm public_key request st = Some (r, st')"
  shows "\<exists>qs. log (world st') = log (world st) @ qs \<and> length qs \<le> 10 \<and>
    list_all (\<lambda>q. \<exists>cr. carries E cr q \<and> (handshake_for E public_key [] cr \<or> transport_for cr)) qs"
proof -
  have "sends log 10 (\<lambda>q. \<exists>cr. carries E cr q \<and> (handshake_for E public_key [] cr \<or> transport_for cr))
      (make_hardware_realm_request E realm public_key request)"
    using assms(2) by (intro sends_hardware [OF assms(1)]) auto
  then show ?thesis
    using assms(3) unfolding sends_def by blast
qed

text \<open>C24. Retries are bounded: a request to a software realm makes at most 2 HTTP requests, one to
  a hardware realm at most 10, all of them POSTs.\<close>

theorem request_bounds:
  assumes "logged E log" and "make_request E realm request st = Some (r, st')"
  shows "\<exists>qs. log (world st') = log (world st) @ qs \<and>
    length qs \<le> (if realm_public_key realm = None then 2 else 10) \<and>
    list_all posts qs"
proof (cases "realm_public_key realm")
  case None
  have "sends log 2 posts (make_software_realm_request E realm request)"
    unfolding make_software_realm_request_def
    by (rule sends_bind [OF sends_get_token [OF assms(1)] sends_software [OF assms(1)], of 0]) simp
  then show ?thesis
    using None assms(2) unfolding sends_def by (simp add: make_request_def)
next
  case (Some k)
  have "sends log 10 posts (make_hardware_realm_request E realm k request)"
    by (rule sends_hardware [OF assms(1)]) (auto simp: carries_def)
  then show ?thesis
    using Some assms(2) unfolding sends_def by (simp add: make_request_def)
qed

text \<open>C22. Sessions are isolated: a request changes at most the session of its own realm, never
  removes a realm's slot, and a request to a software realm changes none.\<close>

theorem session_isolation:
  assumes "make_request E realm request st = Some (r, st')"
  shows "(\<forall>j. j \<noteq> realm_id realm \<longrightarrow> sessions st' j = sessions st j) \<and>
    (sessions st (realm_id realm) \<noteq> None \<longrightarrow> sessions st' (realm_id realm) \<noteq> None) \<and>
    (realm_public_key realm = None \<longrightarrow> sessions st' = sessions st)"
proof -
  have "sessions st' = sessions st" if "realm_public_key realm = None"
  proof -
    have "io_rel same_sessions (make_software_realm_request E realm request)"
      unfolding make_software_realm_request_def
      by (auto intro!: same_sessions_intros same_sessions_software)
    from io_relD [OF this, of st r st'] show ?thesis
      using that assms by (simp add: make_request_def same_sessions_def)
  qed
  then show ?thesis
    using io_relD [OF only_slot_make_request assms] by (auto simp: only_slot_def)
qed

text \<open>C23. A stored session is used only while its lifetime has not elapsed, and taking it empties
  the slot; when the attempts are exhausted with a transient error, no session is left.\<close>

theorem session_lifetime_respected:
  "(take_session E i st = Some (Ok (Some s), st1) \<longrightarrow>
      sessions st1 i = Some None \<and> the (sessions st i) = Some s \<and>
      fst (env_now E (world st)) - session_last_used s < session_lifetime s) \<and>
   (hardware_attempts E realm public_key request nfs (a # rest) st = Some (Err Transient, st2) \<longrightarrow>
      sessions st2 (realm_id realm) = Some None)"
proof (intro conjI impI)
  assume "take_session E i st = Some (Ok (Some s), st1)"
  note t = take_session_spec [OF this]
  show "sessions st1 i = Some None" "the (sessions st i) = Some s"
    "fst (env_now E (world st)) - session_last_used s < session_lifetime s"
    using t by auto
next
  assume "hardware_attempts E realm public_key request nfs (a # rest) st = Some (Err Transient, st2)"
  then show "sessions st2 (realm_id realm) = Some None"
    using hardware_attempts_Transient [of E realm public_key request nfs "a # rest" st st2]
    by (simp del: hardware_attempts.simps)
qed

end
