(* ===== verification/Register.thy ===== *)
theory Register
  imports Request
begin

text \<open>
  Registration (rust/sdk/src/register.rs): phase 1 asks every realm, the client then draws the
  root OPRF key and the scalar of the encryption key, splits both, encrypts the secret, and
  phase 2 uploads to every realm its shares, the signed public key of its OPRF share, the tag
  and the commitments.
\<close>

section \<open>Errors\<close>

datatype register_error =
    InvalidAuth
  | UpgradeRequired
  | RateLimitExceeded
  | Assertion
  | Transient

text \<open>The derived \<open>Ord\<close>: the order of the variants.\<close>

fun register_rank :: "register_error \<Rightarrow> nat" where
  "register_rank InvalidAuth = 0"
| "register_rank UpgradeRequired = 1"
| "register_rank RateLimitExceeded = 2"
| "register_rank Assertion = 3"
| "register_rank Transient = 4"

lemma register_rank_inject: "register_rank a = register_rank b \<longleftrightarrow> a = b"
  by (cases a; cases b) simp_all

instantiation register_error :: linorder
begin

definition less_eq_register_error :: "register_error \<Rightarrow> register_error \<Rightarrow> bool" where
  "less_eq_register_error a b \<longleftrightarrow> register_rank a \<le> register_rank b"

definition less_register_error :: "register_error \<Rightarrow> register_error \<Rightarrow> bool" where
  "less_register_error a b \<longleftrightarrow> register_rank a < register_rank b"

instance
  by standard (auto simp: less_eq_register_error_def less_register_error_def register_rank_inject)

end

fun register_error_from :: "request_error \<Rightarrow> register_error" where
  "register_error_from request_error.UpgradeRequired = UpgradeRequired"
| "register_error_from request_error.InvalidAuth = InvalidAuth"
| "register_error_from request_error.Assertion = Assertion"
| "register_error_from request_error.Transient = Transient"
| "register_error_from request_error.RateLimitExceeded = RateLimitExceeded"

section \<open>The two phases on one realm\<close>

definition register1_on_realm ::
  "('w, 'u, 's, 'p, 'ed) env \<Rightarrow> 'u realm \<Rightarrow> ('w client_state, register_error, unit) step" where
  "register1_on_realm E realm =
     io_match (make_request E realm Register1) (\<lambda>r. case r of
         Err e \<Rightarrow> io_err (register_error_from e)
       | Ok (Register1Response Register1Ok) \<Rightarrow> io_return ()
       | Ok _ \<Rightarrow> io_err Assertion)"

definition register2_on_realm ::
  "('w, 'u, 's, 'p, 'ed) env \<Rightarrow> 'u realm \<Rightarrow> 's register2_request \<Rightarrow>
     ('w client_state, register_error, unit) step" where
  "register2_on_realm E realm request =
     io_match (make_request E realm (Register2 request)) (\<lambda>r. case r of
         Err e \<Rightarrow> io_err (register_error_from e)
       | Ok (Register2Response Register2Ok) \<Rightarrow> io_return ()
       | Ok _ \<Rightarrow> io_err Assertion)"

section \<open>Between the phases\<close>

definition zip4 :: "'a list \<Rightarrow> 'b list \<Rightarrow> 'c list \<Rightarrow> 'd list \<Rightarrow> ('a \<times> 'b \<times> 'c \<times> 'd) list" where
  "zip4 a b c d = map (\<lambda>(((a, b), c), d). (a, b, c, d)) (zip (zip (zip a b) c) d)"

definition register2_request_for ::
  "('w, 'u, 's, 'p, 'ed) env \<Rightarrow> registration_version \<Rightarrow> unlock_key \<Rightarrow> unlock_key_commitment \<Rightarrow>
     encrypted_user_secret \<Rightarrow> policy \<Rightarrow>
     'u realm \<times> 's private_key \<times> oprf_signed_public_key \<times> 's scalar_share \<Rightarrow>
     ('u realm \<times> 's register2_request) panics" where
  "register2_request_for E version unlock_key unlock_key_commitment encrypted_secret policy =
     (\<lambda>(realm, oprf_private_key_share, oprf_signed_public_key, encryption_key_scalar_share). do {
        tag \<leftarrow> unlock_key_tag_derive (env_prims E) unlock_key (realm_id realm);
        commitment \<leftarrow> secret_commitment_derive (env_curve E) (env_prims E) unlock_key (realm_id realm)
          encryption_key_scalar_share encrypted_secret;
        Some (realm,
          \<lparr>r2_version = version, r2_oprf_private_key = oprf_private_key_share,
           r2_oprf_signed_public_key = oprf_signed_public_key,
           r2_unlock_key_commitment = unlock_key_commitment, r2_unlock_key_tag = tag,
           r2_encryption_key_scalar_share = encryption_key_scalar_share,
           r2_encrypted_secret = encrypted_secret, r2_encrypted_secret_commitment = commitment,
           r2_policy = policy\<rparr>)
      })"

text \<open>\<open>create_shares(...).map(|share| share.secret)\<close> on the client's generator.\<close>

definition create_scalar_shares ::
  "('w, 'u, 's::field, 'p, 'ed) env \<Rightarrow> 's \<Rightarrow> u32 \<Rightarrow> u32 \<Rightarrow> ('w client_state, 'e, 's list) step" where
  "create_scalar_shares E secret threshold cnt =
     io_bind (io_world_opt
       (create_shares (scalar_from (env_curve E)) (*) (env_random_scalar E) secret threshold cnt))
       (\<lambda>shares. io_return (map share_secret shares))"

definition prepare_registration ::
  "('w, 'u, 's::field, 'p, 'ed) env \<Rightarrow> 'u checked_configuration \<Rightarrow> pin \<Rightarrow> user_secret \<Rightarrow> user_info \<Rightarrow>
     policy \<Rightarrow> ('w client_state, register_error, ('u realm \<times> 's register2_request) list) step" where
  "prepare_registration E configuration pin secret info policy =
     (let C = env_curve E; H = env_prims E; realm_list = crealms configuration;
          threshold = recover_threshold (the_configuration configuration) in
      io_bind (io_world (registration_version_new_random (env_random16 E))) (\<lambda>version.
      io_bind (io_panics (pin_hash H pin
        (config_pin_hashing_mode (the_configuration configuration)) version info)) (\<lambda>hashed.
      io_bind (io_panics hashed) (\<lambda>(access_key, encryption_key_seed).
      io_bind (io_world (private_key_random (env_random_scalar E))) (\<lambda>oprf_private_key.
      io_bind (io_panics (share_count configuration)) (\<lambda>cnt.
      io_bind (create_scalar_shares E (private_scalar oprf_private_key) threshold cnt) (\<lambda>key_shares.
      io_bind (io_world (signing_key_new_random (env_random32 E))) (\<lambda>signing_key.
      io_bind (io_panics (those (map (\<lambda>(private_key, realm).
          sign_public_key H (to_public_key C (PrivateKey private_key)) (realm_id realm) signing_key)
        (zip key_shares realm_list)))) (\<lambda>signed_keys.
      let oprf_result = unoblivious_evaluate C H oprf_private_key (bytes_of (expose_access_key access_key));
          (unlock_key, unlock_key_commitment) = derive_unlock_key_and_commitment H oprf_result in
      io_bind (io_world (key_scalar_new_random (env_random_scalar E))) (\<lambda>encryption_key_scalar.
      io_bind (create_scalar_shares E (key_scalar encryption_key_scalar) threshold cnt) (\<lambda>scalar_shares.
      io_bind (io_panics (encryption_key_derive C H encryption_key_seed encryption_key_scalar))
        (\<lambda>encryption_key.
      io_bind (io_panics (user_secret_encrypt H secret encryption_key)) (\<lambda>encrypted_secret.
      io_panics (those (map
        (register2_request_for E version unlock_key unlock_key_commitment encrypted_secret policy)
        (zip4 realm_list (map PrivateKey key_shares) signed_keys (map ScalarShare scalar_shares)))))))))))))))))"

definition perform_register ::
  "('w, 'u, 's::field, 'p, 'ed) env \<Rightarrow> 'u checked_configuration \<Rightarrow> pin \<Rightarrow> user_secret \<Rightarrow> user_info \<Rightarrow>
     policy \<Rightarrow> ('w client_state, register_error, unit) step" where
  "perform_register E configuration pin secret info policy =
     (let threshold = register_threshold (the_configuration configuration) in
      io_bind (join_at_least_threshold E
        (map (register1_on_realm E) (crealms configuration)) threshold) (\<lambda>_.
      io_bind (prepare_registration E configuration pin secret info policy) (\<lambda>requests.
      io_bind (join_at_least_threshold E
        (map (\<lambda>(realm, request). register2_on_realm E realm request) requests) threshold) (\<lambda>_.
      io_return ()))))"

section \<open>What is uploaded\<close>

text \<open>
  A consistent registration: the requests go to the realms of the configuration in order, and
  there are a root key and a scalar whose shares they carry, an unlock key and a commitment
  that come from evaluating the OPRF on the access key, and one ciphertext of the secret under
  the key derived from the seed and the scalar.
\<close>

definition consistent_registration ::
  "('w, 'u, 's::field, 'p, 'ed) env \<Rightarrow> 'u checked_configuration \<Rightarrow> user_secret \<Rightarrow> policy \<Rightarrow>
     registration_version \<Rightarrow> user_secret_access_key \<Rightarrow> encryption_key_seed \<Rightarrow>
     's share list \<Rightarrow> 's share list \<Rightarrow> 's \<Rightarrow> 's \<Rightarrow> ('u realm \<times> 's register2_request) list \<Rightarrow> bool" where
  "consistent_registration E configuration secret policy version access_key seed key_shares
     scalar_shares root scl requests \<longleftrightarrow>
     (let C = env_curve E; H = env_prims E;
          (unlock_key, commitment) = derive_unlock_key_and_commitment H
            (unoblivious_evaluate C H (PrivateKey root) (bytes_of (expose_access_key access_key))) in
      map fst requests = crealms configuration \<and>
      length key_shares = length requests \<and> length scalar_shares = length requests \<and>
      (\<exists>key enc signing_key. encryption_key_derive C H seed (EncryptionKeyScalar scl) = Some key \<and>
        user_secret_encrypt H secret key = Some enc \<and>
        (\<forall>i < length requests. \<exists>tag c spk.
           unlock_key_tag_derive H unlock_key (realm_id (fst (requests ! i))) = Some tag \<and>
           secret_commitment_derive C H unlock_key (realm_id (fst (requests ! i)))
             (ScalarShare (share_secret (scalar_shares ! i))) enc = Some c \<and>
           sign_public_key H (to_public_key C (PrivateKey (share_secret (key_shares ! i))))
             (realm_id (fst (requests ! i))) signing_key = Some spk \<and>
           snd (requests ! i) =
             \<lparr>r2_version = version, r2_oprf_private_key = PrivateKey (share_secret (key_shares ! i)),
              r2_oprf_signed_public_key = spk, r2_unlock_key_commitment = commitment,
              r2_unlock_key_tag = tag,
              r2_encryption_key_scalar_share = ScalarShare (share_secret (scalar_shares ! i)),
              r2_encrypted_secret = enc, r2_encrypted_secret_commitment = c, r2_policy = policy\<rparr>)))"

lemma nth_zip4:
  "i < length a \<Longrightarrow> i < length b \<Longrightarrow> i < length c \<Longrightarrow> i < length d \<Longrightarrow>
     zip4 a b c d ! i = (a ! i, b ! i, c ! i, d ! i)"
  by (simp add: zip4_def)

lemma length_zip4: "length (zip4 a b c d) = min (min (min (length a) (length b)) (length c)) (length d)"
  by (simp add: zip4_def)

lemma create_scalar_shares_Some:
  assumes "create_scalar_shares E secret threshold cnt st = Some (Ok vs, st')"
  obtains shares where "vs = map share_secret shares"
    "create_shares (scalar_from (env_curve E)) (*) (env_random_scalar E) secret threshold cnt (world st) =
      Some (shares, world st')" "length shares = unat cnt"
  using assms
  by (auto simp: create_scalar_shares_def io_bind_Some io_world_opt_def io_return_def
      dest: length_create_shares split: option.splits)

lemma prepare_registration_pieces:
  assumes cfg: "checked_ok configuration"
    and run: "prepare_registration E configuration pin secret info policy st = Some (Ok requests, st')"
  obtains version ak root ks r1 r1' sk spks scl ss r2 r2' key enc
  where "pin_hash (env_prims E) pin (config_pin_hashing_mode (the_configuration configuration)) version info =
      Some (Some ak)"
    and "create_shares (scalar_from (env_curve E)) (*) (env_random_scalar E) (private_scalar root)
      (recover_threshold (the_configuration configuration)) (of_nat (length (crealms configuration))) r1 =
      Some (ks, r1')"
    and "those (map (\<lambda>prod. sign_public_key (env_prims E)
        (to_public_key (env_curve E) (PrivateKey (fst prod))) (realm_id (snd prod)) sk)
      (zip (map share_secret ks) (crealms configuration))) = Some spks"
    and "create_shares (scalar_from (env_curve E)) (*) (env_random_scalar E) (key_scalar scl)
      (recover_threshold (the_configuration configuration)) (of_nat (length (crealms configuration))) r2 =
      Some (ss, r2')"
    and "encryption_key_derive (env_curve E) (env_prims E) (snd ak) scl = Some key"
    and "user_secret_encrypt (env_prims E) secret key = Some enc"
    and "those (map (register2_request_for E version
        (fst (derive_unlock_key_and_commitment (env_prims E) (unoblivious_evaluate (env_curve E) (env_prims E)
          root (bytes_of (expose_access_key (fst ak))))))
        (snd (derive_unlock_key_and_commitment (env_prims E) (unoblivious_evaluate (env_curve E) (env_prims E)
          root (bytes_of (expose_access_key (fst ak))))))
        enc policy)
      (zip4 (crealms configuration) (map PrivateKey (map share_secret ks)) spks
        (map ScalarShare (map share_secret ss)))) = Some requests"
  using run unfolding prepare_registration_def Let_def split_beta
  apply (elim io_bind_OkE)
  apply (simp only: io_panics_Ok io_world_Ok share_count_ok [OF cfg] option.inject)
  apply (elim conjE create_scalar_shares_Some)
  apply hypsubst_thin
  apply (rule that)
  apply assumption+
  done

lemma register2_request_for_Some:
  "register2_request_for E version unlock_key commitment enc policy (realm, k, spk, sh) = Some q \<longleftrightarrow>
     (\<exists>tag c. unlock_key_tag_derive (env_prims E) unlock_key (realm_id realm) = Some tag \<and>
        secret_commitment_derive (env_curve E) (env_prims E) unlock_key (realm_id realm) sh enc = Some c \<and>
        q = (realm, \<lparr>r2_version = version, r2_oprf_private_key = k, r2_oprf_signed_public_key = spk,
          r2_unlock_key_commitment = commitment, r2_unlock_key_tag = tag,
          r2_encryption_key_scalar_share = sh, r2_encrypted_secret = enc,
          r2_encrypted_secret_commitment = c, r2_policy = policy\<rparr>))"
  by (auto simp: register2_request_for_def bind_eq_Some_conv)

text \<open>The request for one realm, from its share of the key, its signed key and its share of the scalar.\<close>

lemma register2_requests_nth:
  fixes E :: "('w, 'u, 's::field, 'p, 'ed) env" and ks ss :: "'s share list"
  assumes reqs: "those (map (register2_request_for E version unlock_key commitment enc policy)
      (zip4 rs (map PrivateKey (map share_secret ks)) spks (map ScalarShare (map share_secret ss)))) = Some requests"
    and spks: "those (map (\<lambda>prod. sign_public_key (env_prims E)
      (to_public_key (env_curve E) (PrivateKey (fst prod))) (realm_id (snd prod)) sk)
      (zip (map share_secret ks) rs)) = Some spks"
    and len: "length ks = length rs" "length ss = length rs" and i: "i < length rs"
  shows "\<exists>tag c. unlock_key_tag_derive (env_prims E) unlock_key (realm_id (rs ! i)) = Some tag \<and>
    secret_commitment_derive (env_curve E) (env_prims E) unlock_key (realm_id (rs ! i))
      (ScalarShare (share_secret (ss ! i))) enc = Some c \<and>
    sign_public_key (env_prims E) (to_public_key (env_curve E) (PrivateKey (share_secret (ks ! i)))) (realm_id (rs ! i)) sk =
      Some (spks ! i) \<and>
    requests ! i = (rs ! i, \<lparr>r2_version = version, r2_oprf_private_key = PrivateKey (share_secret (ks ! i)),
      r2_oprf_signed_public_key = spks ! i, r2_unlock_key_commitment = commitment, r2_unlock_key_tag = tag,
      r2_encryption_key_scalar_share = ScalarShare (share_secret (ss ! i)), r2_encrypted_secret = enc,
      r2_encrypted_secret_commitment = c, r2_policy = policy\<rparr>)"
proof -
  have lspks: "length spks = length rs"
    using length_those [OF spks] len by simp
  then have "register2_request_for E version unlock_key commitment enc policy
      (rs ! i, PrivateKey (share_secret (ks ! i)), spks ! i, ScalarShare (share_secret (ss ! i))) = Some (requests ! i)"
    using those_nth [OF reqs, of i] i len by (simp add: nth_zip4 length_zip4)
  moreover have "sign_public_key (env_prims E) (to_public_key (env_curve E) (PrivateKey (share_secret (ks ! i))))
      (realm_id (rs ! i)) sk = Some (spks ! i)"
    using those_nth [OF spks, of i] i len by simp
  ultimately show ?thesis
    unfolding register2_request_for_Some by blast
qed

lemma prepare_registration_consistent:
  fixes E :: "('w, 'u, 's::field, 'p, 'ed) env"
  assumes cfg: "checked_ok configuration"
    and run: "prepare_registration E configuration pin secret info policy st = Some (Ok requests, st')"
  shows "\<exists>version access_key seed key_shares scalar_shares root scl r1 r1' r2 r2'.
    pin_hash (env_prims E) pin (config_pin_hashing_mode (the_configuration configuration)) version info =
      Some (Some (access_key, seed)) \<and>
    create_shares (scalar_from (env_curve E)) (*) (env_random_scalar E) root
      (recover_threshold (the_configuration configuration)) (of_nat (length (crealms configuration))) r1 =
      Some (key_shares, r1') \<and>
    create_shares (scalar_from (env_curve E)) (*) (env_random_scalar E) scl
      (recover_threshold (the_configuration configuration)) (of_nat (length (crealms configuration))) r2 =
      Some (scalar_shares, r2') \<and>
    consistent_registration E configuration secret policy version access_key seed key_shares
      scalar_shares root scl requests"
proof (rule prepare_registration_pieces [OF cfg run])
  fix version root r1 r1' sk scl r2 r2' key enc
    and spks :: "oprf_signed_public_key list"
    and ak :: "user_secret_access_key \<times> encryption_key_seed" and ks ss :: "'s share list"
  let ?C = "env_curve E" and ?H = "env_prims E" and ?rs = "crealms configuration"
  let ?n = "of_nat (length (crealms configuration)) :: u32"
  let ?uc = "derive_unlock_key_and_commitment ?H
      (unoblivious_evaluate ?C ?H root (bytes_of (expose_access_key (fst ak))))"
  let ?items = "zip4 ?rs (map PrivateKey (map share_secret ks)) spks (map ScalarShare (map share_secret ss))"
  let ?zip = "zip (map share_secret ks) ?rs"
  assume hash: "pin_hash ?H pin (config_pin_hashing_mode (the_configuration configuration)) version info =
      Some (Some ak)"
    and ks: "create_shares (scalar_from ?C) (*) (env_random_scalar E) (private_scalar root)
      (recover_threshold (the_configuration configuration)) ?n r1 = Some (ks, r1')"
    and spks: "those (map (\<lambda>prod. sign_public_key ?H
        (to_public_key ?C (PrivateKey (fst prod))) (realm_id (snd prod)) sk) ?zip) = Some spks"
    and ss: "create_shares (scalar_from ?C) (*) (env_random_scalar E) (key_scalar scl)
      (recover_threshold (the_configuration configuration)) ?n r2 = Some (ss, r2')"
    and key: "encryption_key_derive ?C ?H (snd ak) scl = Some key"
    and enc: "user_secret_encrypt ?H secret key = Some enc"
    and reqs: "those (map (register2_request_for E version (fst ?uc) (snd ?uc) enc policy) ?items) =
      Some requests"
  have n: "unat ?n = length ?rs"
    using cfg by (intro of_nat_inverse [OF refl]) (simp add: checked_ok_def configuration_ok_def)
  have len: "length ks = length ?rs" "length ss = length ?rs"
    using length_create_shares [OF ks] length_create_shares [OF ss] n by simp_all
  have lspks: "length spks = length ?rs"
    using length_those [OF spks] len by simp
  then have lreqs: "length requests = length ?rs"
    using length_those [OF reqs] len by (simp add: length_zip4)
  note item = register2_requests_nth [OF reqs spks len]
  have "fst (requests ! i) = ?rs ! i" if "i < length ?rs" for i
    using item [OF that] by auto
  then have "map fst requests = ?rs"
    using lreqs by (intro nth_equalityI) auto
  moreover have "\<exists>tag c spk.
           unlock_key_tag_derive ?H (fst ?uc) (realm_id (fst (requests ! i))) = Some tag \<and>
           secret_commitment_derive ?C ?H (fst ?uc) (realm_id (fst (requests ! i)))
             (ScalarShare (share_secret (ss ! i))) enc = Some c \<and>
           sign_public_key ?H (to_public_key ?C (PrivateKey (share_secret (ks ! i))))
             (realm_id (fst (requests ! i))) sk = Some spk \<and>
           snd (requests ! i) =
             \<lparr>r2_version = version, r2_oprf_private_key = PrivateKey (share_secret (ks ! i)),
              r2_oprf_signed_public_key = spk, r2_unlock_key_commitment = snd ?uc,
              r2_unlock_key_tag = tag,
              r2_encryption_key_scalar_share = ScalarShare (share_secret (ss ! i)),
              r2_encrypted_secret = enc, r2_encrypted_secret_commitment = c, r2_policy = policy\<rparr>"
    if "i < length requests" for i
    using item [of i] that lreqs by auto
  ultimately have "consistent_registration E configuration secret policy version (fst ak) (snd ak) ks ss
      (private_scalar root) (key_scalar scl) requests"
    using key enc len lreqs unfolding consistent_registration_def Let_def split_beta by auto
  then show ?thesis
    using hash ks ss by (metis prod.collapse)
qed

lemma created_share_nth:
  assumes "create_shares sfrom smul random secret threshold cnt rng = Some (shares, rng')"
    and "i < unat cnt"
  shows "shares ! i = \<lparr>share_idx = Index (of_nat (Suc i)), share_secret = share_secret (shares ! i)\<rparr>"
proof -
  have "map share_idx shares ! i = Index (of_nat (Suc i))"
    using assms(2) unfolding create_shares_indices(1) [OF assms(1)] by (simp del: upt_Suc)
  then have "share_idx (shares ! i) = Index (of_nat (Suc i))"
    using assms(2) length_create_shares [OF assms(1)] by simp
  then show ?thesis
    by (cases "shares ! i") simp
qed

lemma recover_created_positions:
  assumes created: "create_shares sfrom (*) random secret threshold cnt rng = Some (shares, rng')"
    and inj: "inj_on sfrom {1..cnt}"
    and I: "set I \<subseteq> {..<unat cnt}" "distinct I" "unat threshold \<le> length I"
  shows "recover_secret sfrom (*)
    (map (\<lambda>i. \<lparr>share_idx = Index (of_nat (Suc i)), share_secret = share_secret (shares ! i)\<rparr>) I) = Ok secret"
proof -
  have len: "length shares = unat cnt"
    by (rule length_create_shares [OF created])
  have "distinct shares"
    using create_shares_indices(2) [OF created] by (simp add: distinct_map)
  then have "inj_on ((!) shares) (set I)"
    using I(1) len by (intro inj_onI) (metis lessThan_iff nth_eq_iff_index_eq subsetD)
  then have "distinct (map ((!) shares) I)"
    using I(2) by (simp add: distinct_map)
  then have "recover_secret sfrom (*) (map ((!) shares) I) = Ok secret"
    by (intro recover_selection [OF scalar_secret.secret_type_axioms created inj]) (use I len in auto)
  moreover have eq: "map (\<lambda>i. \<lparr>share_idx = Index (of_nat (Suc i)), share_secret = share_secret (shares ! i)\<rparr>) I =
      map ((!) shares) I"
    using I(1) created_share_nth [OF created, symmetric] by (intro map_cong refl) auto
  ultimately show ?thesis
    by (simp only: eq)
qed

section \<open>What a realm stores\<close>

text \<open>The registration at position \<open>i\<close>, with what makes the client accept the realm's answers.\<close>

definition stored ::
  "('w, 'u, 's::field, 'p, 'ed) env \<Rightarrow> registration_version \<Rightarrow> unlock_key \<Rightarrow>
     unlock_key_commitment \<Rightarrow> oprf_verifying_key \<Rightarrow> encrypted_user_secret \<Rightarrow> 's \<Rightarrow> 's \<Rightarrow>
     realm_id \<Rightarrow> 's register2_request \<Rightarrow> bool" where
  "stored E version unlock_key commitment vk enc key_share scalar_sh i q \<longleftrightarrow>
     r2_version q = version \<and> r2_oprf_private_key q = PrivateKey key_share \<and>
     verify_signed_key (env_prims E) (r2_oprf_signed_public_key q) i = Some (Ok ()) \<and>
     signed_public_key (r2_oprf_signed_public_key q) = to_public_key (env_curve E) (PrivateKey key_share) \<and>
     verifying_key (r2_oprf_signed_public_key q) = vk \<and>
     r2_unlock_key_commitment q = commitment \<and>
     unlock_key_tag_derive (env_prims E) unlock_key i = Some (r2_unlock_key_tag q) \<and>
     r2_encryption_key_scalar_share q = ScalarShare scalar_sh \<and> r2_encrypted_secret q = enc \<and>
     secret_commitment_derive (env_curve E) (env_prims E) unlock_key i (ScalarShare scalar_sh) enc =
       Some (r2_encrypted_secret_commitment q)"

text \<open>A request with the tag, commitment and signature that belong to it stores its shares.\<close>

lemma request_stored:
  assumes "unlock_key_tag_derive (env_prims E) unlock_key i = Some tag"
    and "secret_commitment_derive (env_curve E) (env_prims E) unlock_key i (ScalarShare ss) enc = Some c"
    and sign: "sign_public_key (env_prims E) (to_public_key (env_curve E) (PrivateKey ks)) i sk = Some spk"
    and laws: "prim_laws (env_prims E)"
  shows "stored E version unlock_key commitment (verifying_key_of (env_prims E) sk) enc ks ss i
    \<lparr>r2_version = version, r2_oprf_private_key = PrivateKey ks,
     r2_oprf_signed_public_key = spk, r2_unlock_key_commitment = commitment,
     r2_unlock_key_tag = tag, r2_encryption_key_scalar_share = ScalarShare ss,
     r2_encrypted_secret = enc, r2_encrypted_secret_commitment = c, r2_policy = policy\<rparr>"
proof -
  have "signed_public_key spk = to_public_key (env_curve E) (PrivateKey ks)"
      "verifying_key spk = verifying_key_of (env_prims E) sk"
    using sign by (auto simp: sign_public_key_def bind_eq_Some_conv)
  then show ?thesis
    using assms(1,2) sign_verify [OF laws sign] unfolding stored_def by simp
qed

lemma consistent_stored:
  assumes cons: "consistent_registration E configuration (UserSecret b) policy version access_key seed key_shares
      scalar_shares root scl requests"
    and laws: "prim_laws (env_prims E)" and len: "length b \<le> 128"
    and keys: "derive_unlock_key_and_commitment (env_prims E)
      (unoblivious_evaluate (env_curve E) (env_prims E) (PrivateKey root) (bytes_of (expose_access_key access_key))) =
      (unlock_key, commitment)"
  obtains key enc vk where "encryption_key_derive (env_curve E) (env_prims E) seed (EncryptionKeyScalar scl) = Some key"
    and "user_secret_decrypt (env_prims E) enc key = Some (UserSecret b)"
    and "map fst requests = crealms configuration"
    and "\<And>i. i < length (crealms configuration) \<Longrightarrow>
      stored E version unlock_key commitment vk enc (share_secret (key_shares ! i)) (share_secret (scalar_shares ! i))
        (realm_id (crealms configuration ! i)) (snd (requests ! i))"
    and "\<And>i. i < length (crealms configuration) \<Longrightarrow> r2_policy (snd (requests ! i)) = policy"
proof -
  obtain key enc sk where fst: "map fst requests = crealms configuration"
    and key: "encryption_key_derive (env_curve E) (env_prims E) seed (EncryptionKeyScalar scl) = Some key"
    and enc: "user_secret_encrypt (env_prims E) (UserSecret b) key = Some enc"
    and reqs: "\<And>i. i < length requests \<Longrightarrow> \<exists>tag c spk.
         unlock_key_tag_derive (env_prims E) unlock_key (realm_id (fst (requests ! i))) = Some tag \<and>
         secret_commitment_derive (env_curve E) (env_prims E) unlock_key (realm_id (fst (requests ! i)))
           (ScalarShare (share_secret (scalar_shares ! i))) enc = Some c \<and>
         sign_public_key (env_prims E) (to_public_key (env_curve E) (PrivateKey (share_secret (key_shares ! i))))
           (realm_id (fst (requests ! i))) sk = Some spk \<and>
         snd (requests ! i) =
             \<lparr>r2_version = version, r2_oprf_private_key = PrivateKey (share_secret (key_shares ! i)),
              r2_oprf_signed_public_key = spk, r2_unlock_key_commitment = commitment,
              r2_unlock_key_tag = tag,
              r2_encryption_key_scalar_share = ScalarShare (share_secret (scalar_shares ! i)),
              r2_encrypted_secret = enc, r2_encrypted_secret_commitment = c, r2_policy = policy\<rparr>"
    using cons unfolding consistent_registration_def Let_def keys prod.case by blast
  have len_req: "length requests = length (crealms configuration)"
    using arg_cong [OF fst, of length] by simp
  obtain e where "user_secret_encrypt (env_prims E) (UserSecret b) key = Some e"
      "user_secret_decrypt (env_prims E) e key = Some (UserSecret b)"
    by (rule encrypt_decrypt [OF laws len])
  then have dec: "user_secret_decrypt (env_prims E) enc key = Some (UserSecret b)"
    using enc by simp
  have "stored E version unlock_key commitment (verifying_key_of (env_prims E) sk) enc (share_secret (key_shares ! i))
        (share_secret (scalar_shares ! i)) (realm_id (crealms configuration ! i)) (snd (requests ! i))"
    if i: "i < length (crealms configuration)" for i
  proof -
    have fi: "fst (requests ! i) = crealms configuration ! i"
      using nth_map [of i requests fst] i len_req fst by simp
    show ?thesis
      using reqs [OF i [folded len_req]] request_stored [OF _ _ _ laws] unfolding fi by metis
  qed
  moreover have "r2_policy (snd (requests ! i)) = policy" if i: "i < length (crealms configuration)" for i
    using reqs [OF i [folded len_req]] by auto
  ultimately show thesis
    using that [OF key dec fst] by blast
qed

text \<open>What a run of the registration fixes, in the form the phases use.\<close>

lemma registration_stored:
  fixes E :: "('w, 'u, 's::field, 'p, 'ed) env"
  assumes cfg: "checked_ok configuration" and laws: "prim_laws (env_prims E)"
    and secret: "user_secret_from b = Some secret"
    and run: "prepare_registration E configuration pin secret info policy st = Some (Ok requests, st')"
  obtains version access_key seed key_shares scalar_shares root scl r1 r1' r2 r2' key enc vk unlock_key commitment
  where "pin_hash (env_prims E) pin (config_pin_hashing_mode (the_configuration configuration)) version info =
      Some (Some (access_key, seed))"
    and "create_shares (scalar_from (env_curve E)) (*) (env_random_scalar E) root
      (recover_threshold (the_configuration configuration)) (of_nat (length (crealms configuration))) r1 =
      Some (key_shares, r1')"
    and "create_shares (scalar_from (env_curve E)) (*) (env_random_scalar E) scl
      (recover_threshold (the_configuration configuration)) (of_nat (length (crealms configuration))) r2 =
      Some (scalar_shares, r2')"
    and "derive_unlock_key_and_commitment (env_prims E)
      (unoblivious_evaluate (env_curve E) (env_prims E) (PrivateKey root) (bytes_of (expose_access_key access_key))) =
      (unlock_key, commitment)"
    and "encryption_key_derive (env_curve E) (env_prims E) seed (EncryptionKeyScalar scl) = Some key"
    and "user_secret_decrypt (env_prims E) enc key = Some secret"
    and "map fst requests = crealms configuration"
    and "\<And>i. i < length (crealms configuration) \<Longrightarrow>
      stored E version unlock_key commitment vk enc (share_secret (key_shares ! i)) (share_secret (scalar_shares ! i))
        (realm_id (crealms configuration ! i)) (snd (requests ! i))"
    and "\<And>i. i < length (crealms configuration) \<Longrightarrow> r2_policy (snd (requests ! i)) = policy"
proof -
  have b: "length b \<le> 128" "secret = UserSecret b"
    using secret by (simp_all add: user_secret_from_Some)
  obtain version access_key seed ks ss root scl r1 r1' r2 r2' where
    hash: "pin_hash (env_prims E) pin (config_pin_hashing_mode (the_configuration configuration)) version info =
      Some (Some (access_key, seed))"
    and shares: "create_shares (scalar_from (env_curve E)) (*) (env_random_scalar E) root
      (recover_threshold (the_configuration configuration)) (of_nat (length (crealms configuration))) r1 =
      Some (ks, r1')"
      "create_shares (scalar_from (env_curve E)) (*) (env_random_scalar E) scl
      (recover_threshold (the_configuration configuration)) (of_nat (length (crealms configuration))) r2 =
      Some (ss, r2')"
    and con: "consistent_registration E configuration secret policy version access_key seed ks ss root scl requests"
    using prepare_registration_consistent [OF cfg run] by metis
  obtain unlock_key commitment where keys: "derive_unlock_key_and_commitment (env_prims E)
      (unoblivious_evaluate (env_curve E) (env_prims E) (PrivateKey root) (bytes_of (expose_access_key access_key))) =
      (unlock_key, commitment)"
    by fastforce
  from con [unfolded b(2)] laws b(1) keys show thesis
    by (rule consistent_stored) (use that [OF hash shares keys] b(2) in blast)
qed

lemma request_member:
  assumes "map fst requests = rs" and "i < length rs"
  shows "(rs ! i, snd (requests ! i)) \<in> set requests"
  using assms by (metis length_map nth_map nth_mem prod.collapse)

section \<open>Registration does not panic\<close>

lemma sign_public_key_total: "\<exists>spk. sign_public_key H k i sk = Some spk"
  using signature_msg_total [of i k] by (auto simp: sign_public_key_def)

lemma register2_request_for_total: "\<exists>q. register2_request_for E version k com enc pol item = Some q"
proof -
  obtain realm pk spk sh where item: "item = (realm, pk, spk, sh)"
    by (cases item) auto
  show ?thesis
    using tag_derive_total(2) [of "env_prims E" k "realm_id realm"]
      secret_commitment_total(2) [of "env_curve E" "env_prims E" k "realm_id realm" sh enc]
    unfolding item register2_request_for_def by auto
qed

context budget
begin

lemma yields_create_scalar_shares:
  fixes E :: "('w, 'u, 's::field, 'p, 'ed) env"
  assumes "0 < threshold" "threshold \<le> cnt"
  shows "yields B (create_scalar_shares E secret threshold cnt) (\<lambda>_. True)"
proof -
  have "create_shares (scalar_from (env_curve E)) (*) (env_random_scalar E) secret threshold cnt w \<noteq> None" for w
    unfolding create_shares_None using assms by auto
  then show ?thesis
    unfolding yields_def create_scalar_shares_def io_bind_def io_world_opt_def io_return_def
    by (auto split: option.split intro: world_change) (metis option.distinct(1))
qed

lemma prepare_registration_total:
  fixes E :: "('w, 'u, 's::field, 'p, 'ed) env"
  assumes laws: "prim_laws (env_prims E)" and cfg: "checked_ok configuration"
    and secret: "user_secret_from b = Some secret"
    and pin: "\<And>version. \<exists>a s. pin_hash (env_prims E) pin
      (config_pin_hashing_mode (the_configuration configuration)) version info = Some (Some (a, s))"
  shows "yields B (prepare_registration E configuration pin secret info policy) (\<lambda>_. True)"
proof -
  let ?t = "recover_threshold (the_configuration configuration)"
  let ?n = "of_nat (length (crealms configuration)) :: u32"
  have n: "unat ?n = length (crealms configuration)"
    using cfg by (intro of_nat_inverse [OF refl]) (simp add: checked_ok_def configuration_ok_def)
  have t: "0 < ?t" "?t \<le> ?n"
    using cfg n by (auto simp: checked_ok_def configuration_ok_def word_less_nat_alt word_le_nat_alt)
  have "\<forall>version. \<exists>ak. pin_hash (env_prims E) pin
      (config_pin_hashing_mode (the_configuration configuration)) version info = Some (Some ak)"
    using pin by metis
  then obtain hk where hk: "\<And>version. pin_hash (env_prims E) pin
      (config_pin_hashing_mode (the_configuration configuration)) version info = Some (Some (hk version))"
    by metis
  have "\<forall>k. \<exists>e. user_secret_encrypt (env_prims E) secret k = Some e"
    using encrypt_decrypt [OF laws, of b] secret by (auto simp: user_secret_from_Some)
  then obtain ef where ef: "\<And>k. user_secret_encrypt (env_prims E) secret k = Some (ef k)"
    by metis
  have "\<forall>sd sc. \<exists>k. encryption_key_derive (env_curve E) (env_prims E) sd sc = Some k"
    by (intro allI encryption_key_derive_total)
  then obtain kf where kf: "\<And>sd sc. encryption_key_derive (env_curve E) (env_prims E) sd sc = Some (kf sd sc)"
    by metis
  have "\<exists>spks. those (map (\<lambda>prod. sign_public_key (env_prims E)
      (to_public_key (env_curve E) (PrivateKey (fst prod))) (realm_id (snd prod)) sk) xs) = Some spks"
    for sk and xs :: "('s \<times> 'u realm) list"
    by (rule those_Some) (rule sign_public_key_total)
  then obtain sf where sf: "\<And>sk (xs :: ('s \<times> 'u realm) list). those (map (\<lambda>prod. sign_public_key (env_prims E)
      (to_public_key (env_curve E) (PrivateKey (fst prod))) (realm_id (snd prod)) sk) xs) = Some (sf sk xs)"
    by metis
  have "\<exists>qs. those (map (register2_request_for E version k com e policy) xs) = Some qs"
    for version k com e xs
    by (rule those_Some) (rule register2_request_for_total)
  then obtain qf where qf: "\<And>version k com e xs.
      those (map (register2_request_for E version k com e policy) xs) = Some (qf version k com e xs)"
    by metis
  show ?thesis
    unfolding prepare_registration_def Let_def split_beta share_count_ok [OF cfg] hk ef kf sf qf
      io_bind_panics
    by (intro yields_seq [OF yields_intros(3) [OF TrueI]] yields_seq [OF yields_create_scalar_shares [OF t]]
        yields_intros(2)) (rule refl TrueI)+
qed

lemma register_on_realm_post:
  fixes E :: "('w, 'u, 's::field, 'p, 'ed) env"
  assumes "\<And>request. post B 1 (make_request E realm request) (\<lambda>_. True)"
  shows "post B 1 (register1_on_realm E realm) (\<lambda>_. True)" "post B 1 (register2_on_realm E realm request) (\<lambda>_. True)"
  unfolding register1_on_realm_def register2_on_realm_def
  by (auto intro!: post_match_last [OF assms] post_intros split: sum.split secrets_response.split
      register1_response.split register2_response.split simp del: One_nat_def)

lemma prepare_registration_post:
  fixes E :: "('w, 'u, 's::field, 'p, 'ed) env"
  assumes laws: "prim_laws (env_prims E)" and cfg: "checked_ok configuration"
    and secret: "user_secret_from b = Some secret"
    and pin: "\<And>version. \<exists>a s. pin_hash (env_prims E) pin
      (config_pin_hashing_mode (the_configuration configuration)) version info = Some (Some (a, s))"
  shows "post B 0 (prepare_registration E configuration pin secret info policy)
      (\<lambda>requests. map fst requests = crealms configuration)"
proof (rule postI)
  fix n and st :: "'w client_state"
  assume "B (n + 0) st"
  then obtain requests st' where r: "prepare_registration E configuration pin secret info policy st =
      Some (Ok requests, st')" "B n st'"
    using prepare_registration_total [OF laws cfg secret pin, of policy] unfolding yields_def by fastforce
  then have "map fst requests = crealms configuration"
    using prepare_registration_consistent [OF cfg r(1)] unfolding consistent_registration_def Let_def split_beta
    by blast
  with r show "\<exists>r st'. prepare_registration E configuration pin secret info policy st = Some (r, st') \<and> B n st' \<and>
      (\<forall>x. r = Ok x \<longrightarrow> map fst x = crealms configuration)"
    by auto
qed

lemma perform_register_post:
  fixes E :: "('w, 'u, 's::field, 'p, 'ed) env"
  assumes ok: "executor_ok E" and c: "checked_configuration_from c = Some configuration"
    and t1: "1 \<le> register_threshold c" and laws: "prim_laws (env_prims E)"
    and secret: "user_secret_from b = Some secret"
    and req: "\<And>realm request. realm \<in> set (crealms configuration) \<Longrightarrow>
      post B 1 (make_request E realm request) (\<lambda>_. True)"
    and pin: "\<And>version. \<exists>a s. pin_hash (env_prims E) pin
      (config_pin_hashing_mode (the_configuration configuration)) version info = Some (Some (a, s))"
  shows "post B (2 * length (crealms configuration)) (perform_register E configuration pin secret info policy) (\<lambda>_. True)"
proof -
  let ?t = "register_threshold (the_configuration configuration)" and ?n = "length (crealms configuration)"
  note cfg = checked_configuration_from_ok [OF c]
  have t: "0 < unat ?t" "unat ?t \<le> ?n"
    using c t1 cfg by (auto simp: checked_configuration_from_eq checked_ok_def configuration_ok_def
        word_le_nat_alt split: if_splits)
  have join: "post B ?n (join_at_least_threshold E futures ?t) (\<lambda>_. True)"
    if "length futures = ?n" "\<And>f. f \<in> set futures \<Longrightarrow> post B 1 f (\<lambda>_. True)"
    for futures :: "('w client_state, register_error, unit) step list"
    using post_mono [OF post_join_each [OF ok t(1), of futures], of "\<lambda>_. True"] t(2) that by simp
  have one: "post B 1 f (\<lambda>_. True)" if rs: "map fst requests = crealms configuration"
    and f: "f \<in> set (map (\<lambda>(realm, request). register2_on_realm E realm request) requests)" for f requests
  proof -
    obtain realm request where "(realm, request) \<in> set requests" "f = register2_on_realm E realm request"
      using f by auto
    moreover from this have "realm \<in> set (crealms configuration)"
      unfolding rs [symmetric] by force
    ultimately show ?thesis
      using register_on_realm_post(2) [OF req] by simp
  qed
  have len: "length requests = ?n" if "map fst requests = crealms configuration" for requests :: "('u realm \<times> 's register2_request) list"
    using arg_cong [OF that, of length] by simp
  have "post B (?n + (0 + (?n + 0))) (perform_register E configuration pin secret info policy) (\<lambda>_. True)"
    unfolding perform_register_def Let_def
    by (intro post_bind [OF join] post_bind [OF prepare_registration_post [OF laws cfg secret pin]] post_intros TrueI)
      (use register_on_realm_post(1) [OF req] one len in auto)
  then show ?thesis
    by (simp add: mult_2)
qed

end

lemma prepare_registration_runs:
  fixes E :: "('w, 'u, 's::field, 'p, 'ed) env"
  assumes "prim_laws (env_prims E)" and "checked_ok configuration" and "user_secret_from b = Some secret"
    and "\<And>version. \<exists>a s. pin_hash (env_prims E) pin
      (config_pin_hashing_mode (the_configuration configuration)) version info = Some (Some (a, s))"
  obtains requests st' where "prepare_registration E configuration pin secret info policy st = Some (Ok requests, st')"
proof -
  have "session_budget {} 0 st"
    by (simp add: session_budget_def)
  with requests.prepare_registration_total [OF assms] show thesis
    using that unfolding yields_def by blast
qed

lemma perform_register_total:
  fixes E :: "('w, 'u, 's::field, 'p, 'ed) env"
  assumes "executor_ok E" and "prim_laws (env_prims E)"
    and "\<And>realm. realm \<in> set (crealms configuration) \<Longrightarrow> short_answers E realm"
    and "checked_configuration_from c = Some configuration" and "1 \<le> register_threshold c"
    and "user_secret_from b = Some secret"
    and "\<And>version. \<exists>a s. pin_hash (env_prims E) pin
      (config_pin_hashing_mode (the_configuration configuration)) version info = Some (Some (a, s))"
    and "\<And>realm. realm \<in> set (crealms configuration) \<Longrightarrow> joinable E realm"
    and "session_budget (realm_id ` set (crealms configuration)) (2 * length (crealms configuration)) st"
  shows "perform_register E configuration pin secret info policy st \<noteq> None"
proof -
  have "post (session_budget (realm_id ` set (crealms configuration))) 1 (make_request E realm request) (\<lambda>_. True)"
    if "realm \<in> set (crealms configuration)" for realm request
    by (rule make_request_post [OF assms(8) [OF that] checked_key_length [OF checked_configuration_from_ok [OF assms(4)] that] assms(2) assms(3) [OF that]])
      (use that in simp_all)
  from requests.perform_register_post [OF assms(1,4,5,2,6) this assms(7)] show ?thesis
    using postD [where n=0 and st=st] assms(9) by fastforce
qed

section \<open>What registration sends\<close>

lemma sends_register_on_realm:
  assumes "logged E log"
  shows "sends log 10 posts (register1_on_realm E realm)"
    and "sends log 10 posts (register2_on_realm E realm request)"
  unfolding register1_on_realm_def register2_on_realm_def
  by (auto intro!: sends_match_pure sends_make_request [OF assms] sends_pure
      split: sum.split secrets_response.split register1_response.split register2_response.split)

lemma log_repeat_with: "(\<And>w. log (snd (random w)) = log w) \<Longrightarrow> log (snd (repeat_with random n w)) = log w"
proof (induction n arbitrary: w)
  case (Suc n)
  obtain v w1 where v: "random w = (v, w1)"
    by fastforce
  then have "log (snd (repeat_with random n w1)) = log w1"
    by (intro Suc)
  moreover have "log w1 = log w"
    using Suc.prems [of w] v by simp
  ultimately show ?case
    by (simp add: v split_beta)
qed simp

lemma sends_create_scalar_shares:
  assumes "logged E log"
  shows "sends log 0 Q (create_scalar_shares E secret threshold cnt)"
proof (rule sends_keep)
  fix st r st' assume "create_scalar_shares E secret threshold cnt st = Some (r, st')"
  then obtain shares where "create_shares (scalar_from (env_curve E)) (*) (env_random_scalar E) secret
      threshold cnt (world st) = Some (shares, world st')"
    by (auto simp: create_scalar_shares_def io_bind_Some io_world_opt_def io_return_def split: option.splits)
  then obtain n cs where "repeat_with (env_random_scalar E) n (world st) = (cs, world st')"
    by (rule create_shares_Some)
  then show "log (world st') = log (world st)"
    using log_repeat_with [of log "env_random_scalar E" n "world st"] loggedD(7) [OF assms] by simp
qed

lemma sends_prepare: "logged E log \<Longrightarrow> sends log 0 Q (prepare_registration E configuration pin secret info policy)"
  unfolding prepare_registration_def Let_def split_beta
  by (intro sends_bind_pure sends_world sends_pure sends_create_scalar_shares)
    (auto simp: loggedD registration_version_new_random_def private_key_random_def
      signing_key_new_random_def key_scalar_new_random_def split_beta)

lemma sends_perform_register:
  assumes log: "logged E log" and ok: "executor_ok E" and cfg: "checked_ok configuration"
  shows "sends log (20 * length (crealms configuration)) posts
    (perform_register E configuration pin secret info policy)"
proof -
  let ?n = "length (crealms configuration)"
  have p1: "sends log (10 * ?n) posts (join_at_least_threshold E
      (map (register1_on_realm E) (crealms configuration)) (register_threshold (the_configuration configuration)))"
    using sends_join [OF log ok, of "map (register1_on_realm E) (crealms configuration)" 10 posts]
    by (auto simp: mult.commute intro: sends_register_on_realm [OF log])
  have p2: "sends log (10 * ?n) posts (io_bind (join_at_least_threshold E
        (map (\<lambda>(realm, request). register2_on_realm E realm request) requests)
        (register_threshold (the_configuration configuration))) (\<lambda>_. io_return ()))"
    if "length requests = ?n" for requests
  proof (intro sends_bind_pure sends_pure)
    have "sends log (length (map (\<lambda>(realm, request). register2_on_realm E realm request) requests) * 10)
        posts (join_at_least_threshold E
          (map (\<lambda>(realm, request). register2_on_realm E realm request) requests)
          (register_threshold (the_configuration configuration)))"
      by (rule sends_join [OF log ok]) (use sends_register_on_realm(2) [OF log] in auto)
    then show "sends log (10 * ?n) posts (join_at_least_threshold E
        (map (\<lambda>(realm, request). register2_on_realm E realm request) requests)
        (register_threshold (the_configuration configuration)))"
      using that by (simp add: mult.commute)
  qed
  have "sends log (0 + 10 * ?n) posts (io_bind (prepare_registration E configuration pin secret info policy)
      (\<lambda>requests. io_bind (join_at_least_threshold E
        (map (\<lambda>(realm, request). register2_on_realm E realm request) requests)
        (register_threshold (the_configuration configuration))) (\<lambda>_. io_return ())))"
  proof (rule sends_bind_returns [OF sends_prepare [OF log], where P="\<lambda>requests. length requests = ?n"])
    fix st requests st'
    assume "prepare_registration E configuration pin secret info policy st = Some (Ok requests, st')"
    then have "map fst requests = crealms configuration"
      using prepare_registration_consistent [OF cfg] unfolding consistent_registration_def Let_def split_beta
      by blast
    then show "length requests = ?n"
      by (metis length_map)
  qed (rule p2)
  then show ?thesis
    unfolding perform_register_def Let_def by (intro sends_bind [OF p1]) auto
qed

text \<open>The shares that enough realms store recover what was shared.\<close>

lemma stored_shares_recover:
  fixes E :: "('w, 'u, 's::field, 'p, 'ed) env"
  assumes ks: "create_shares (scalar_from (env_curve E)) (*) (env_random_scalar E) root t n r1 = Some (ks, r1')"
    and ss: "create_shares (scalar_from (env_curve E)) (*) (env_random_scalar E) scl t n r2 = Some (ss, r2')"
    and inj: "inj_on (scalar_from (env_curve E)) {1..n}"
    and stored: "\<And>i. i < unat n \<Longrightarrow> stored E version unlock_key commitment vk enc (share_secret (ks ! i))
      (share_secret (ss ! i)) (realm i) (q i)"
    and I: "set I \<subseteq> {..<unat n}" "distinct I" "unat t \<le> length I"
  shows "recover_secret (scalar_from (env_curve E)) (*) (map (\<lambda>i. \<lparr>share_idx = Index (of_nat (Suc i)),
        share_secret = private_scalar (r2_oprf_private_key (q i))\<rparr>) I) = Ok root \<and>
      recover_secret (scalar_from (env_curve E)) (*) (map (\<lambda>i. \<lparr>share_idx = Index (of_nat (Suc i)),
        share_secret = share_scalar (r2_encryption_key_scalar_share (q i))\<rparr>) I) = Ok scl"
proof -
  have "private_scalar (r2_oprf_private_key (q i)) = share_secret (ks ! i) \<and>
      share_scalar (r2_encryption_key_scalar_share (q i)) = share_secret (ss ! i)" if "i \<in> set I" for i
    using stored [of i] that I(1) by (auto simp: stored_def)
  with recover_created_positions [OF ks inj I] recover_created_positions [OF ss inj I] show ?thesis
    by (simp cong: map_cong)
qed

section \<open>Properties\<close>

text \<open>C11. What registration uploads can be put together again, for a checked configuration whose share indices
  the field tells apart: the requests go to all realms in
  order with one version; for any at least \<open>recover_threshold\<close> realms, the uploaded OPRF key
  shares recover a root key whose evaluation on the hashed PIN gives the uploaded commitment, and
  the uploaded scalar shares recover a scalar whose key decrypts every uploaded ciphertext to the
  secret; and every signed public key verifies for its realm and belongs to that realm's key share.\<close>

theorem registration_recoverable:
  assumes curve: "curve_laws (env_curve E)" and prims: "prim_laws (env_prims E)"
    and cfg: "checked_configuration_from c = Some configuration"
    and inj: "inj_on (scalar_from (env_curve E)) {1..of_nat (length (crealms configuration))}"
    and secret: "user_secret_from b = Some secret"
    and run: "prepare_registration E configuration pin secret info policy st = Some (Ok requests, st')"
  shows "\<exists>version access_key seed root scl key.
    pin_hash (env_prims E) pin (config_pin_hashing_mode (the_configuration configuration)) version info =
      Some (Some (access_key, seed)) \<and>
    map fst requests = crealms configuration \<and>
    encryption_key_derive (env_curve E) (env_prims E) seed (EncryptionKeyScalar scl) = Some key \<and>
    (\<forall>I. set I \<subseteq> {..<length requests} \<and> distinct I \<and>
        unat (recover_threshold (the_configuration configuration)) \<le> length I \<longrightarrow>
      recover_secret (scalar_from (env_curve E)) (*)
        (map (\<lambda>i. \<lparr>share_idx = Index (of_nat (Suc i)),
          share_secret = private_scalar (r2_oprf_private_key (snd (requests ! i)))\<rparr>) I) = Ok root \<and>
      recover_secret (scalar_from (env_curve E)) (*)
        (map (\<lambda>i. \<lparr>share_idx = Index (of_nat (Suc i)),
          share_secret = share_scalar (r2_encryption_key_scalar_share (snd (requests ! i)))\<rparr>) I) = Ok scl) \<and>
    (\<forall>(realm, q) \<in> set requests. r2_version q = version \<and> r2_policy q = policy \<and>
      r2_unlock_key_commitment q = snd (derive_unlock_key_and_commitment (env_prims E)
        (unoblivious_evaluate (env_curve E) (env_prims E) (PrivateKey root)
          (bytes_of (expose_access_key access_key)))) \<and>
      user_secret_decrypt (env_prims E) (r2_encrypted_secret q) key = Some secret \<and>
      verify_signed_key (env_prims E) (r2_oprf_signed_public_key q) (realm_id realm) = Some (Ok ()) \<and>
      signed_public_key (r2_oprf_signed_public_key q) = to_public_key (env_curve E) (r2_oprf_private_key q))"
proof -
  note ok = checked_configuration_from_ok [OF cfg]
  let ?C = "env_curve E" and ?H = "env_prims E" and ?t = "recover_threshold (the_configuration configuration)"
  let ?n = "of_nat (length (crealms configuration)) :: u32"
  obtain version access_key seed ks ss root scl r1 r1' r2 r2' key enc vk unlock_key commitment where
    hash: "pin_hash ?H pin (config_pin_hashing_mode (the_configuration configuration)) version info =
      Some (Some (access_key, seed))"
    and ks: "create_shares (scalar_from ?C) (*) (env_random_scalar E) root ?t ?n r1 = Some (ks, r1')"
    and ss: "create_shares (scalar_from ?C) (*) (env_random_scalar E) scl ?t ?n r2 = Some (ss, r2')"
    and keys: "derive_unlock_key_and_commitment ?H (unoblivious_evaluate ?C ?H (PrivateKey root)
      (bytes_of (expose_access_key access_key))) = (unlock_key, commitment)"
    and key: "encryption_key_derive ?C ?H seed (EncryptionKeyScalar scl) = Some key"
    and dec: "user_secret_decrypt ?H enc key = Some secret"
    and fst: "map fst requests = crealms configuration"
    and stored: "\<And>i. i < length (crealms configuration) \<Longrightarrow>
      stored E version unlock_key commitment vk enc (share_secret (ks ! i)) (share_secret (ss ! i))
        (realm_id (crealms configuration ! i)) (snd (requests ! i))"
    and policy: "\<And>i. i < length (crealms configuration) \<Longrightarrow> r2_policy (snd (requests ! i)) = policy"
    by (rule registration_stored [OF ok prims secret run]) (rule that)
  have len: "length requests = length (crealms configuration)"
    using fst by (metis length_map)
  have n: "unat ?n = length (crealms configuration)"
    using ok by (intro of_nat_inverse [OF refl]) (simp add: checked_ok_def configuration_ok_def)
  note shares = stored_shares_recover [OF ks ss inj stored [folded len]]
  have "r2_version q = version \<and> r2_policy q = policy \<and> r2_unlock_key_commitment q = commitment \<and>
      user_secret_decrypt ?H (r2_encrypted_secret q) key = Some secret \<and>
      verify_signed_key ?H (r2_oprf_signed_public_key q) (realm_id realm) = Some (Ok ()) \<and>
      signed_public_key (r2_oprf_signed_public_key q) = to_public_key ?C (r2_oprf_private_key q)"
    if "(realm, q) \<in> set requests" for realm q
  proof -
    obtain i where r: "i < length requests" "requests ! i = (realm, q)"
      using \<open>(realm, q) \<in> set requests\<close> by (auto simp: in_set_conv_nth)
    then have i: "i < length (crealms configuration)" "crealms configuration ! i = realm" "snd (requests ! i) = q"
      using len nth_map [OF r(1), of fst] fst by simp_all
    from stored [OF i(1)] policy [OF i(1)] dec show ?thesis
      unfolding i(2,3) by (simp add: stored_def)
  qed
  then show ?thesis
    using hash fst key keys shares n len by (intro exI conjI) (assumption | blast | simp)+
qed

text \<open>C17. Registration never panics, whatever the transport delivers, as long as no answer that an
  attempt of the client is given by a hardware realm decodes to one that claims a length beyond its
  436 bytes of padding: for a checked configuration with a register threshold of at least 1 and addresses
  that \<open>req\<close> can be joined to, when the PIN can be hashed, every realm has its session slot and the
  sessions have a nonce left for each of the two requests per realm.\<close>

theorem registration_never_panics:
  fixes E :: "('w, 'u, 's::field, 'p, 'ed) env"
  assumes "executor_ok E" and "prim_laws (env_prims E)"
    and "\<And>realm. realm \<in> set (crealms configuration) \<Longrightarrow> short_answers E realm"
    and "checked_configuration_from c = Some configuration" and "1 \<le> register_threshold c"
    and "user_secret_from b = Some secret"
    and "\<And>version. \<exists>a s. pin_hash (env_prims E) pin
      (config_pin_hashing_mode (the_configuration configuration)) version info = Some (Some (a, s))"
    and "\<And>realm. realm \<in> set (crealms configuration) \<Longrightarrow> joinable E realm"
    and "session_budget (realm_id ` set (crealms configuration)) (2 * length (crealms configuration)) st"
  shows "perform_register E configuration pin secret info policy st \<noteq> None"
  by (rule perform_register_total [OF assms])

text \<open>A registration makes at most \<open>20 n\<close> HTTP requests to \<open>n\<close> realms.\<close>

lemma registration_request_bound:
  assumes "logged E log" and "executor_ok E" and "checked_configuration_from c = Some configuration"
    and "perform_register E configuration pin secret info policy st = Some (r, st')"
  shows "\<exists>qs. log (world st') = log (world st) @ qs \<and> length qs \<le> 20 * length (crealms configuration)"
  using sendsD [OF sends_perform_register [OF assms(1,2) checked_configuration_from_ok [OF assms(3)]] assms(4)]
  by blast

end
