(* ===== verification/Recover.thy ===== *)
theory Recover
  imports Request
begin

text \<open>
  Recovery (rust/sdk/src/recover.rs): phase 1 finds a version that enough realms agree on,
  phase 2 evaluates the OPRF obliviously and checks the result against the realms' common
  commitment, phase 3 collects the shares of the encryption key, and the secret is decrypted.
\<close>

section \<open>Errors\<close>

datatype recover_error =
    InvalidPin u16
  | NotRegistered
  | InvalidAuth
  | UpgradeRequired
  | RateLimitExceeded
  | Assertion
  | Transient

text \<open>The derived \<open>Ord\<close>: the order of the variants, then of the guesses.\<close>

fun recover_rank :: "recover_error \<Rightarrow> nat" where
  "recover_rank (InvalidPin guesses_remaining) = unat guesses_remaining"
| "recover_rank NotRegistered = 65536"
| "recover_rank InvalidAuth = 65537"
| "recover_rank UpgradeRequired = 65538"
| "recover_rank RateLimitExceeded = 65539"
| "recover_rank Assertion = 65540"
| "recover_rank Transient = 65541"

lemma unat_u16_less: "unat (g :: u16) < 65536"
  using unat_bound [of g] by simp

lemma recover_rank_inject: "recover_rank a = recover_rank b \<longleftrightarrow> a = b"
proof -
  have "unat (g :: u16) \<noteq> 65536 + k" "65536 + k \<noteq> unat g" for g k
    using unat_u16_less [of g] by simp_all
  from this [of _ 0] this [of _ 1] this [of _ 2] this [of _ 3] this [of _ 4] this [of _ 5]
  show ?thesis
    by (cases a; cases b) (simp_all add: word_unat_eq_iff)
qed

instantiation recover_error :: linorder
begin

definition less_eq_recover_error :: "recover_error \<Rightarrow> recover_error \<Rightarrow> bool" where
  "less_eq_recover_error a b \<longleftrightarrow> recover_rank a \<le> recover_rank b"

definition less_recover_error :: "recover_error \<Rightarrow> recover_error \<Rightarrow> bool" where
  "less_recover_error a b \<longleftrightarrow> recover_rank a < recover_rank b"

instance
  by standard (auto simp: less_eq_recover_error_def less_recover_error_def recover_rank_inject)

end

fun recover_error_from :: "request_error \<Rightarrow> recover_error" where
  "recover_error_from request_error.UpgradeRequired = UpgradeRequired"
| "recover_error_from request_error.InvalidAuth = InvalidAuth"
| "recover_error_from request_error.Assertion = Assertion"
| "recover_error_from request_error.Transient = Transient"
| "recover_error_from request_error.RateLimitExceeded = RateLimitExceeded"

section \<open>The three phases on one realm\<close>

definition recover1_on_realm ::
  "('w, 'u, 's, 'p, 'ed) env \<Rightarrow> 'u realm \<Rightarrow>
     ('w client_state, recover_error, registration_version \<times> 'u realm) step" where
  "recover1_on_realm E realm =
     io_match (make_request E realm Recover1) (\<lambda>r. case r of
         Err e \<Rightarrow> io_err (recover_error_from e)
       | Ok (Recover1Response response) \<Rightarrow>
           (case response of
              Recover1Ok version \<Rightarrow> io_return (version, realm)
            | Recover1NotRegistered \<Rightarrow> io_err NotRegistered
            | Recover1NoGuesses \<Rightarrow> io_err (InvalidPin 0))
       | Ok _ \<Rightarrow> io_err Assertion)"

definition check_recover2 ::
  "('w, 'u, 's::field, 'p::ab_group_add, 'ed) env \<Rightarrow> 'u realm \<Rightarrow> 'u checked_configuration \<Rightarrow>
     'p blinded_input \<Rightarrow> ('s, 'p) recover2_ok \<Rightarrow>
     ('w client_state, recover_error,
       oprf_verifying_key \<times> 'p share \<times> unlock_key_commitment \<times> u16) step" where
  "check_recover2 E realm configuration oprf_blinded_input ok =
     io_bind (io_panics (checked_minus (env_build E) (ok_num_guesses ok) (ok_guess_count ok)))
       (\<lambda>guesses_remaining.
     io_bind (io_panics (verify_signed_key (env_prims E) (ok_signed_public_key ok) (realm_id realm))) (\<lambda>r.
     io_bind (io_result (map_err (\<lambda>_. Assertion) r)) (\<lambda>_.
     io_bind (io_panics (oprf_verify_proof (env_build E) (env_curve E) oprf_blinded_input
       (ok_blinded_result ok) (signed_public_key (ok_signed_public_key ok)) (ok_proof ok))) (\<lambda>r.
     io_bind (io_result (map_err (\<lambda>_. Assertion) r)) (\<lambda>_.
     io_bind (io_result (ok_or Assertion (share_index configuration (realm_id realm)))) (\<lambda>index.
     io_return (verifying_key (ok_signed_public_key ok),
       \<lparr>share_idx = index, share_secret = to_point (ok_blinded_result ok)\<rparr>,
       ok_unlock_key_commitment ok, guesses_remaining)))))))"

definition recover2_on_realm ::
  "('w, 'u, 's::field, 'p::ab_group_add, 'ed) env \<Rightarrow> 'u realm \<Rightarrow> 'u checked_configuration \<Rightarrow>
     registration_version \<Rightarrow> 'p blinded_input \<Rightarrow>
     ('w client_state, recover_error,
       oprf_verifying_key \<times> 'p share \<times> unlock_key_commitment \<times> u16) step" where
  "recover2_on_realm E realm configuration version oprf_blinded_input =
     io_match (make_request E realm
       (Recover2 \<lparr>rec2_version = version, rec2_oprf_blinded_input = oprf_blinded_input\<rparr>)) (\<lambda>r. case r of
         Err e \<Rightarrow> io_err (recover_error_from e)
       | Ok (Recover2Response rr) \<Rightarrow>
           (case rr of
              Recover2Ok ok \<Rightarrow> check_recover2 E realm configuration oprf_blinded_input ok
            | Recover2VersionMismatch \<Rightarrow> io_err Assertion
            | Recover2NotRegistered \<Rightarrow> io_err NotRegistered
            | Recover2NoGuesses \<Rightarrow> io_err (InvalidPin 0))
       | Ok _ \<Rightarrow> io_err Assertion)"

definition recover3_on_realm ::
  "('w, 'u, 's, 'p, 'ed) env \<Rightarrow> 'u realm \<Rightarrow> 'u checked_configuration \<Rightarrow> registration_version \<Rightarrow>
     unlock_key_tag \<Rightarrow>
     ('w client_state, recover_error,
       's share \<times> encrypted_user_secret \<times> encrypted_user_secret_commitment \<times> 'u realm) step" where
  "recover3_on_realm E realm configuration version unlock_key_tag =
     io_match (make_request E realm
       (Recover3 \<lparr>rec3_version = version, rec3_unlock_key_tag = unlock_key_tag\<rparr>)) (\<lambda>r. case r of
         Err e \<Rightarrow> io_err (recover_error_from e)
       | Ok (Recover3Response rr) \<Rightarrow>
           (case rr of
              Recover3Ok share encrypted_secret encrypted_secret_commitment \<Rightarrow>
                io_bind (io_result (ok_or Assertion (share_index configuration (realm_id realm)))) (\<lambda>index.
                io_return (\<lparr>share_idx = index, share_secret = share_scalar share\<rparr>,
                  encrypted_secret, encrypted_secret_commitment, realm))
            | Recover3NotRegistered \<Rightarrow> io_err NotRegistered
            | Recover3NoGuesses \<Rightarrow> io_err (InvalidPin 0)
            | BadUnlockKeyTag guesses_remaining \<Rightarrow> io_err (InvalidPin guesses_remaining)
            | Recover3VersionMismatch \<Rightarrow> io_err Assertion)
       | Ok _ \<Rightarrow> io_err Assertion)"

section \<open>Agreement among realms\<close>

text \<open>
  Group by key, \<open>retain\<close> the groups of at least \<open>threshold\<close> entries, assert that there is at
  most one, and take it.
\<close>

definition consensus :: "u32 \<Rightarrow> ('k \<times> 'v) list \<Rightarrow> ('k \<times> 'v list) option panics" where
  "consensus threshold entries = do {
     let retained = filter (\<lambda>(k, vs). unat threshold \<le> length vs) (group_entries entries []);
     assert_that (length retained \<le> 1);
     Some (case retained of [] \<Rightarrow> None | g # _ \<Rightarrow> Some g)
   }"

section \<open>The phases across realms\<close>

definition recover_phase1 ::
  "('w, 'u, 's, 'p, 'ed) env \<Rightarrow> 'u checked_configuration \<Rightarrow>
     ('w client_state, recover_error, registration_version \<times> 'u realm list) step" where
  "recover_phase1 E configuration =
     (let threshold = recover_threshold (the_configuration configuration) in
      io_bind (join_at_least_threshold E (map (recover1_on_realm E) (crealms configuration)) threshold)
        (\<lambda>found.
      io_bind (io_panics (consensus threshold found)) (\<lambda>agreed.
      io_result (ok_or NotRegistered agreed))))"

text \<open>
  Phase 2 first collects the evaluations and takes the group that agrees on the commitment
  and the verifying key.
\<close>

definition recover2_agreement ::
  "('w, 'u, 's::field, 'p::ab_group_add, 'ed) env \<Rightarrow> 'u checked_configuration \<Rightarrow>
     registration_version \<Rightarrow> 'u realm list \<Rightarrow> 'p blinded_input \<Rightarrow>
     ('w client_state, recover_error,
       (unlock_key_commitment \<times> oprf_verifying_key) \<times> ('p share \<times> u16) list) step" where
  "recover2_agreement E configuration version realm_list oprf_blinded_input =
     (let threshold = recover_threshold (the_configuration configuration) in
      io_bind (join_at_least_threshold E
        (map (\<lambda>realm. recover2_on_realm E realm configuration version oprf_blinded_input) realm_list)
        threshold) (\<lambda>results.
      io_bind (io_panics (consensus threshold
        (map (\<lambda>(vk, share, commitment, guesses). ((commitment, vk), (share, guesses))) results))) (\<lambda>agreed.
      io_result (ok_or Assertion agreed))))"

text \<open>
  Then it unblinds the recovered point and compares the commitments; a wrong PIN is reported
  with the least number of guesses left.
\<close>

definition unlock_from_shares ::
  "('w, 'u, 's::field, 'p::ab_group_add, 'ed) env \<Rightarrow> bytes \<Rightarrow> 's blinding_factor \<Rightarrow>
     unlock_key_commitment \<Rightarrow> ('p share \<times> u16) list \<Rightarrow> ('w client_state, recover_error, unlock_key) step" where
  "unlock_from_shares E inp oprf_blinding_factor unlock_key_commitment shares_and_guesses =
     (let shares = map fst shares_and_guesses; all_guesses_remaining = map snd shares_and_guesses in
      case recover_secret (scalar_from (env_curve E)) (point_mul (env_curve E)) shares of
        Err DuplicateShares \<Rightarrow> io_err Assertion
      | Ok blinded_result \<Rightarrow>
          (let oprf_result = oprf_finalize (env_curve E) (env_prims E) inp oprf_blinding_factor
                 (blinded_output_from (env_curve E) blinded_result);
               (unlock_key, our_commitment) = derive_unlock_key_and_commitment (env_prims E) oprf_result
           in if \<not> unlock_commitment_eq unlock_key_commitment our_commitment
              then io_bind (io_panics (min_value all_guesses_remaining)) (\<lambda>guesses_remaining.
                   io_err (InvalidPin guesses_remaining))
              else io_return unlock_key))"

definition recover_phase2 ::
  "('w, 'u, 's::field, 'p::ab_group_add, 'ed) env \<Rightarrow> 'u checked_configuration \<Rightarrow>
     registration_version \<Rightarrow> 'u realm list \<Rightarrow> user_secret_access_key \<Rightarrow>
     ('w client_state, recover_error, unlock_key) step" where
  "recover_phase2 E configuration version realm_list access_key =
     (let inp = bytes_of (expose_access_key access_key) in
      io_bind (io_world (oprf_start (env_curve E) inp (env_random_scalar E)))
        (\<lambda>(oprf_blinding_factor, oprf_blinded_input).
      io_bind (recover2_agreement E configuration version realm_list oprf_blinded_input)
        (\<lambda>((unlock_key_commitment, _), shares_and_guesses).
      unlock_from_shares E inp oprf_blinding_factor unlock_key_commitment shares_and_guesses)))"

text \<open>The loop of phase 3: a share whose commitment does not match is skipped.\<close>

fun accepted_shares ::
  "('w, 'u, 's, 'p, 'ed) env \<Rightarrow> unlock_key \<Rightarrow>
     ('s share \<times> encrypted_user_secret \<times> encrypted_user_secret_commitment \<times> 'u realm) list \<Rightarrow>
     (encrypted_user_secret \<times> 's share) list panics" where
  "accepted_shares E unlock_key [] = Some []"
| "accepted_shares E unlock_key ((share, encrypted_secret, commitment, realm) # rest) = do {
     our_commitment \<leftarrow> secret_commitment_derive (env_curve E) (env_prims E) unlock_key (realm_id realm)
       (ScalarShare (share_secret share)) encrypted_secret;
     accepted \<leftarrow> accepted_shares E unlock_key rest;
     Some (if secret_commitment_eq our_commitment commitment
           then (encrypted_secret, share) # accepted else accepted)
   }"

definition recover3_requests ::
  "('w, 'u, 's, 'p, 'ed) env \<Rightarrow> 'u checked_configuration \<Rightarrow> registration_version \<Rightarrow> unlock_key \<Rightarrow>
     'u realm list \<Rightarrow>
     ('w client_state, recover_error,
       's share \<times> encrypted_user_secret \<times> encrypted_user_secret_commitment \<times> 'u realm) step list panics" where
  "recover3_requests E configuration version unlock_key realm_list =
     those (map (\<lambda>realm. map_option (recover3_on_realm E realm configuration version)
       (unlock_key_tag_derive (env_prims E) unlock_key (realm_id realm))) realm_list)"

definition recover_phase3 ::
  "('w, 'u, 's::field, 'p, 'ed) env \<Rightarrow> 'u checked_configuration \<Rightarrow> registration_version \<Rightarrow>
     'u realm list \<Rightarrow> unlock_key \<Rightarrow> encryption_key_seed \<Rightarrow>
     ('w client_state, recover_error, encrypted_user_secret \<times> encryption_key) step" where
  "recover_phase3 E configuration version realm_list unlock_key encryption_key_seed =
     (let threshold = recover_threshold (the_configuration configuration) in
      io_bind (io_panics (recover3_requests E configuration version unlock_key realm_list)) (\<lambda>requests.
      io_bind (join_at_least_threshold E requests threshold) (\<lambda>results.
      io_bind (io_panics (accepted_shares E unlock_key results)) (\<lambda>accepted.
      io_bind (io_panics (consensus threshold accepted)) (\<lambda>agreed.
      io_bind (io_result (ok_or Assertion agreed)) (\<lambda>(encrypted_secret, shares).
      case recover_secret (scalar_from (env_curve E)) (*) shares of
        Ok secret \<Rightarrow>
          io_bind (io_panics (encryption_key_derive (env_curve E) (env_prims E) encryption_key_seed
            (EncryptionKeyScalar secret))) (\<lambda>encryption_key.
          io_return (encrypted_secret, encryption_key))
      | Err _ \<Rightarrow> io_err Assertion))))))"

text \<open>Everything before the final decryption, and the decryption.\<close>

definition recover_key ::
  "('w, 'u, 's::field, 'p::ab_group_add, 'ed) env \<Rightarrow> pin \<Rightarrow> user_info \<Rightarrow> 'u checked_configuration \<Rightarrow>
     ('w client_state, recover_error, encrypted_user_secret \<times> encryption_key) step" where
  "recover_key E pin info configuration =
     io_bind (recover_phase1 E configuration) (\<lambda>(version, found_realms).
     io_bind (io_panics (pin_hash (env_prims E) pin
       (config_pin_hashing_mode (the_configuration configuration)) version info)) (\<lambda>hashed.
     io_bind (io_panics hashed) (\<lambda>(access_key, encryption_key_seed).
     io_bind (recover_phase2 E configuration version found_realms access_key) (\<lambda>unlock_key.
     recover_phase3 E configuration version found_realms unlock_key encryption_key_seed))))"

definition perform_recover_with_configuration ::
  "('w, 'u, 's::field, 'p::ab_group_add, 'ed) env \<Rightarrow> pin \<Rightarrow> user_info \<Rightarrow> 'u checked_configuration \<Rightarrow>
     ('w client_state, recover_error, user_secret) step" where
  "perform_recover_with_configuration E pin info configuration =
     io_bind (recover_key E pin info configuration) (\<lambda>(encrypted_secret, encryption_key).
     io_panics (user_secret_decrypt (env_prims E) encrypted_secret encryption_key))"

text \<open>The loop over the current and the previous configurations.\<close>

fun recover_loop ::
  "('w, 'u, 's::field, 'p::ab_group_add, 'ed) env \<Rightarrow> pin \<Rightarrow> user_info \<Rightarrow> 'u checked_configuration \<Rightarrow>
     'u checked_configuration list \<Rightarrow> ('w client_state, recover_error, user_secret) step" where
  "recover_loop E pin info configuration [] =
     perform_recover_with_configuration E pin info configuration"
| "recover_loop E pin info configuration (next_configuration # rest) =
     io_match (perform_recover_with_configuration E pin info configuration) (\<lambda>r. case r of
         Ok secret \<Rightarrow> io_return secret
       | Err e \<Rightarrow> if e = NotRegistered then recover_loop E pin info next_configuration rest else io_err e)"

definition perform_recover ::
  "('w, 'u, 's::field, 'p::ab_group_add, 'ed) env \<Rightarrow> pin \<Rightarrow> user_info \<Rightarrow> 'u checked_configuration \<Rightarrow>
     'u checked_configuration list \<Rightarrow> ('w client_state, recover_error, user_secret) step" where
  "perform_recover E pin info configuration previous_configurations =
     recover_loop E pin info configuration previous_configurations"

section \<open>Agreement is unique\<close>

lemma groups_keys: "groups m xs \<Longrightarrow> fst ` set m = fst ` set xs"
  unfolding groups_def by (elim conjE)

lemma groups_values: "groups m xs \<Longrightarrow> (k, vs) \<in> set m \<Longrightarrow> vs = values_of k xs"
  unfolding groups_def by blast

lemma group_entries_values:
  assumes "(k, vs) \<in> set (group_entries xs [])"
  shows "vs = values_of k xs \<and> vs \<noteq> []"
proof -
  have eq: "fst ` set (group_entries xs []) = fst ` set xs"
    by (rule groups_keys [OF group_entries_groups])
  have "k \<in> fst ` set (group_entries xs [])"
    using assms by (rule image_eqI [rotated]) simp
  then have "k \<in> fst ` set xs"
    by (simp only: eq)
  then show ?thesis
    using groups_values [OF group_entries_groups assms] values_of_eq_Nil [of k xs] by simp
qed

lemma group_entries_mem:
  assumes "values_of k xs \<noteq> []"
  shows "(k, values_of k xs) \<in> set (group_entries xs [])"
proof -
  have "k \<in> fst ` set (group_entries xs [])"
    unfolding groups_keys [OF group_entries_groups] using assms
    by (simp only: values_of_eq_Nil not_not)
  then obtain vs where vs: "(k, vs) \<in> set (group_entries xs [])"
    by (elim imageE) (metis prod.collapse)
  from vs group_entries_values [OF vs] show ?thesis
    by (simp only:)
qed

lemma consensus_spec:
  assumes maj: "length entries < 2 * unat threshold"
  shows "\<exists>r. consensus threshold entries = Some r \<and>
    (\<forall>k vs. r = Some (k, vs) \<longleftrightarrow> unat threshold \<le> length vs \<and> vs = values_of k entries)"
proof -
  let ?f = "filter (\<lambda>(k, vs). unat threshold \<le> length vs) (group_entries entries [])"
  have one: "length ?f \<le> 1"
    by (rule majority_group_unique [OF group_entries_groups maj])
  have pos: "0 < unat threshold"
    using maj by (cases "unat threshold") auto
  have mem: "(k, vs) \<in> set ?f \<longleftrightarrow> unat threshold \<le> length vs \<and> vs = values_of k entries" for k vs
  proof
    assume "(k, vs) \<in> set ?f"
    then show "unat threshold \<le> length vs \<and> vs = values_of k entries"
      using group_entries_values by force
  next
    assume a: "unat threshold \<le> length vs \<and> vs = values_of k entries"
    then have "values_of k entries \<noteq> []"
      using pos by auto
    then show "(k, vs) \<in> set ?f"
      using a group_entries_mem by auto
  qed
  show ?thesis
  proof (rule filter_le_1_cases [OF one])
    assume "?f = []"
    then show ?thesis
      using mem by (simp add: consensus_def Let_def)
  next
    fix x assume x: "?f = [x]"
    have "x = (k, vs) \<longleftrightarrow> unat threshold \<le> length vs \<and> vs = values_of k entries" for k vs
      using mem [of k vs] unfolding x by auto
    with x show ?thesis
      by (simp add: consensus_def Let_def)
  qed
qed

lemma consensus_total: "length entries < 2 * unat threshold \<Longrightarrow> consensus threshold entries \<noteq> None"
  using consensus_spec by fastforce

lemma consensus_group:
  "consensus threshold entries = Some (Some (k, vs)) \<Longrightarrow>
     unat threshold \<le> length vs \<and> vs = values_of k entries \<and> vs \<noteq> []"
proof -
  let ?f = "filter (\<lambda>(k, vs). unat threshold \<le> length vs) (group_entries entries [])"
  assume c: "consensus threshold entries = Some (Some (k, vs))"
  then have le: "length ?f \<le> 1" and f: "(case ?f of [] \<Rightarrow> None | g # _ \<Rightarrow> Some g) = Some (k, vs)"
    unfolding consensus_def Let_def by (auto split: if_splits)
  have "(k, vs) \<in> set ?f"
    using f by (cases ?f) (simp_all only: list.case option.inject list.set insertI1 option.distinct)
  then show ?thesis
    using group_entries_values [of k vs entries] by auto
qed

lemma length_values_of: "length (values_of k xs) \<le> length xs"
  by (simp add: values_of_def)

section \<open>No panics\<close>

lemma verify_signed_key_total: "\<exists>r. verify_signed_key H k i = Some r"
  using signature_msg_total [of i "signed_public_key k"]
  by (auto simp: verify_signed_key_def split: option.split)

lemma oprf_verify_proof_total: "curve_laws C \<Longrightarrow> \<exists>r. oprf_verify_proof build C inp out key prf = Some r"
  by (auto simp: oprf_verify_proof_def dleq_verify_proof_total split: sum.split)

lemma accepted_shares_total:
  "\<exists>accepted. accepted_shares E unlock_key results = Some accepted \<and> length accepted \<le> length results"
proof (induction results)
  case (Cons x results)
  obtain share enc c realm where x: "x = (share, enc, c, realm)"
    by (cases x) auto
  obtain oc where "secret_commitment_derive (env_curve E) (env_prims E) unlock_key (realm_id realm)
      (ScalarShare (share_secret share)) enc = Some oc"
    using secret_commitment_total(2) by blast
  with Cons show ?case
    by (auto simp: x)
qed simp

context budget
begin

lemma recover_on_realm_post:
  fixes E :: "('w, 'u, 's::field, 'p::ab_group_add, 'ed) env"
  assumes "\<And>request. post B 1 (make_request E realm request) (\<lambda>_. True)"
  shows "post B 1 (recover1_on_realm E realm) (\<lambda>(v, r). r = realm)"
    and "post B 1 (recover3_on_realm E realm configuration version tag) (\<lambda>_. True)"
  unfolding recover1_on_realm_def recover3_on_realm_def
  by (auto intro!: post_match_last [OF assms] post_intros post_world_then post_result_then
      split: sum.split secrets_response.split recover1_response.split recover3_response.split simp del: One_nat_def)

lemma recover2_on_realm_post:
  fixes E :: "('w, 'u, 's::field, 'p::ab_group_add, 'ed) env"
  assumes "\<And>request. post B 1 (make_request E realm request) (\<lambda>_. True)"
    and laws: "curve_laws (env_curve E)" and rel: "env_build E = Release"
  shows "post B 1 (recover2_on_realm E realm configuration version inp) (\<lambda>_. True)"
proof -
  have "post B 0 (check_recover2 E realm configuration inp ok) (\<lambda>_. True)" for ok
  proof -
    obtain r where r: "verify_signed_key (env_prims E) (ok_signed_public_key ok) (realm_id realm) = Some r"
      using verify_signed_key_total by blast
    obtain q where q: "oprf_verify_proof (env_build E) (env_curve E) inp (ok_blinded_result ok)
        (signed_public_key (ok_signed_public_key ok)) (ok_proof ok) = Some q"
      using oprf_verify_proof_total [OF laws] by blast
    obtain c where c: "checked_minus (env_build E) (ok_num_guesses ok) (ok_guess_count ok) = Some c"
      using rel by simp
    show ?thesis
      unfolding check_recover2_def r q c
      by (auto intro!: post_intros post_result_then)
  qed
  then show ?thesis
    unfolding recover2_on_realm_def
    by (auto intro!: post_match_last [OF assms(1)] post_intros simp del: One_nat_def
        split: sum.split secrets_response.split recover2_response.split)
qed

lemma recover_phase1_post:
  fixes E :: "('w, 'u, 's::field, 'p::ab_group_add, 'ed) env"
  assumes ok: "executor_ok E" and cfg: "checked_ok configuration"
    and req: "\<And>realm request. realm \<in> set (crealms configuration) \<Longrightarrow>
      post B 1 (make_request E realm request) (\<lambda>_. True)"
  shows "post B (length (crealms configuration)) (recover_phase1 E configuration) (\<lambda>(version, found).
    unat (recover_threshold (the_configuration configuration)) \<le> length found \<and>
    length found \<le> length (crealms configuration) \<and> set found \<subseteq> set (crealms configuration))"
proof -
  let ?t = "recover_threshold (the_configuration configuration)" and ?n = "length (crealms configuration)"
  have t: "0 < unat ?t" "unat ?t \<le> ?n" "?n < 2 * unat ?t"
    using cfg by (auto simp: checked_ok_def configuration_ok_def)
  have "post B (length (map (recover1_on_realm E) (crealms configuration)) * 1)
      (join_at_least_threshold E (map (recover1_on_realm E) (crealms configuration)) ?t)
    (\<lambda>oks. unat ?t \<le> length oks \<and> length oks \<le> length (map (recover1_on_realm E) (crealms configuration)) \<and>
      (\<forall>x \<in> set oks. snd x \<in> set (crealms configuration)))"
  proof (rule post_join [OF ok])
    fix f assume "f \<in> set (map (recover1_on_realm E) (crealms configuration))"
    then obtain realm where realm: "realm \<in> set (crealms configuration)" "f = recover1_on_realm E realm"
      by auto
    show "post B 1 f (\<lambda>x. snd x \<in> set (crealms configuration))"
      using recover_on_realm_post(1) [OF req [OF realm(1)]] realm
      by (auto elim!: post_mono)
  qed (use t in simp_all)
  then have join: "post B ?n (join_at_least_threshold E (map (recover1_on_realm E) (crealms configuration)) ?t)
    (\<lambda>oks. length oks \<le> ?n \<and> snd ` set oks \<subseteq> set (crealms configuration))"
    by (rule post_weaken) auto
  show ?thesis
    unfolding recover_phase1_def Let_def
  proof (rule post_last [OF join])
    fix found assume found: "length found \<le> ?n \<and> snd ` set found \<subseteq> set (crealms configuration)"
    have "consensus ?t found \<noteq> None"
      by (rule consensus_total) (use found t in simp)
    then obtain agreed where agreed: "consensus ?t found = Some agreed"
      by blast
    have grp: "unat ?t \<le> length vs \<and> length vs \<le> ?n \<and> set vs \<subseteq> set (crealms configuration)"
      if "agreed = Some (version, vs)" for version vs
    proof -
      have "unat ?t \<le> length vs" "vs = values_of version found"
        using consensus_group [of ?t found version vs] agreed that by auto
      moreover have "set (values_of version found) \<subseteq> snd ` set found"
        by (auto simp: values_of_def)
      ultimately show ?thesis
        using found length_values_of [of version found] by auto
    qed
    show "post B 0 (io_bind (io_panics (consensus ?t found)) (\<lambda>agreed. io_result (ok_or NotRegistered agreed)))
      (\<lambda>(version, found). unat ?t \<le> length found \<and> length found \<le> ?n \<and>
        set found \<subseteq> set (crealms configuration))"
      unfolding agreed io_bind_panics by (rule post_intros) (use grp in auto)
  qed
qed

lemma recover2_agreement_post:
  fixes E :: "('w, 'u, 's::field, 'p::ab_group_add, 'ed) env"
  assumes ok: "executor_ok E" and laws: "curve_laws (env_curve E)" and rel: "env_build E = Release"
    and t: "0 < unat (recover_threshold (the_configuration configuration))"
      "unat (recover_threshold (the_configuration configuration)) \<le> length found"
      "length found < 2 * unat (recover_threshold (the_configuration configuration))"
    and req: "\<And>realm request. realm \<in> set found \<Longrightarrow> post B 1 (make_request E realm request) (\<lambda>_. True)"
  shows "post B (length found) (recover2_agreement E configuration version found blinded) (\<lambda>(k, grp). grp \<noteq> [])"
proof -
  let ?t = "recover_threshold (the_configuration configuration)"
  let ?entries = "map (\<lambda>(vk, share, commitment, guesses). ((commitment, vk), (share, guesses)))"
  have join: "post B (length found) (join_at_least_threshold E
      (map (\<lambda>realm. recover2_on_realm E realm configuration version blinded) found) ?t)
      (\<lambda>oks. length oks \<le> length found)"
  proof -
    have "post B 1 f (\<lambda>_. True)"
      if "f \<in> set (map (\<lambda>realm. recover2_on_realm E realm configuration version blinded) found)" for f
      using that recover2_on_realm_post [OF req laws rel] by auto
    then show ?thesis
      using post_mono [OF post_join_each [OF ok t(1), of "map (\<lambda>realm. recover2_on_realm E realm configuration version blinded) found"],
          of "\<lambda>oks. length oks \<le> length found"] t(2) by simp
  qed
  have "post B 0 (io_bind (io_panics (consensus ?t (?entries results))) (\<lambda>agreed.
      io_result (ok_or Assertion agreed))) (\<lambda>(k, grp). grp \<noteq> [])"
    if len: "length results \<le> length found" for results
  proof -
    have "consensus ?t (?entries results) \<noteq> None"
      by (rule consensus_total) (use len t in simp)
    then obtain agreed where agreed: "consensus ?t (?entries results) = Some agreed"
      by blast
    have "grp \<noteq> []" if "agreed = Some (k, grp)" for k grp
      using consensus_group [of ?t "?entries results" k grp] agreed that by blast
    then show ?thesis
      unfolding agreed io_bind_panics by (intro post_intros(3)) auto
  qed
  then show ?thesis
    unfolding recover2_agreement_def Let_def by (rule post_last [OF join])
qed

lemma unlock_from_shares_post:
  fixes E :: "('w, 'u, 's::field, 'p::ab_group_add, 'ed) env"
  assumes "grp \<noteq> []"
  shows "post B 0 (unlock_from_shares E inp factor commitment grp) (\<lambda>_. True)"
proof -
  have "min_value (map snd grp) = Some (Min (set (map snd grp)))"
    using assms by (intro min_value_eq) simp
  then show ?thesis
    unfolding unlock_from_shares_def
    by (auto simp: Let_def split_beta intro!: post_intros split: sum.split recover_secret_error.split)
qed

lemma recover_phase2_post:
  fixes E :: "('w, 'u, 's::field, 'p::ab_group_add, 'ed) env"
  assumes "executor_ok E" and "curve_laws (env_curve E)" and "env_build E = Release"
    and "0 < unat (recover_threshold (the_configuration configuration))"
      "unat (recover_threshold (the_configuration configuration)) \<le> length found"
      "length found < 2 * unat (recover_threshold (the_configuration configuration))"
    and "\<And>realm request. realm \<in> set found \<Longrightarrow> post B 1 (make_request E realm request) (\<lambda>_. True)"
  shows "post B (length found) (recover_phase2 E configuration version found access_key) (\<lambda>_. True)"
  unfolding recover_phase2_def Let_def split_beta
  by (rule post_world_then, rule post_last [OF recover2_agreement_post])
    (use assms unlock_from_shares_post in \<open>auto simp: split_beta\<close>)

lemma recover3_requests_post:
  fixes E :: "('w, 'u, 's::field, 'p::ab_group_add, 'ed) env"
  assumes req: "\<And>realm request. realm \<in> set found \<Longrightarrow> post B 1 (make_request E realm request) (\<lambda>_. True)"
  obtains requests where "recover3_requests E configuration version unlock_key found = Some requests"
    and "length requests = length found" and "\<And>f. f \<in> set requests \<Longrightarrow> post B 1 f (\<lambda>_. True)"
proof -
  let ?request = "\<lambda>realm. map_option (recover3_on_realm E realm configuration version)
    (unlock_key_tag_derive (env_prims E) unlock_key (realm_id realm))"
  have "\<exists>y. ?request realm = Some y" for realm
    using tag_derive_total(2) [of "env_prims E" unlock_key "realm_id realm"] by auto
  then have "\<exists>requests. recover3_requests E configuration version unlock_key found = Some requests"
    unfolding recover3_requests_def by (intro those_Some)
  then obtain requests where
    requests: "recover3_requests E configuration version unlock_key found = Some requests"
    by blast
  moreover have "length requests = length found"
    using requests length_those unfolding recover3_requests_def by fastforce
  moreover have "post B 1 f (\<lambda>_. True)" if f: "f \<in> set requests" for f
  proof -
    have "Some f \<in> set (map ?request found)"
      using set_those [OF requests [unfolded recover3_requests_def] f] .
    then obtain realm where "realm \<in> set found" "?request realm = Some f"
      by (metis (no_types, lifting) imageE list.set_map)
    then have "\<exists>realm tag. realm \<in> set found \<and> f = recover3_on_realm E realm configuration version tag"
      by auto
    then show ?thesis
      using recover_on_realm_post(2) req by blast
  qed
  ultimately show thesis
    by (rule that)
qed

lemma recover3_finish_post:
  fixes E :: "('w, 'u, 's::field, 'p::ab_group_add, 'ed) env"
  assumes "length results < 2 * unat t"
  shows "post B 0 (io_bind (io_panics (accepted_shares E unlock_key results)) (\<lambda>accepted.
      io_bind (io_panics (consensus t accepted)) (\<lambda>agreed.
      io_bind (io_result (ok_or Assertion agreed)) (\<lambda>(encrypted_secret, shares).
      case recover_secret (scalar_from (env_curve E)) (*) shares of
        Ok secret \<Rightarrow>
          io_bind (io_panics (encryption_key_derive (env_curve E) (env_prims E) seed
            (EncryptionKeyScalar secret))) (\<lambda>encryption_key.
          io_return (encrypted_secret, encryption_key))
      | Err _ \<Rightarrow> io_err Assertion)))) (\<lambda>_. True)"
proof -
  have fin: "post B 0 (case recover_secret (scalar_from (env_curve E)) (*) shares of
        Ok secret \<Rightarrow>
          io_bind (io_panics (encryption_key_derive (env_curve E) (env_prims E) seed
            (EncryptionKeyScalar secret))) (\<lambda>encryption_key.
          io_return (encrypted_secret, encryption_key))
      | Err _ \<Rightarrow> io_err Assertion) (\<lambda>_. True)" for shares encrypted_secret
    using encryption_key_derive_total [of "env_curve E" "env_prims E" seed]
    by (auto intro!: post_intros split: sum.split)
      (metis (mono_tags, lifting) io_bind_panics post_intros(1))
  obtain accepted where acc: "accepted_shares E unlock_key results = Some accepted"
      "length accepted \<le> length results"
    using accepted_shares_total by blast
  have "consensus t accepted \<noteq> None"
    by (rule consensus_total) (use acc(2) assms in simp)
  then obtain agreed where "consensus t accepted = Some agreed"
    by blast
  with acc(1) show ?thesis
    by (auto intro!: post_result_then fin)
qed

lemma recover_phase3_post:
  fixes E :: "('w, 'u, 's::field, 'p::ab_group_add, 'ed) env"
  assumes ok: "executor_ok E"
    and t: "0 < unat (recover_threshold (the_configuration configuration))"
      "unat (recover_threshold (the_configuration configuration)) \<le> length found"
      "length found < 2 * unat (recover_threshold (the_configuration configuration))"
    and req: "\<And>realm request. realm \<in> set found \<Longrightarrow> post B 1 (make_request E realm request) (\<lambda>_. True)"
  shows "post B (length found) (recover_phase3 E configuration version found unlock_key seed) (\<lambda>_. True)"
proof -
  let ?t = "recover_threshold (the_configuration configuration)"
  obtain requests where requests: "recover3_requests E configuration version unlock_key found = Some requests"
    and len: "length requests = length found" and one: "\<And>f. f \<in> set requests \<Longrightarrow> post B 1 f (\<lambda>_. True)"
    by (rule recover3_requests_post [where found = found and configuration = configuration and version = version and
          unlock_key = unlock_key, OF req]) (assumption, rule that)
  have join: "post B (length found) (join_at_least_threshold E requests ?t) (\<lambda>oks. length oks \<le> length found)"
    using post_mono [OF post_join_each [OF ok t(1), of requests], of "\<lambda>oks. length oks \<le> length found"] t(2) len one by auto
  show ?thesis
    unfolding recover_phase3_def Let_def requests io_bind_panics
    by (rule post_last [OF join]) (rule recover3_finish_post, use t(3) in simp)
qed

lemma recover_key_post:
  fixes E :: "('w, 'u, 's::field, 'p::ab_group_add, 'ed) env"
  assumes ok: "executor_ok E" and cfg: "checked_ok configuration"
    and laws: "curve_laws (env_curve E)" and rel: "env_build E = Release"
    and req: "\<And>realm request. realm \<in> set (crealms configuration) \<Longrightarrow>
      post B 1 (make_request E realm request) (\<lambda>_. True)"
    and pin: "\<And>version. \<exists>a s. pin_hash (env_prims E) pin
      (config_pin_hashing_mode (the_configuration configuration)) version info = Some (Some (a, s))"
  shows "post B (length (crealms configuration) + (length (crealms configuration) + length (crealms configuration)))
    (recover_key E pin info configuration) (\<lambda>_. True)"
  unfolding recover_key_def
proof (rule post_bind [OF recover_phase1_post [OF ok cfg req]])
  fix x :: "registration_version \<times> 'u realm list"
  let ?n = "length (crealms configuration)"
  let ?t = "recover_threshold (the_configuration configuration)"
  assume "case x of (version, found) \<Rightarrow> unat ?t \<le> length found \<and>
    length found \<le> length (crealms configuration) \<and> set found \<subseteq> set (crealms configuration)"
  then obtain version found where x: "x = (version, found)" "unat ?t \<le> length found"
      "length found \<le> length (crealms configuration)" "set found \<subseteq> set (crealms configuration)"
    by (cases x) auto
  obtain a s where hash: "pin_hash (env_prims E) pin
      (config_pin_hashing_mode (the_configuration configuration)) version info = Some (Some (a, s))"
    using pin by blast
  have t: "0 < unat ?t" "length found < 2 * unat ?t"
    using cfg x(3) by (auto simp: checked_ok_def configuration_ok_def)
  have req': "realm \<in> set found \<Longrightarrow> post B 1 (make_request E realm request) (\<lambda>_. True)" for realm request
    using req x(4) by auto
  have after: "post B (?n + ?n) (io_bind (recover_phase2 E configuration version found a) (\<lambda>unlock_key.
      recover_phase3 E configuration version found unlock_key s)) (\<lambda>_. True)"
    by (rule post_weaken [OF post_bind [OF recover_phase2_post [OF ok laws rel t(1) x(2) t(2) req']
          recover_phase3_post [OF ok t(1) x(2) t(2) req']]]) (use x(3) in simp_all)
  show "post B (?n + ?n) (case x of (version, found_realms) \<Rightarrow>
      io_bind (io_panics (pin_hash (env_prims E) pin
        (config_pin_hashing_mode (the_configuration configuration)) version info)) (\<lambda>hashed.
      io_bind (io_panics hashed) (\<lambda>(access_key, encryption_key_seed).
      io_bind (recover_phase2 E configuration version found_realms access_key) (\<lambda>unlock_key.
      recover_phase3 E configuration version found_realms unlock_key encryption_key_seed)))) (\<lambda>_. True)"
    unfolding x(1) prod.case hash io_bind_panics by (rule after)
qed simp

end

section \<open>What recovery sends\<close>

lemma sends_check_recover2: "sends log 0 Q (check_recover2 E realm configuration inp ok)"
  unfolding check_recover2_def by (intro sends_bind_pure sends_pure)

lemma sends_recover_on_realm:
  assumes "logged E log"
  shows "sends log 10 posts (recover1_on_realm E realm)"
    and "sends log 10 posts (recover2_on_realm E realm configuration version blinded)"
    and "sends log 10 posts (recover3_on_realm E realm configuration version tag)"
  unfolding recover1_on_realm_def recover2_on_realm_def recover3_on_realm_def
  by (auto intro!: sends_match_pure sends_make_request [OF assms] sends_pure sends_check_recover2
      sends_bind_pure split: sum.split secrets_response.split recover1_response.split
      recover2_response.split recover3_response.split)

lemma recover1_on_realm_returns:
  assumes "recover1_on_realm E realm st = Some (Ok x, st')"
  shows "snd x = realm"
proof -
  obtain q st1 where q: "make_request E realm Recover1 st = Some (q, st1)"
    using assms by (auto simp: recover1_on_realm_def io_match_Some)
  show ?thesis
  proof (cases q)
    case (Inl e)
    then show ?thesis
      using assms q by (simp add: recover1_on_realm_def io_match_def io_err_def)
  next
    case (Inr resp)
    show ?thesis
    proof (cases resp)
      case (Recover1Response response)
      then show ?thesis
        using assms q Inr
        by (cases response) (auto simp: recover1_on_realm_def io_match_def io_err_def io_return_def)
    qed (use assms q Inr in \<open>simp_all add: recover1_on_realm_def io_match_def io_err_def\<close>)
  qed
qed

lemma recover_phase1_returns:
  assumes ok: "executor_ok E" and run: "recover_phase1 E configuration st = Some (Ok (version, found), st')"
  shows "length found \<le> length (crealms configuration) \<and> set found \<subseteq> set (crealms configuration) \<and>
    unat (recover_threshold (the_configuration configuration)) \<le> length found"
proof -
  let ?t = "recover_threshold (the_configuration configuration)"
  let ?fs = "map (recover1_on_realm E) (crealms configuration)"
  obtain oks st1 where join: "join_at_least_threshold E ?fs ?t st = Some (Ok oks, st1)"
      and c: "consensus ?t oks = Some (Some (version, found))"
    using run unfolding recover_phase1_def Let_def
    by (auto simp: io_bind_Some io_panics_def io_result_def split: option.splits)
  have len: "length oks \<le> length (crealms configuration)"
    using join_Ok [OF ok join] by simp
  have "\<forall>x \<in> set oks. snd x \<in> set (crealms configuration)"
  proof (rule join_outcome [OF ok join])
    fix f st x st' assume f: "f \<in> set ?fs" "f st = Some (Ok x, st')"
    then obtain realm where "realm \<in> set (crealms configuration)" "f = recover1_on_realm E realm"
      by auto
    with f(2) recover1_on_realm_returns [of E realm st x st']
    show "snd x \<in> set (crealms configuration)"
      by simp
  qed
  then have "set (values_of version oks) \<subseteq> set (crealms configuration)"
    by (auto simp: values_of_def)
  moreover have "unat ?t \<le> length found" "found = values_of version oks"
    using consensus_group [OF c] by auto
  ultimately show ?thesis
    using len length_values_of [of version oks] by simp
qed

lemma recover3_requests_Some:
  assumes "recover3_requests E configuration version unlock_key found = Some requests"
  shows "length requests = length found \<and>
    (\<forall>f \<in> set requests. \<exists>realm tag. realm \<in> set found \<and> f = recover3_on_realm E realm configuration version tag)"
proof
  show "length requests = length found"
    using length_those [OF assms [unfolded recover3_requests_def]] by simp
  show "\<forall>f \<in> set requests. \<exists>realm tag. realm \<in> set found \<and>
      f = recover3_on_realm E realm configuration version tag"
  proof
    fix f assume "f \<in> set requests"
    then obtain realm where "realm \<in> set found"
        "map_option (recover3_on_realm E realm configuration version)
          (unlock_key_tag_derive (env_prims E) unlock_key (realm_id realm)) = Some f"
      using set_those [OF assms [unfolded recover3_requests_def]]
      by (metis (no_types, lifting) imageE list.set_map)
    then show "\<exists>realm tag. realm \<in> set found \<and> f = recover3_on_realm E realm configuration version tag"
      by auto
  qed
qed

lemma sends_phase2:
  assumes log: "logged E log" and ok: "executor_ok E"
  shows "sends log (10 * length found) posts (recover_phase2 E configuration version found access_key)"
proof -
  have "sends log (10 * length found) posts (recover2_agreement E configuration version found blinded)"
    for blinded
    unfolding recover2_agreement_def Let_def
    using sends_join [OF log ok, of "map (\<lambda>realm. recover2_on_realm E realm configuration version blinded) found" 10 posts]
    by (intro sends_bind_pure sends_pure)
      (auto simp: mult.commute intro: sends_recover_on_realm [OF log])
  moreover have "sends log 0 posts (unlock_from_shares E inp factor commitment grp)"
    for inp factor commitment grp
    unfolding unlock_from_shares_def Let_def split_beta
    by (auto intro!: sends_bind_pure sends_pure split: sum.split recover_secret_error.split)
  ultimately show ?thesis
    unfolding recover_phase2_def Let_def split_beta
    by (intro sends_bind [where a=0 and b="10 * length found"] sends_world sends_bind_pure)
      (auto simp: oprf_start_def Let_def split_beta loggedD [OF log])
qed

lemma sends_phase3:
  fixes E :: "('w, 'u, 's::field, 'p::ab_group_add, 'ed) env"
  assumes log: "logged E log" and ok: "executor_ok E"
  shows "sends log (10 * length found) posts (recover_phase3 E configuration version found unlock_key seed)"
  unfolding recover_phase3_def Let_def
proof (rule sends_bind_panics)
  fix requests assume r: "recover3_requests E configuration version unlock_key found = Some requests"
  have "sends log (length requests * 10) posts (join_at_least_threshold E requests
      (recover_threshold (the_configuration configuration)))"
  proof (rule sends_join [OF log ok])
    fix f assume "f \<in> set requests"
    then obtain realm tag where "f = recover3_on_realm E realm configuration version tag"
      using recover3_requests_Some [OF r] by auto
    then show "sends log 10 posts f"
      by (simp add: sends_recover_on_realm(3) [OF log])
  qed
  then have join: "sends log (10 * length found) posts (join_at_least_threshold E requests
      (recover_threshold (the_configuration configuration)))"
    using recover3_requests_Some [OF r] by (simp add: mult.commute)
  show "sends log (10 * length found) posts (io_bind (join_at_least_threshold E requests
      (recover_threshold (the_configuration configuration))) (\<lambda>results.
    io_bind (io_panics (accepted_shares E unlock_key results)) (\<lambda>accepted.
    io_bind (io_panics (consensus (recover_threshold (the_configuration configuration)) accepted)) (\<lambda>agreed.
    io_bind (io_result (ok_or Assertion agreed)) (\<lambda>(encrypted_secret, shares).
    case recover_secret (scalar_from (env_curve E)) (*) shares of
      Ok secret \<Rightarrow>
        io_bind (io_panics (encryption_key_derive (env_curve E) (env_prims E) seed
          (EncryptionKeyScalar secret))) (\<lambda>encryption_key.
        io_return (encrypted_secret, encryption_key))
    | Err _ \<Rightarrow> io_err Assertion)))))"
    by (intro sends_bind_pure [OF join]) (auto intro!: sends_bind_pure sends_pure split: sum.split)
qed

lemma sends_recover_key:
  assumes log: "logged E log" and ok: "executor_ok E"
  shows "sends log (30 * length (crealms configuration)) posts (recover_key E pin info configuration)"
proof -
  let ?n = "length (crealms configuration)"
  have p1: "sends log (10 * ?n) posts (recover_phase1 E configuration)"
    unfolding recover_phase1_def Let_def
    using sends_join [OF log ok, of "map (recover1_on_realm E) (crealms configuration)" 10 posts]
    by (intro sends_bind_pure sends_pure)
      (auto simp: mult.commute intro: sends_recover_on_realm [OF log])
  note p2 = sends_phase2 [OF log ok] and p3 = sends_phase3 [OF log ok]
  have "sends log (10 * ?n + 20 * ?n) posts (recover_key E pin info configuration)"
    unfolding recover_key_def
  proof (rule sends_bind_returns [OF p1, where P="\<lambda>(v, found). length found \<le> ?n"])
    show "\<And>st x st'. recover_phase1 E configuration st = Some (Ok x, st') \<Longrightarrow>
        (case x of (v, found) \<Rightarrow> length found \<le> ?n)"
      using recover_phase1_returns [OF ok] by auto
    fix x :: "registration_version \<times> 'b realm list"
    obtain version found where x: "x = (version, found)"
      by fastforce
    assume "case x of (v, found) \<Rightarrow> length found \<le> ?n"
    then have le: "10 * length found + 10 * length found \<le> 20 * ?n"
      by (simp add: x)
    show "sends log (20 * ?n) posts (case x of (version, found_realms) \<Rightarrow>
      io_bind (io_panics (pin_hash (env_prims E) pin
        (config_pin_hashing_mode (the_configuration configuration)) version info)) (\<lambda>hashed.
      io_bind (io_panics hashed) (\<lambda>(access_key, encryption_key_seed).
      io_bind (recover_phase2 E configuration version found_realms access_key) (\<lambda>unlock_key.
      recover_phase3 E configuration version found_realms unlock_key encryption_key_seed))))"
      unfolding x prod.case split_beta fst_conv snd_conv
      by (intro sends_bind_panics sends_bind [OF p2 p3 le])
  qed
  then show ?thesis
    by (simp add: algebra_simps)
qed

section \<open>The loop over configurations\<close>

lemma recover_loop_chain:
  "recover_loop E pin info c cs st = Some (r, st') \<Longrightarrow>
     \<exists>k st1. k \<le> length cs \<and>
       run_all (map (perform_recover_with_configuration E pin info) (take k (c # cs))) st =
         Some (replicate k (Err NotRegistered), st1) \<and>
       perform_recover_with_configuration E pin info ((c # cs) ! k) st1 = Some (r, st') \<and>
       (r = Err NotRegistered \<longrightarrow> k = length cs)"
proof (induction cs arbitrary: c st)
  case Nil
  then show ?case
    by (intro exI [of _ 0] exI [of _ st]) simp
next
  case (Cons d cs)
  obtain q st1 where q: "perform_recover_with_configuration E pin info c st = Some (q, st1)"
    using Cons.prems by (auto simp: io_match_Some)
  show ?case
  proof (cases "q = Err NotRegistered")
    case True
    then have "recover_loop E pin info d cs st1 = Some (r, st')"
      using Cons.prems q by (auto simp: io_match_def)
    from Cons.IH [OF this] obtain k st2 where k: "k \<le> length cs"
        "run_all (map (perform_recover_with_configuration E pin info) (take k (d # cs))) st1 =
          Some (replicate k (Err NotRegistered), st2)"
        "perform_recover_with_configuration E pin info ((d # cs) ! k) st2 = Some (r, st')"
        "r = Err NotRegistered \<longrightarrow> k = length cs"
      by blast
    then show ?thesis
      using q True by (intro exI [of _ "Suc k"] exI [of _ st2]) simp
  next
    case False
    then have "q = r" "st1 = st'"
      using Cons.prems q
      by (auto simp: io_match_def io_return_def io_err_def split: sum.splits if_splits)
    then show ?thesis
      using q False by (intro exI [of _ 0] exI [of _ st]) simp
  qed
qed

section \<open>The shares that are used\<close>

lemma accepted_shares_filter:
  "accepted_shares E unlock_key results = Some accepted \<Longrightarrow>
     accepted = map (\<lambda>(share, enc, c, realm). (enc, share))
       (filter (\<lambda>(share, enc, c, realm). secret_commitment_derive (env_curve E) (env_prims E) unlock_key
          (realm_id realm) (ScalarShare (share_secret share)) enc = Some c) results)"
proof (induction results arbitrary: accepted)
  case (Cons x results)
  obtain share enc c realm where x: "x = (share, enc, c, realm)"
    by (cases x) auto
  with Cons show ?case
    by (auto simp: bind_eq_Some_conv)
qed simp

lemma unlock_from_shares_outcome:
  assumes "unlock_from_shares E inp factor commitment grp st = Some (r, st')"
  shows "st' = st \<and>
    (case recover_secret (scalar_from (env_curve E)) (point_mul (env_curve E)) (map fst grp) of
       Err e \<Rightarrow> r = Err Assertion
     | Ok blinded_result \<Rightarrow>
         (let (unlock_key, our_commitment) = derive_unlock_key_and_commitment (env_prims E)
            (oprf_finalize (env_curve E) (env_prims E) inp factor
              (blinded_output_from (env_curve E) blinded_result))
          in r = (if commitment = our_commitment then Ok unlock_key
                  else Err (InvalidPin (Min (snd ` set grp))))))"
proof (cases "recover_secret (scalar_from (env_curve E)) (point_mul (env_curve E)) (map fst grp)")
  case (Inl e)
  then show ?thesis
    using assms by (cases e) (simp add: unlock_from_shares_def io_err_def)
next
  case (Inr b)
  show ?thesis
  proof (cases "grp = []")
    case True
    then show ?thesis
      using assms Inr by (auto simp: unlock_from_shares_def io_defs Let_def split_beta split: if_splits)
  next
    case False
    then have "min_value (map snd grp) = Some (Min (snd ` set grp))"
      using min_value_eq [of "map snd grp"] by simp
    then show ?thesis
      using assms Inr by (auto simp: unlock_from_shares_def io_defs Let_def split_beta split: if_splits)
  qed
qed

section \<open>Properties\<close>

text \<open>C19. Agreement among the realms is unambiguous: when there are fewer than twice as many answers
  as the threshold, the assertion that at most one group survives holds, and the group that is
  returned is the one key given by at least the threshold of answers, if there is one.\<close>

theorem consensus_unique:
  assumes "length entries < 2 * unat threshold"
  shows "\<exists>r. consensus threshold entries = Some r \<and>
    (\<forall>k vs. r = Some (k, vs) \<longleftrightarrow> unat threshold \<le> length vs \<and> vs = values_of k entries)"
  by (rule consensus_spec [OF assms])

text \<open>C7. Recovery never panics before it decrypts, whatever the transport delivers, as long as no answer
  that an attempt of the client is given by a hardware realm decodes to one that claims a length
  beyond its 436 bytes of padding: for a checked configuration in a release build with addresses that
  \<open>req\<close> can be joined to, when the PIN can be hashed, every realm has its session slot and the
  sessions have a nonce left for each of the three requests per realm.\<close>

theorem recovery_never_panics:
  fixes E :: "('w, 'u, 's::field, 'p::ab_group_add, 'ed) env"
  assumes "executor_ok E" and "curve_laws (env_curve E)" and "prim_laws (env_prims E)"
    and "\<And>realm. realm \<in> set (crealms configuration) \<Longrightarrow> short_answers E realm"
    and "checked_configuration_from c = Some configuration" and "env_build E = Release"
    and "\<And>version. \<exists>a s. pin_hash (env_prims E) pin
      (config_pin_hashing_mode (the_configuration configuration)) version info = Some (Some (a, s))"
    and "\<And>realm. realm \<in> set (crealms configuration) \<Longrightarrow> joinable E realm"
    and "session_budget (realm_id ` set (crealms configuration)) (3 * length (crealms configuration)) st"
  shows "recover_key E pin info configuration st \<noteq> None"
proof -
  note cfg = checked_configuration_from_ok [OF assms(5)]
  have "post (session_budget (realm_id ` set (crealms configuration))) 1 (make_request E realm request) (\<lambda>_. True)"
    if "realm \<in> set (crealms configuration)" for realm request
    by (rule make_request_post [OF assms(8) [OF that] checked_key_length [OF cfg that] assms(3) assms(4) [OF that]])
      (use that in simp_all)
  note run = requests.recover_key_post [OF assms(1) cfg assms(2,6) this assms(7)]
  have "session_budget (realm_id ` set (crealms configuration)) (0 + (length (crealms configuration) +
      (length (crealms configuration) + length (crealms configuration)))) st"
    using assms(9) by (simp add: numeral_3_eq_3)
  from postD [OF run this] show ?thesis
    by auto
qed

text \<open>A realm that claims more guesses made than it allows makes a debug build panic and gives a
  release build a wrapped-around number of remaining guesses.\<close>

lemma guess_underflow:
  "check_recover2 (E\<lparr>env_build := Debug\<rparr>) realm configuration inp
     (ok\<lparr>ok_num_guesses := 0, ok_guess_count := 1\<rparr>) st = None \<and>
   checked_minus Release (ok_num_guesses (ok\<lparr>ok_num_guesses := 0\<rparr>)) 1 = Some (- 1)"
  by (simp add: check_recover2_def io_defs checked_minus_def)

text \<open>C20. Recovery falls back to the previous configurations in order, each tried only after every
  earlier one ended with \<open>NotRegistered\<close>; the first other outcome is the result, and
  \<open>NotRegistered\<close> is returned only when all have been tried.\<close>

theorem previous_configurations_fallback:
  assumes "perform_recover E pin info c cs st = Some (r, st')"
  shows "\<exists>k st1. k \<le> length cs \<and>
    run_all (map (perform_recover_with_configuration E pin info) (take k (c # cs))) st =
      Some (replicate k (Err NotRegistered), st1) \<and>
    perform_recover_with_configuration E pin info ((c # cs) ! k) st1 = Some (r, st') \<and>
    (r = Err NotRegistered \<longrightarrow> k = length cs)"
  using assms unfolding perform_recover_def by (rule recover_loop_chain)

text \<open>One recovery attempt with a configuration of \<open>n\<close> realms makes at most \<open>30 n\<close> HTTP requests.\<close>

lemma recovery_request_bound:
  assumes "logged E log" and "executor_ok E"
    and "perform_recover_with_configuration E pin info configuration st = Some (r, st')"
  shows "\<exists>qs. log (world st') = log (world st) @ qs \<and> length qs \<le> 30 * length (crealms configuration)"
proof -
  have "sends log (30 * length (crealms configuration)) posts
      (perform_recover_with_configuration E pin info configuration)"
    unfolding perform_recover_with_configuration_def split_beta
    by (intro sends_bind_pure sends_recover_key [OF assms(1,2)] sends_pure)
  then show ?thesis
    using assms(3) unfolding sends_def by blast
qed

text \<open>C18. Phase 3 uses a realm's share only when the commitment it returns is the MAC of that share
  and ciphertext under the recovered unlock key, and uses every such share; computing the MACs
  never panics.\<close>

theorem only_committed_shares:
  "accepted_shares E unlock_key results =
     Some (map (\<lambda>(share, enc, c, realm). (enc, share))
       (filter (\<lambda>(share, enc, c, realm). secret_commitment_derive (env_curve E) (env_prims E) unlock_key
          (realm_id realm) (ScalarShare (share_secret share)) enc = Some c) results))"
proof -
  obtain accepted where "accepted_shares E unlock_key results = Some accepted"
    using accepted_shares_total by blast
  with accepted_shares_filter [OF this] show ?thesis
    by simp
qed

end
