(* ===== verification/Delete.thy ===== *)
theory Delete
  imports Request
begin

text \<open>
  Deletion (rust/sdk/src/delete.rs): every realm is asked, whatever the others answer, and the
  first error in the order of the realms is returned.
\<close>

datatype delete_error =
    InvalidAuth
  | UpgradeRequired
  | RateLimitExceeded
  | Assertion
  | Transient

fun delete_error_from :: "request_error \<Rightarrow> delete_error" where
  "delete_error_from request_error.UpgradeRequired = UpgradeRequired"
| "delete_error_from request_error.Transient = Transient"
| "delete_error_from request_error.Assertion = Assertion"
| "delete_error_from request_error.InvalidAuth = InvalidAuth"
| "delete_error_from request_error.RateLimitExceeded = RateLimitExceeded"

definition delete_on_realm ::
  "('w, 'u, 's, 'p, 'ed) env \<Rightarrow> 'u realm \<Rightarrow> ('w client_state, delete_error, unit) step" where
  "delete_on_realm E realm =
     io_match (make_request E realm Delete) (\<lambda>r. case r of
         Err e \<Rightarrow> io_err (delete_error_from e)
       | Ok (DeleteResponse DeleteOk) \<Rightarrow> io_return ()
       | Ok _ \<Rightarrow> io_err Assertion)"

definition perform_delete ::
  "('w, 'u, 's, 'p, 'ed) env \<Rightarrow> 'u checked_configuration \<Rightarrow>
     ('w client_state, delete_error, unit) step" where
  "perform_delete E configuration st =
     (case join_all E (map (delete_on_realm E) (crealms configuration)) st of
        None \<Rightarrow> None
      | Some (rs, st') \<Rightarrow> Some (and_then (collect_results rs) (\<lambda>_. Ok ()), st'))"

section \<open>Lemmas\<close>

lemma map_of_zip_order:
  assumes "mset order = mset [0..<n]" and "length qs = n" and "k < n"
  shows "map_of (zip order qs) (order ! k) = Some (qs ! k)"
proof -
  have "distinct order" "length order = n"
    using assms(1) mset_eq_imp_distinct_iff [of order "[0..<n]"] mset_eq_length [of order "[0..<n]"]
    by simp_all
  then show ?thesis
    using assms(2,3) by (simp add: map_of_zip_nth)
qed

lemma join_all_results:
  assumes ok: "executor_ok E"
    and order: "env_executor E (length futures) (world st) = (order, w)"
    and run: "run_all (in_order order futures) (st\<lparr>world := w\<rparr>) = Some (qs, st')"
  shows "\<exists>rs. join_all E futures st = Some (rs, st') \<and> length rs = length futures \<and>
    (\<forall>k < length futures. order ! k < length futures \<and> rs ! (order ! k) = qs ! k)"
proof -
  let ?rs = "map (\<lambda>i. the (map_of (zip order qs) i)) [0..<length futures]"
  have perm: "mset order = mset [0..<length futures]" "length order = length futures"
    using executor_order [OF ok order] by auto
  have len: "length qs = length futures"
    using length_run_all [OF run] perm by simp
  have nth: "order ! k < length futures \<and> ?rs ! (order ! k) = qs ! k" if "k < length futures" for k
  proof -
    have "order ! k \<in> set [0..<length futures]"
      using that perm mset_eq_setD [OF perm(1)] nth_mem [of k order] by simp
    then show ?thesis
      using map_of_zip_order [OF perm(1) len that] by simp
  qed
  have "join_all E futures st = Some (?rs, st')" "length ?rs = length futures"
    using order run by (simp_all add: join_all_def)
  with nth show ?thesis
    by blast
qed

lemma collect_results_Ok: "(\<exists>xs. collect_results rs = Ok xs) \<longleftrightarrow> (\<forall>r \<in> set rs. \<exists>x. r = Ok x)"
proof (induction rs rule: collect_results.induct)
  case (3 x rs)
  then show ?case
    by (cases "collect_results rs") auto
qed auto

lemma collect_results_Err:
  "collect_results rs = Err e \<longleftrightarrow>
     (\<exists>i < length rs. rs ! i = Err e \<and> (\<forall>j < i. \<exists>x. rs ! j = Ok x))"
proof (induction rs rule: collect_results.induct)
  case 1
  then show ?case
    by simp
next
  case (2 d rs)
  have "(\<exists>i < Suc (length rs). (Err d # rs) ! i = (Err e :: 'a + 'b) \<and> (\<forall>j < i. \<exists>x. (Err d # rs) ! j = Ok x)) \<longleftrightarrow> d = e"
    by (auto simp: less_Suc_eq_0_disj)
  then show ?case
    by simp
next
  case (3 x rs)
  have "collect_results (Ok x # rs) = Err e \<longleftrightarrow> collect_results rs = Err e"
    by (cases "collect_results rs") auto
  also have "\<dots> \<longleftrightarrow> (\<exists>i < length (Ok x # rs). (Ok x # rs) ! i = Err e \<and> (\<forall>j < i. \<exists>y. (Ok x # rs) ! j = Ok y))"
    (is "_ \<longleftrightarrow> ?R")
  proof
    assume "collect_results rs = Err e"
    then obtain i where "i < length rs" "rs ! i = Err e" "\<forall>j < i. \<exists>y. rs ! j = Ok y"
      unfolding 3 by blast
    then show ?R
      by (intro exI [of _ "Suc i"]) (auto simp: less_Suc_eq_0_disj)
  next
    assume ?R
    then obtain i where i: "i < Suc (length rs)" "(Ok x # rs) ! i = Err e"
        "\<forall>j < i. \<exists>y. (Ok x # rs) ! j = Ok y"
      by auto
    then obtain k where "i = Suc k"
      by (cases i) auto
    with i have "k < length rs \<and> rs ! k = Err e \<and> (\<forall>j < k. \<exists>y. rs ! j = Ok y)"
      by fastforce
    then show "collect_results rs = Err e"
      unfolding 3 by blast
  qed
  finally show ?case .
qed

section \<open>Properties\<close>

text \<open>C21. Deletion is attempted on every realm whatever the others answer: all the futures run, in the
  order the executor chooses, and the result is success when all succeed and otherwise the
  error of the first failing realm in the order of the configuration.\<close>

theorem delete_all_realms:
  assumes "executor_ok E"
    and "env_executor E (length (crealms configuration)) (world st) = (order, w)"
    and "run_all (in_order order (map (delete_on_realm E) (crealms configuration))) (st\<lparr>world := w\<rparr>) =
      Some (qs, st')"
  shows "\<exists>r rs. perform_delete E configuration st = Some (r, st') \<and>
    length rs = length (crealms configuration) \<and>
    (\<forall>k < length (crealms configuration). rs ! (order ! k) = qs ! k) \<and>
    (r = Ok () \<longleftrightarrow> (\<forall>q \<in> set rs. q = Ok ())) \<and>
    (\<forall>e. r = Err e \<longleftrightarrow> (\<exists>i < length rs. rs ! i = Err e \<and> (\<forall>j < i. rs ! j = Ok ())))"
proof -
  obtain rs where rs: "join_all E (map (delete_on_realm E) (crealms configuration)) st = Some (rs, st')"
      "length rs = length (crealms configuration)"
      "\<forall>k < length (crealms configuration). rs ! (order ! k) = qs ! k"
    using join_all_results [OF assms(1), of "map (delete_on_realm E) (crealms configuration)" st order w qs st']
      assms(2,3) by auto
  let ?r = "and_then (collect_results rs) (\<lambda>_. Ok ())"
  have "?r = Ok () \<longleftrightarrow> (\<forall>q \<in> set rs. q = Ok ())"
    using collect_results_Ok [of rs] by (cases "collect_results rs") auto
  moreover have "?r = Err e \<longleftrightarrow> (\<exists>i < length rs. rs ! i = Err e \<and> (\<forall>j < i. rs ! j = Ok ()))" for e
    using collect_results_Err [of rs e] by (cases "collect_results rs") auto
  ultimately show ?thesis
    using rs by (intro exI [of _ ?r] exI [of _ rs]) (simp add: perform_delete_def)
qed

end
