(* ===== verification/Client.thy ===== *)
theory Client
  imports Register Recover Delete
begin

text \<open>
  The client and its builder (rust/sdk/src/lib.rs), the map of tokens that can serve as token
  manager (auth.rs) and the default headers of the reqwest transport.
\<close>

section \<open>Tokens and headers\<close>

definition token_map_get :: "(realm_id \<Rightarrow> auth_token option) \<Rightarrow> realm_id \<Rightarrow> 'w \<Rightarrow> auth_token option \<times> 'w" where
  "token_map_get m realm w = (m realm, w)"

definition JUICEBOX_VERSION_HEADER :: string where
  "JUICEBOX_VERSION_HEADER = ''X-Juicebox-Version''"

text \<open>\<open>HashMap::extend\<close>; \<open>VERSION\<close> comes from the build.\<close>

definition reqwest_default_headers :: "string \<Rightarrow> headers \<Rightarrow> headers" where
  "reqwest_default_headers version options =
     (let user_agent = ''JuiceboxSdk-Rust/'' @ version;
          default_headers = [(JUICEBOX_VERSION_HEADER, version), (''User-Agent'', user_agent)]
      in fold (\<lambda>(k, v). AList.update k v) options default_headers)"

section \<open>The builder\<close>

record ('w, 'u) client_builder =
  builder_configuration :: "'u checked_configuration option"
  builder_previous_configurations :: "'u checked_configuration list"
  builder_auth_token_manager :: "(realm_id \<Rightarrow> 'w \<Rightarrow> auth_token option \<times> 'w) option"
  builder_http :: "'w http_client option"
  builder_sleeper :: "(nat \<Rightarrow> 'w \<Rightarrow> 'w) option"

record ('w, 'u) client =
  client_configuration :: "'u checked_configuration"
  client_previous_configurations :: "'u checked_configuration list"
  client_auth_token_manager :: "realm_id \<Rightarrow> 'w \<Rightarrow> auth_token option \<times> 'w"
  client_http :: "'w http_client"
  client_sleeper :: "nat \<Rightarrow> 'w \<Rightarrow> 'w"

definition builder_new :: "('w, 'u) client_builder" where
  "builder_new = \<lparr>builder_configuration = None, builder_previous_configurations = [],
     builder_auth_token_manager = None, builder_http = None, builder_sleeper = None\<rparr>"

definition with_configuration ::
  "'u configuration \<Rightarrow> ('w, 'u) client_builder \<Rightarrow> ('w, 'u) client_builder panics" where
  "with_configuration configuration self = do {
     checked \<leftarrow> checked_configuration_from configuration;
     Some (self\<lparr>builder_configuration := Some checked\<rparr>)
   }"

definition with_previous_configurations ::
  "'u configuration list \<Rightarrow> ('w, 'u) client_builder \<Rightarrow> ('w, 'u) client_builder panics" where
  "with_previous_configurations previous self = do {
     checked \<leftarrow> those (map checked_configuration_from previous);
     Some (self\<lparr>builder_previous_configurations := checked\<rparr>)
   }"

definition with_auth_token_manager ::
  "(realm_id \<Rightarrow> 'w \<Rightarrow> auth_token option \<times> 'w) \<Rightarrow> ('w, 'u) client_builder \<Rightarrow> ('w, 'u) client_builder" where
  "with_auth_token_manager manager self = self\<lparr>builder_auth_token_manager := Some manager\<rparr>"

definition with_http :: "'w http_client \<Rightarrow> ('w, 'u) client_builder \<Rightarrow> ('w, 'u) client_builder" where
  "with_http http self = self\<lparr>builder_http := Some http\<rparr>"

definition with_sleeper :: "(nat \<Rightarrow> 'w \<Rightarrow> 'w) \<Rightarrow> ('w, 'u) client_builder \<Rightarrow> ('w, 'u) client_builder" where
  "with_sleeper sleeper self = self\<lparr>builder_sleeper := Some sleeper\<rparr>"

text \<open>The sessions: one empty slot for every realm of the current configuration.\<close>

definition initial_sessions :: "'u checked_configuration \<Rightarrow> realm_id \<Rightarrow> session option option" where
  "initial_sessions configuration =
     map_of (map (\<lambda>realm. (realm_id realm, None)) (crealms configuration))"

definition build_client ::
  "('w, 'u) client_builder \<Rightarrow> (('w, 'u) client \<times> (realm_id \<Rightarrow> session option option)) panics" where
  "build_client self = do {
     configuration \<leftarrow> builder_configuration self;
     auth_token_manager \<leftarrow> builder_auth_token_manager self;
     http \<leftarrow> builder_http self;
     sleeper \<leftarrow> builder_sleeper self;
     Some (\<lparr>client_configuration = configuration,
            client_previous_configurations = builder_previous_configurations self,
            client_auth_token_manager = auth_token_manager,
            client_http = http, client_sleeper = sleeper\<rparr>,
           initial_sessions configuration)
   }"

section \<open>The operations of the client\<close>

text \<open>The client's own transport, token manager and sleeper serve its requests.\<close>

definition client_env ::
  "('w, 'u, 's, 'p, 'ed) env \<Rightarrow> ('w, 'u) client \<Rightarrow> ('w, 'u, 's, 'p, 'ed) env" where
  "client_env E self = E\<lparr>env_http := client_http self,
     env_token := client_auth_token_manager self, env_sleep := client_sleeper self\<rparr>"

definition client_register ::
  "('w, 'u, 's::field, 'p, 'ed) env \<Rightarrow> ('w, 'u) client \<Rightarrow> pin \<Rightarrow> user_secret \<Rightarrow> user_info \<Rightarrow> policy \<Rightarrow>
     ('w client_state, register_error, unit) step" where
  "client_register E self pin secret info policy =
     perform_register (client_env E self) (client_configuration self) pin secret info policy"

definition client_recover ::
  "('w, 'u, 's::field, 'p::ab_group_add, 'ed) env \<Rightarrow> ('w, 'u) client \<Rightarrow> pin \<Rightarrow> user_info \<Rightarrow>
     ('w client_state, recover_error, user_secret) step" where
  "client_recover E self pin info =
     perform_recover (client_env E self) pin info (client_configuration self)
       (client_previous_configurations self)"

definition client_delete ::
  "('w, 'u, 's, 'p, 'ed) env \<Rightarrow> ('w, 'u) client \<Rightarrow> ('w client_state, delete_error, unit) step" where
  "client_delete E self = perform_delete (client_env E self) (client_configuration self)"

section \<open>Lemmas\<close>

lemma initial_sessions_iff:
  "initial_sessions configuration i = (if i \<in> realm_id ` set (crealms configuration) then Some None else None)"
proof -
  have "map_of (map (\<lambda>realm. (realm_id realm, None :: session option)) rs) i =
      (if i \<in> realm_id ` set rs then Some None else None)" for rs :: "'a realm list"
    by (induction rs) auto
  then show ?thesis
    unfolding initial_sessions_def .
qed

lemma fresh_session_budget:
  assumes "sessions st = initial_sessions configuration" and "n < 2 ^ 63"
  shows "session_budget (realm_id ` set (crealms configuration)) n st"
  using assms by (auto simp: session_budget_def initial_sessions_iff)

lemma missing_slot_panics:
  assumes "realm_public_key realm = Some k" and "sessions st (realm_id realm) = None"
    and "into_writer (cbor_secrets_request E) request = Ok bs"
  shows "make_request E realm request st = None"
  using assms
  by (simp add: make_request_def make_hardware_realm_request_def lock_sessions_def to_vec_def io_defs
      del: hardware_attempts.simps)

section \<open>Properties\<close>

text \<open>C33. A built client has an empty session slot for exactly the realms of its current
  configuration. A hardware realm that is only in a previous configuration has none, and a
  request to it panics.\<close>

theorem sessions_of_current_configuration:
  assumes "build_client b = Some (client, slots)"
    and "realm_public_key realm = Some k"
    and "realm_id realm \<notin> realm_id ` set (crealms (client_configuration client))"
    and "into_writer (cbor_secrets_request E) request = Ok bs"
    and "sessions st = slots"
  shows "(\<forall>i. slots i = (if i \<in> realm_id ` set (crealms (client_configuration client)) then Some None else None)) \<and>
    make_request (client_env E client) realm request st = None"
proof -
  have slots: "slots = initial_sessions (client_configuration client)"
    using assms(1) by (auto simp: build_client_def bind_eq_Some_conv)
  then have "sessions st (realm_id realm) = None"
    using assms(3,5) by (simp add: initial_sessions_iff)
  from missing_slot_panics [OF assms(2) this, of "client_env E client" request bs] show ?thesis
    using slots assms(4) by (simp add: initial_sessions_iff client_env_def)
qed

text \<open>The builder panics exactly when the configuration, the token manager, the transport or the
  sleeper was not given.\<close>

lemma builder_panics:
  "build_client b = None \<longleftrightarrow> builder_configuration b = None \<or> builder_auth_token_manager b = None \<or>
     builder_http b = None \<or> builder_sleeper b = None"
  by (auto simp: build_client_def bind_eq_None_conv)

text \<open>A configuration whose register threshold is below its recover threshold, even zero, passes
  the check, and registering under the threshold zero panics.\<close>

lemma register_threshold_unchecked:
  "(\<exists>cc. checked_configuration_from
      \<lparr>realms = [\<lparr>realm_id = RealmId zero_array, realm_address = u, realm_public_key = None\<rparr>],
       register_threshold = 0, recover_threshold = 1, config_pin_hashing_mode = Standard2019\<rparr> = Some cc \<and>
     perform_register E cc pin secret info policy st = None)"
proof -
  let ?c = "\<lparr>realms = [\<lparr>realm_id = RealmId zero_array, realm_address = u, realm_public_key = None\<rparr>],
       register_threshold = 0, recover_threshold = 1, config_pin_hashing_mode = Standard2019\<rparr>"
  have ok: "configuration_ok ?c"
    by (simp add: configuration_ok_def)
  have "join_at_least_threshold E (map (register1_on_realm E) rs) 0 st = None" for rs
    by (rule join_guard_None) simp
  then have "perform_register E (CheckedConfiguration (?c\<lparr>realms := rs\<rparr>)) pin secret info policy st = None" for rs
    by (simp add: perform_register_def io_bind_def)
  with ok show ?thesis
    by (simp add: checked_configuration_from_eq)
qed

end
