(* ===== verification/End_To_End.thy ===== *)
theory End_To_End
  imports Client
begin

text \<open>
  Registration and recovery together. The realms are outside the repository; the whitepaper
  (whitepaper/whitepaper.typ) documents how one answers. \<open>honest_answer\<close> is the documented
  answer of a realm that holds a registration and has guesses left, and \<open>serves\<close> states,
  for an environment, which realms answer that way while the others fail. Under it the client
  recovers what it registered, for the same PIN, and reports any other PIN as invalid.
\<close>

section \<open>Joining futures with known outcomes\<close>

lemma join_loop_answers:
  assumes step: "\<And>r rest st. set (r # rest) \<subseteq> set rs \<Longrightarrow> distinct (r # rest) \<Longrightarrow> K (r # rest) st \<Longrightarrow>
      \<exists>q st'. g r st = Some (q, st') \<and> K rest st' \<and>
        (if r \<in> H then \<exists>x. q = Ok x \<and> P r x else \<exists>e. q = Err e)"
    and "set todo \<subseteq> set rs" "distinct todo" "K todo st"
    and "length errors + length (filter (\<lambda>r. r \<notin> H) todo) \<le> limit"
  shows "\<exists>xs st'. join_loop limit oks errors (map g todo) st = Some (Ok (oks @ xs), st') \<and> K [] st' \<and>
    list_all2 P (filter (\<lambda>r. r \<in> H) todo) xs"
  using assms(2-)
proof (induction todo arbitrary: oks errors st)
  case (Cons r todo)
  obtain q st' where q: "g r st = Some (q, st')" "K todo st'"
      "if r \<in> H then \<exists>x. q = Ok x \<and> P r x else \<exists>e. q = Err e"
    using step [OF Cons.prems(1-3)] by blast
  show ?case
  proof (cases "r \<in> H")
    case True
    then obtain x where x: "q = Ok x" "P r x"
      using q(3) by auto
    have "\<exists>xs st''. join_loop limit (oks @ [x]) errors (map g todo) st' = Some (Ok ((oks @ [x]) @ xs), st'') \<and>
        K [] st'' \<and> list_all2 P (filter (\<lambda>r. r \<in> H) todo) xs"
      by (rule Cons.IH) (use Cons.prems q(2) True in auto)
    then show ?thesis
      using q(1) x True by auto
  next
    case False
    then obtain e where e: "q = Err e"
      using q(3) by auto
    have "\<exists>xs st''. join_loop limit oks (errors @ [e]) (map g todo) st' = Some (Ok (oks @ xs), st'') \<and>
        K [] st'' \<and> list_all2 P (filter (\<lambda>r. r \<in> H) todo) xs"
      by (rule Cons.IH) (use Cons.prems q(2) False in auto)
    then show ?thesis
      using q(1) e False Cons.prems(4) by (auto simp: Let_def)
  qed
qed simp

text \<open>The order in which an executor completes the futures of a list.\<close>

lemma executor_schedule:
  assumes ok: "executor_ok E" and order: "env_executor E (length (map g rs)) w = (order, w')"
  shows "mset (in_order order rs) = mset rs" "in_order order (map g rs) = map g (in_order order rs)"
    and "length (filter Q (in_order order rs)) = length (filter Q rs)"
proof -
  have perm: "mset order = mset [0..<length rs]"
    using executor_order [OF ok order] by simp
  show mset: "mset (in_order order rs) = mset rs"
    by (rule mset_in_order) (simp add: is_schedule_def perm)
  show "in_order order (map g rs) = map g (in_order order rs)"
    using mset_eq_setD [OF perm] by (auto simp: in_order_def)
  show "length (filter Q (in_order order rs)) = length (filter Q rs)"
    using mset by (metis mset_filter size_mset)
qed

lemma join_answers:
  assumes ok: "executor_ok E" and t: "0 < unat threshold" "unat threshold \<le> length (filter (\<lambda>r. r \<in> H) rs)"
    and rs: "distinct rs"
    and step: "\<And>r rest st. set (r # rest) \<subseteq> set rs \<Longrightarrow> distinct (r # rest) \<Longrightarrow> K (r # rest) st \<Longrightarrow>
      \<exists>q st'. g r st = Some (q, st') \<and> K rest st' \<and>
        (if r \<in> H then \<exists>x. q = Ok x \<and> P r x else \<exists>e. q = Err e)"
    and start: "\<And>todo. set todo = set rs \<Longrightarrow> distinct todo \<Longrightarrow>
      K todo (st\<lparr>world := snd (env_executor E (length rs) (world st))\<rparr>)"
  shows "\<exists>hs xs st'. mset hs = mset (filter (\<lambda>r. r \<in> H) rs) \<and> list_all2 P hs xs \<and> K [] st' \<and>
    join_at_least_threshold E (map g rs) threshold st = Some (Ok xs, st')"
proof -
  obtain order w where order: "env_executor E (length (map g rs)) (world st) = (order, w)"
    by fastforce
  let ?todo = "in_order order rs"
  note sched = executor_schedule [OF ok order]
  have todo: "set ?todo = set rs" "distinct ?todo"
    using rs sched(1) mset_eq_setD mset_eq_imp_distinct_iff by blast+
  note split = sum_length_filter_compl [of "\<lambda>r. r \<in> H" rs]
  have lim: "0 + length (filter (\<lambda>r. r \<notin> H) ?todo) \<le> length rs - unat threshold"
    using sched(3) [of "\<lambda>r. r \<notin> H"] split t(2) by simp
  have "K ?todo (st\<lparr>world := w\<rparr>)"
    using start [OF todo] order by simp
  then have "\<exists>xs st'. join_loop (length rs - unat threshold) [] [] (map g ?todo) (st\<lparr>world := w\<rparr>) =
      Some (Ok ([] @ xs), st') \<and> K [] st' \<and> list_all2 P (filter (\<lambda>r. r \<in> H) ?todo) xs"
    using todo lim by (intro join_loop_answers [where rs = rs and K = K, OF step]) simp_all
  then obtain xs st' where xs: "join_loop (length rs - unat threshold) [] [] (map g ?todo) (st\<lparr>world := w\<rparr>) =
      Some (Ok xs, st')" "K [] st'" "list_all2 P (filter (\<lambda>r. r \<in> H) ?todo) xs"
    by auto
  have hs: "mset (filter (\<lambda>r. r \<in> H) ?todo) = mset (filter (\<lambda>r. r \<in> H) rs)"
    using sched(1) by (simp add: mset_filter)
  then have "unat threshold \<le> length xs"
    using t(2) list_all2_lengthD [OF xs(3)] by (metis size_mset)
  moreover have "unat threshold \<le> length (map g rs)"
    using split t(2) by simp
  ultimately have "join_at_least_threshold E (map g rs) threshold st = Some (Ok xs, st')"
    unfolding join_unfold [OF t(1) \<open>unat threshold \<le> length (map g rs)\<close> order] sched(2)
    using xs(1) by simp
  with hs xs(2,3) show ?thesis
    by blast
qed

lemma list_all2_indices:
  "list_all2 (\<lambda>r x. \<exists>i < n. r = rl ! i \<and> Q i x) hs xs \<Longrightarrow>
     \<exists>idx. map ((!) rl) idx = hs \<and> set idx \<subseteq> {..<n} \<and> list_all2 Q idx xs"
proof (induction rule: list_all2_induct)
  case (Cons r hs x xs)
  then obtain idx i where "map ((!) rl) idx = hs" "set idx \<subseteq> {..<n}" "list_all2 Q idx xs"
      "i < n" "r = rl ! i" "Q i x"
    by blast
  then show ?case
    by (intro exI [of _ "i # idx"]) simp
qed simp

lemma consensus_uniform:
  assumes "length entries < 2 * unat threshold" "unat threshold \<le> length entries"
    and "\<And>p. p \<in> set entries \<Longrightarrow> fst p = k"
  shows "consensus threshold entries = Some (Some (k, map snd entries))"
proof -
  have "filter (\<lambda>p. fst p = k) entries = entries"
    using assms(3) by (simp add: filter_id_conv)
  then have "values_of k entries = map snd entries"
    by (simp add: values_of_def)
  then show ?thesis
    using consensus_spec [OF assms(1)] assms(2) by (metis length_map)
qed

section \<open>Realms that answer\<close>

text \<open>
  The requests that a recovery of the registration \<open>q\<close> makes, and the documented answers of a
  realm that holds it and has guesses left: the version; the evaluation of the blinded input
  with its share and a proof for it, made by the server side of the OPRF, with the stored public
  key and commitment, and counts of which \<open>left\<close> guesses remain; the stored share and
  ciphertext.
\<close>

fun expected :: "'s register2_request \<Rightarrow> ('s, 'p) secrets_request \<Rightarrow> bool" where
  "expected q Recover1 \<longleftrightarrow> True"
| "expected q (Recover2 r) \<longleftrightarrow> rec2_version r = r2_version q"
| "expected q (Recover3 r) \<longleftrightarrow> rec3_version r = r2_version q \<and> rec3_unlock_key_tag r = r2_unlock_key_tag q"
| "expected q _ \<longleftrightarrow> False"

fun honest_answer ::
  "('s::field, 'p::ab_group_add) curve \<Rightarrow> 's register2_request \<Rightarrow> u16 \<Rightarrow> ('s, 'p) secrets_request \<Rightarrow>
     ('s, 'p) secrets_response \<Rightarrow> bool" where
  "honest_answer C q left Recover1 resp \<longleftrightarrow> resp = Recover1Response (Recover1Ok (r2_version q))"
| "honest_answer C q left (Recover2 r) resp \<longleftrightarrow>
     (\<exists>ok (random :: unit \<Rightarrow> 's \<times> unit). resp = Recover2Response (Recover2Ok ok) \<and>
        ok_signed_public_key ok = r2_oprf_signed_public_key q \<and>
        blind_verifiable_evaluate C (r2_oprf_private_key q) (signed_public_key (r2_oprf_signed_public_key q))
          (rec2_oprf_blinded_input r) random () = ((ok_blinded_result ok, ok_proof ok), ()) \<and>
        ok_unlock_key_commitment ok = r2_unlock_key_commitment q \<and>
        ok_guess_count ok \<le> ok_num_guesses ok \<and> ok_num_guesses ok - ok_guess_count ok = left)"
| "honest_answer C q left (Recover3 r) resp \<longleftrightarrow>
     resp = Recover3Response (Recover3Ok (r2_encryption_key_scalar_share q) (r2_encrypted_secret q)
       (r2_encrypted_secret_commitment q))"
| "honest_answer C q left _ resp \<longleftrightarrow> False"

text \<open>The realms that were asked for a guess, and those that were shown the tag.\<close>

fun tried :: "'u realm \<Rightarrow> ('s, 'p) secrets_request \<Rightarrow> 'u realm set \<Rightarrow> 'u realm set" where
  "tried realm (Recover2 r) T = insert realm T"
| "tried realm _ T = T"

fun unlocked :: "'u realm \<Rightarrow> ('s, 'p) secrets_request \<Rightarrow> 'u realm set \<Rightarrow> 'u realm set" where
  "unlocked realm (Recover3 r) U = insert realm U"
| "unlocked realm _ U = U"

fun needs_guess :: "('s, 'p) secrets_request \<Rightarrow> bool" where
  "needs_guess Recover1 = True"
| "needs_guess (Recover2 r) = True"
| "needs_guess _ = False"

text \<open>
  \<open>I n T U st\<close> is an invariant of the state after the realms of \<open>T\<close> were asked for a guess and those of
  \<open>U\<close> were shown the tag, in which \<open>n\<close> more requests can be made (the sessions of hardware realms are
  good for a limited number of messages). The client's own use of the world keeps it. A realm that was not yet
  asked answers the requests of a recovery, honestly with \<open>left realm\<close> guesses left if
  it is one of \<open>H\<close> and with an error otherwise.
\<close>

definition serves ::
  "('w, 'u, 's::field, 'p::ab_group_add, 'ed) env \<Rightarrow> 'u realm set \<Rightarrow> ('u realm \<Rightarrow> u16) \<Rightarrow>
     (nat \<Rightarrow> 'u realm set \<Rightarrow> 'u realm set \<Rightarrow> 'w client_state \<Rightarrow> bool) \<Rightarrow>
     ('u realm \<times> 's register2_request) list \<Rightarrow> bool" where
  "serves E H left I requests \<longleftrightarrow>
     (\<forall>n T U st m. I n T U st \<longrightarrow> I n T U (st\<lparr>world := snd (env_executor E m (world st))\<rparr>)) \<and>
     (\<forall>n T U st. I n T U st \<longrightarrow> I n T U (st\<lparr>world := snd (env_random_scalar E (world st))\<rparr>)) \<and>
     (\<forall>n T U st. I (Suc n) T U st \<longrightarrow> I n T U st) \<and>
     (\<forall>(realm, q) \<in> set requests. \<forall>n T U st request.
        I (Suc n) T U st \<and> expected q request \<and> (needs_guess request \<longrightarrow> realm \<notin> T \<union> U) \<longrightarrow>
        (\<exists>r st'. make_request E realm request st = Some (r, st') \<and>
           I n (tried realm request T) (unlocked realm request U) st' \<and>
           (if realm \<in> H then \<exists>resp. r = Ok resp \<and> honest_answer (env_curve E) q (left realm) request resp
            else \<exists>e. r = Err e)))"

lemma servesD:
  assumes "serves E H left I requests"
  shows "I n T U st \<Longrightarrow> I n T U (st\<lparr>world := snd (env_executor E m (world st))\<rparr>)"
    and "I n T U st \<Longrightarrow> I n T U (st\<lparr>world := snd (env_random_scalar E (world st))\<rparr>)"
    and "I (Suc n) T U st \<Longrightarrow> I n T U st"
    and "(realm, q) \<in> set requests \<Longrightarrow> I (Suc n) T U st \<Longrightarrow> expected q request \<Longrightarrow>
      (needs_guess request \<Longrightarrow> realm \<notin> T \<union> U) \<Longrightarrow>
      \<exists>r st'. make_request E realm request st = Some (r, st') \<and>
           I n (tried realm request T) (unlocked realm request U) st' \<and>
           (if realm \<in> H then \<exists>resp. r = Ok resp \<and> honest_answer (env_curve E) q (left realm) request resp
            else \<exists>e. r = Err e)"
  using assms unfolding serves_def by blast+

lemma down_closed: "(\<And>n. Q (Suc n) \<Longrightarrow> Q n) \<Longrightarrow> m \<le> n \<Longrightarrow> Q n \<Longrightarrow> Q m"
  by (erule inc_induct) auto

lemma serves_less:
  assumes "serves E H left I requests" and "m \<le> n" and "I n T U st"
  shows "I m T U st"
  by (rule down_closed [where Q = "\<lambda>n. I n T U st", OF servesD(3) [OF assms(1)] assms(2,3)])

section \<open>One realm in each phase\<close>

lemma recover1_answer:
  assumes serves: "serves E H left I requests" and mem: "(realm, q) \<in> set requests" and inv: "I (Suc n) {} {} st"
  shows "\<exists>r st'. recover1_on_realm E realm st = Some (r, st') \<and> I n {} {} st' \<and>
    (if realm \<in> H then \<exists>x. r = Ok x \<and> x = (r2_version q, realm) else \<exists>e. r = Err e)"
proof -
  obtain r st' where "make_request E realm Recover1 st = Some (r, st')" "I n {} {} st'"
      "if realm \<in> H then \<exists>resp. r = Ok resp \<and> honest_answer (env_curve E) q (left realm) Recover1 resp
       else \<exists>e. r = Err e"
    using servesD(4) [where I = I, OF serves mem inv, of Recover1] by auto
  then show ?thesis
    by (cases "realm \<in> H") (auto simp: recover1_on_realm_def io_match_def io_return_def io_err_def)
qed

lemma recover2_answer:
  assumes serves: "serves E H left I requests" and mem: "(realm, q) \<in> set requests" and inv: "I (Suc n) T {} st" "realm \<notin> T"
    and laws: "curve_laws (env_curve E)" and blinded: "precompressed_ok (env_curve E) (bi_point blinded)"
    and st: "stored E version unlock_key commitment vk enc key_share scalar_sh (realm_id realm) q"
    and idx: "share_index configuration (realm_id realm) = Some ix"
  shows "\<exists>r st'. recover2_on_realm E realm configuration version blinded st = Some (r, st') \<and>
    I n (insert realm T) {} st' \<and>
    (if realm \<in> H then \<exists>x. r = Ok x \<and> x = (vk, evaluated_share (env_curve E) blinded
        \<lparr>share_idx = ix, share_secret = key_share\<rparr>, commitment, left realm) else \<exists>e. r = Err e)"
proof -
  let ?q = "Recover2 \<lparr>rec2_version = version, rec2_oprf_blinded_input = blinded\<rparr>"
  let ?C = "env_curve E"
  have q: "r2_version q = version" "r2_oprf_private_key q = PrivateKey key_share"
      "verify_signed_key (env_prims E) (r2_oprf_signed_public_key q) (realm_id realm) = Some (Ok ())"
      "signed_public_key (r2_oprf_signed_public_key q) = to_public_key ?C (PrivateKey key_share)"
      "verifying_key (r2_oprf_signed_public_key q) = vk" "r2_unlock_key_commitment q = commitment"
    using st by (simp_all add: stored_def)
  obtain r st' where r: "make_request E realm ?q st = Some (r, st')" "I n (insert realm T) {} st'"
      "if realm \<in> H then \<exists>resp. r = Ok resp \<and> honest_answer ?C q (left realm) ?q resp else \<exists>e. r = Err e"
    using servesD(4) [where I = I, OF serves mem inv(1), of ?q] inv(2) q(1) by auto
  show ?thesis
  proof (cases "realm \<in> H")
    case True
    obtain ok and random :: "unit \<Rightarrow> 'c \<times> unit" where ok: "r = Ok (Recover2Response (Recover2Ok ok))"
        "ok_signed_public_key ok = r2_oprf_signed_public_key q"
        "blind_verifiable_evaluate ?C (PrivateKey key_share) (to_public_key ?C (PrivateKey key_share)) blinded random () =
          ((ok_blinded_result ok, ok_proof ok), ())"
        "ok_unlock_key_commitment ok = commitment" "ok_guess_count ok \<le> ok_num_guesses ok"
        "ok_num_guesses ok - ok_guess_count ok = left realm"
      using r(3) True q by auto
    have out: "ok_blinded_result ok = blind_evaluate ?C (PrivateKey key_share) blinded"
      using ok(3) by (simp add: blind_verifiable_evaluate_def Let_def split_beta)
    have "oprf_verify_proof (env_build E) ?C blinded (ok_blinded_result ok)
        (to_public_key ?C (PrivateKey key_share)) (ok_proof ok) = Some (Ok ())"
      by (rule oprf_proof_accepted [OF laws blinded ok(3)])
    then have "check_recover2 E realm configuration blinded ok st' = Some (Ok (vk, evaluated_share ?C blinded
        \<lparr>share_idx = ix, share_secret = key_share\<rparr>, commitment, left realm), st')"
      using q ok idx out
      by (simp add: check_recover2_def checked_minus_le evaluated_share_def io_bind_def io_panics_def
          io_result_def io_return_def)
    with r(1,2) ok(1) True show ?thesis
      by (auto simp: recover2_on_realm_def io_match_def)
  next
    case False
    with r show ?thesis
      by (auto simp: recover2_on_realm_def io_match_def io_err_def)
  qed
qed

lemma recover3_answer:
  assumes serves: "serves E H left I requests" and mem: "(realm, q) \<in> set requests" and inv: "I (Suc n) T U st"
    and st: "stored E version unlock_key commitment vk enc key_share scalar_sh (realm_id realm) q"
    and idx: "share_index configuration (realm_id realm) = Some ix"
    and tag: "unlock_key_tag_derive (env_prims E) unlock_key (realm_id realm) = Some tag"
  shows "\<exists>r st'. recover3_on_realm E realm configuration version tag st = Some (r, st') \<and>
    I n T (insert realm U) st' \<and>
    (if realm \<in> H then \<exists>x. r = Ok x \<and> (\<exists>c. x = (\<lparr>share_idx = ix, share_secret = scalar_sh\<rparr>, enc, c, realm) \<and>
        secret_commitment_derive (env_curve E) (env_prims E) unlock_key (realm_id realm) (ScalarShare scalar_sh) enc =
          Some c) else \<exists>e. r = Err e)"
proof -
  let ?q = "Recover3 \<lparr>rec3_version = version, rec3_unlock_key_tag = tag\<rparr>"
  have q: "r2_version q = version" "r2_unlock_key_tag q = tag"
    "r2_encryption_key_scalar_share q = ScalarShare scalar_sh" "r2_encrypted_secret q = enc"
    "secret_commitment_derive (env_curve E) (env_prims E) unlock_key (realm_id realm) (ScalarShare scalar_sh) enc =
       Some (r2_encrypted_secret_commitment q)"
    using st tag by (simp_all add: stored_def)
  obtain r st' where r: "make_request E realm ?q st = Some (r, st')" "I n T (insert realm U) st'"
      "if realm \<in> H then \<exists>resp. r = Ok resp \<and> honest_answer (env_curve E) q (left realm) ?q resp else \<exists>e. r = Err e"
    using servesD(4) [where I = I, OF serves mem inv, of ?q] q by auto
  show ?thesis
    using r q idx
    by (cases "realm \<in> H") (auto simp: recover3_on_realm_def io_match_def io_bind_def io_result_def io_return_def io_err_def)
qed

section \<open>The phases\<close>

lemma checked_ok_facts:
  assumes "checked_ok configuration"
  shows "distinct (crealms configuration)" "0 < unat (recover_threshold (the_configuration configuration))"
    and "length (crealms configuration) < 2 * unat (recover_threshold (the_configuration configuration))"
  using assms by (auto simp: checked_ok_def configuration_ok_def distinct_map)

lemma same_length: "distinct xs \<Longrightarrow> distinct ys \<Longrightarrow> set xs = set ys \<Longrightarrow> length xs = length ys"
  by (metis distinct_card)

lemma honest_phase1:
  fixes E :: "('w, 'u, 's::field, 'p::ab_group_add, 'ed) env"
  assumes ok: "executor_ok E" and cfg: "checked_ok configuration" and serves: "serves E H left I requests"
    and mem: "\<And>realm. realm \<in> set (crealms configuration) \<Longrightarrow> \<exists>q. (realm, q) \<in> set requests \<and> r2_version q = version"
    and many: "unat (recover_threshold (the_configuration configuration)) \<le>
      length (filter (\<lambda>r. r \<in> H) (crealms configuration))"
    and inv: "I (n + length (crealms configuration)) {} {} st"
  shows "\<exists>hs st'. recover_phase1 E configuration st = Some (Ok (version, hs), st') \<and> I n {} {} st' \<and>
    mset hs = mset (filter (\<lambda>r. r \<in> H) (crealms configuration))"
proof -
  let ?t = "recover_threshold (the_configuration configuration)" and ?rs = "crealms configuration"
  let ?K = "\<lambda>todo :: 'u realm list. I (n + length todo) {} {}"
  have "\<exists>hs xs st'. mset hs = mset (filter (\<lambda>r. r \<in> H) ?rs) \<and> list_all2 (\<lambda>r x. x = (version, r)) hs xs \<and> ?K [] st' \<and>
    join_at_least_threshold E (map (recover1_on_realm E) ?rs) ?t st = Some (Ok xs, st')"
  proof (rule join_answers [where K = ?K, OF ok checked_ok_facts(2) [OF cfg] many checked_ok_facts(1) [OF cfg]])
    fix r rest st assume sub: "set (r # rest) \<subseteq> set ?rs" and K: "?K (r # rest) st"
    from sub obtain q where q: "(r, q) \<in> set requests" "r2_version q = version"
      using mem [of r] by auto
    have "I (Suc (n + length rest)) {} {} st"
      using K by simp
    from recover1_answer [OF serves q(1) this, unfolded q(2)] show "\<exists>q st'. recover1_on_realm E r st = Some (q, st') \<and> ?K rest st' \<and>
        (if r \<in> H then \<exists>x. q = Ok x \<and> x = (version, r) else \<exists>e. q = Err e)"
      .
  next
    fix todo assume "set todo = set ?rs" "distinct todo"
    then show "?K todo (st\<lparr>world := snd (env_executor E (length ?rs) (world st))\<rparr>)"
      using servesD(1) [OF serves inv] same_length [OF checked_ok_facts(1) [OF cfg]] by metis
  qed
  then obtain hs xs st' where hs: "mset hs = mset (filter (\<lambda>r. r \<in> H) ?rs)"
    and xs: "list_all2 (\<lambda>r x. x = (version, r)) hs xs" and st': "I n {} {} st'"
    and join: "join_at_least_threshold E (map (recover1_on_realm E) ?rs) ?t st = Some (Ok xs, st')"
    by auto
  have eq: "xs = map (Pair version) hs"
    using xs by (induction rule: list_all2_induct) auto
  have len: "length hs = length (filter (\<lambda>r. r \<in> H) ?rs)"
    using hs by (metis size_mset)
  have "consensus ?t xs = Some (Some (version, map snd xs))"
  proof (rule consensus_uniform)
    show "length xs < 2 * unat ?t"
      using len checked_ok_facts(3) [OF cfg] length_filter_le [of _ ?rs] unfolding eq
      by (metis length_map order_le_less_trans)
  qed (use many len in \<open>auto simp: eq\<close>)
  then have "recover_phase1 E configuration st = Some (Ok (version, hs), st')"
    using join eq by (simp add: recover_phase1_def io_defs Let_def comp_def)
  with hs st' show ?thesis
    by blast
qed

text \<open>The realms of \<open>hs\<close>, all honest, are asked; the answers are told apart by the realms' positions.\<close>

lemma join_positions:
  assumes ok: "executor_ok E" and cfg: "checked_ok configuration"
    and many: "unat (recover_threshold (the_configuration configuration)) \<le> length hs"
    and hs: "distinct hs" "set hs \<subseteq> set (crealms configuration)" "set hs \<subseteq> H"
    and step: "\<And>i rest st. i < length (crealms configuration) \<Longrightarrow>
      set (crealms configuration ! i # rest) \<subseteq> set hs \<Longrightarrow> distinct (crealms configuration ! i # rest) \<Longrightarrow>
      K (crealms configuration ! i # rest) st \<Longrightarrow>
      \<exists>q st'. g (crealms configuration ! i) st = Some (q, st') \<and> K rest st' \<and>
        (if crealms configuration ! i \<in> H then \<exists>x. q = Ok x \<and> Q i x else \<exists>e. q = Err e)"
    and start: "\<And>todo. set todo = set hs \<Longrightarrow> distinct todo \<Longrightarrow>
      K todo (st\<lparr>world := snd (env_executor E (length hs) (world st))\<rparr>)"
  shows "\<exists>idx xs st'. join_at_least_threshold E (map g hs)
      (recover_threshold (the_configuration configuration)) st = Some (Ok xs, st') \<and> K [] st' \<and>
    list_all2 Q idx xs \<and> distinct idx \<and> set idx \<subseteq> {..<length (crealms configuration)} \<and> length idx = length hs \<and>
    set (map ((!) (crealms configuration)) idx) = set hs"
proof -
  let ?rs = "crealms configuration"
  let ?P = "\<lambda>r x. \<exists>i < length ?rs. r = ?rs ! i \<and> Q i x"
  have hsH: "filter (\<lambda>r. r \<in> H) hs = hs"
    using hs(3) by (auto simp: filter_id_conv)
  have "\<exists>hs' xs st'. mset hs' = mset (filter (\<lambda>r. r \<in> H) hs) \<and> list_all2 ?P hs' xs \<and> K [] st' \<and>
    join_at_least_threshold E (map g hs) (recover_threshold (the_configuration configuration)) st = Some (Ok xs, st')"
  proof (rule join_answers [where K = K, OF ok checked_ok_facts(2) [OF cfg] _ hs(1) _ start])
    show "unat (recover_threshold (the_configuration configuration)) \<le> length (filter (\<lambda>r. r \<in> H) hs)"
      using many hsH by simp
    fix r rest st assume sub: "set (r # rest) \<subseteq> set hs" and more: "distinct (r # rest)" "K (r # rest) st"
    have "r \<in> set ?rs"
      using sub hs(2) by auto
    then obtain i where i: "i < length ?rs" "r = ?rs ! i"
      by (metis in_set_conv_nth)
    obtain q st' where "g r st = Some (q, st')" "K rest st'"
        "if r \<in> H then \<exists>x. q = Ok x \<and> Q i x else \<exists>e. q = Err e"
      using step [of i rest st] sub more i by auto
    then show "\<exists>q st'. g r st = Some (q, st') \<and> K rest st' \<and>
        (if r \<in> H then \<exists>x. q = Ok x \<and> ?P r x else \<exists>e. q = Err e)"
      using i by (cases "r \<in> H") auto
  qed
  then obtain hs' xs st' where hs': "mset hs' = mset hs" and all: "list_all2 ?P hs' xs" and st': "K [] st'"
    and join: "join_at_least_threshold E (map g hs) (recover_threshold (the_configuration configuration)) st =
      Some (Ok xs, st')"
    unfolding hsH by blast
  obtain idx where idx: "map ((!) ?rs) idx = hs'" "set idx \<subseteq> {..<length ?rs}" "list_all2 Q idx xs"
    using list_all2_indices [OF all] by blast
  have "distinct hs'"
    using hs' hs(1) mset_eq_imp_distinct_iff by blast
  then have "distinct idx"
    unfolding idx(1) [symmetric] by (simp add: distinct_map)
  moreover have "length idx = length hs"
    using idx(1) hs' by (metis length_map size_mset)
  moreover have "set (map ((!) ?rs) idx) = set hs"
    unfolding idx(1) using hs' by (rule mset_eq_setD)
  ultimately show ?thesis
    using join st' idx(2,3) by blast
qed

lemma distinct_realms_bound:
  assumes "checked_ok configuration" and "distinct hs" and "set hs \<subseteq> set (crealms configuration)"
  shows "length hs < 2 * unat (recover_threshold (the_configuration configuration))"
proof -
  have "length hs \<le> length (crealms configuration)"
    using assms(2,3) checked_ok_facts(1) [OF assms(1)] by (metis card_mono distinct_card List.finite_set)
  then show ?thesis
    using checked_ok_facts(3) [OF assms(1)] by simp
qed

text \<open>Answers of realms that store the same registration agree.\<close>

lemma consensus_of_answers:
  assumes idx: "list_all2 (\<lambda>i x. x = (vk, share i, commitment, g i)) idx xs"
    and len: "length idx < 2 * unat t" "unat t \<le> length idx"
  shows "consensus t (map (\<lambda>(vk, share, commitment, guesses). ((commitment, vk), (share, guesses))) xs) =
      Some (Some ((commitment, vk), map (\<lambda>i. (share i, g i)) idx))"
proof -
  let ?es = "map (\<lambda>i. ((commitment, vk), (share i, g i))) idx"
  have "map (\<lambda>(vk, share, commitment, guesses). ((commitment, vk), (share, guesses))) xs = ?es"
    using idx by (induction rule: list_all2_induct) auto
  moreover have "consensus t ?es = Some (Some ((commitment, vk), map snd ?es))"
    by (rule consensus_uniform) (use len in auto)
  ultimately show ?thesis
    by (simp add: comp_def)
qed

lemma honest_agreement:
  assumes ok: "executor_ok E" and cfg: "checked_ok configuration" and serves: "serves E H left I requests"
    and laws: "curve_laws (env_curve E)" and blinded: "precompressed_ok (env_curve E) (bi_point blinded)"
    and mem: "\<And>i. i < length (crealms configuration) \<Longrightarrow> \<exists>q. (crealms configuration ! i, q) \<in> set requests \<and>
      stored E version unlock_key commitment vk enc (share_secret (key_shares ! i)) (share_secret (scalar_shares ! i))
        (realm_id (crealms configuration ! i)) q"
    and many: "unat (recover_threshold (the_configuration configuration)) \<le> length hs"
    and hs: "distinct hs" "set hs \<subseteq> set (crealms configuration)" "set hs \<subseteq> H"
    and inv: "I (n + length hs) {} {} st"
  shows "\<exists>idx st'. recover2_agreement E configuration version hs blinded st =
      Some (Ok ((commitment, vk), map (\<lambda>i. (evaluated_share (env_curve E) blinded
        \<lparr>share_idx = Index (of_nat (Suc i)), share_secret = share_secret (key_shares ! i)\<rparr>,
        left (crealms configuration ! i))) idx), st') \<and> I n (set hs) {} st' \<and>
    distinct idx \<and> set idx \<subseteq> {..<length (crealms configuration)} \<and> length idx = length hs \<and>
    set (map ((!) (crealms configuration)) idx) = set hs"
proof -
  let ?t = "recover_threshold (the_configuration configuration)" and ?rs = "crealms configuration"
  let ?share = "\<lambda>i. evaluated_share (env_curve E) blinded
      \<lparr>share_idx = Index (of_nat (Suc i)), share_secret = share_secret (key_shares ! i)\<rparr>"
  let ?Q = "\<lambda>i x. x = (vk, ?share i, commitment, left (?rs ! i))"
  let ?g = "\<lambda>realm. recover2_on_realm E realm configuration version blinded"
  let ?K = "\<lambda>todo. I (n + length todo) (set hs - set todo) {}"
  have step: "\<exists>q st'. ?g (?rs ! i) st = Some (q, st') \<and> ?K rest st' \<and>
      (if ?rs ! i \<in> H then \<exists>x. q = Ok x \<and> ?Q i x else \<exists>e. q = Err e)"
    if i: "i < length ?rs" and sub: "set (?rs ! i # rest) \<subseteq> set hs" and d: "distinct (?rs ! i # rest)"
      and K: "?K (?rs ! i # rest) st" for i rest st
  proof -
    obtain q where q: "(?rs ! i, q) \<in> set requests" "stored E version unlock_key commitment vk enc
        (share_secret (key_shares ! i)) (share_secret (scalar_shares ! i)) (realm_id (?rs ! i)) q"
      using mem [OF i] by blast
    have T: "insert (?rs ! i) (set hs - set (?rs ! i # rest)) = set hs - set rest"
      using sub d by auto
    from recover2_answer [where I = I, OF serves q(1) K [simplified] _ laws blinded q(2) share_index_nth [OF cfg i]]
    show ?thesis
      unfolding T [simplified] by simp
  qed
  have start: "?K todo (st\<lparr>world := snd (env_executor E (length hs) (world st))\<rparr>)" if "set todo = set hs" "distinct todo" for todo
    using that servesD(1) [OF serves inv] same_length [OF hs(1) that(2)] by simp
  from join_positions [where g = ?g and K = ?K and Q = ?Q, OF ok cfg many hs step start]
  obtain idx xs st' where join: "join_at_least_threshold E (map ?g hs) ?t st = Some (Ok xs, st')" and st': "I n (set hs) {} st'"
    and idx: "list_all2 ?Q idx xs" "distinct idx" "set idx \<subseteq> {..<length ?rs}" "length idx = length hs"
      "set (map ((!) ?rs) idx) = set hs"
    by auto
  have "consensus ?t (map (\<lambda>(vk, share, commitment, guesses). ((commitment, vk), (share, guesses))) xs) =
      Some (Some ((commitment, vk), map (\<lambda>i. (?share i, left (?rs ! i))) idx))"
    by (rule consensus_of_answers [OF idx(1)]) (use idx(4) distinct_realms_bound [OF cfg hs(1,2)] many in auto)
  then have "recover2_agreement E configuration version hs blinded st =
      Some (Ok ((commitment, vk), map (\<lambda>i. (?share i, left (?rs ! i))) idx), st')"
    using join by (simp add: recover2_agreement_def io_defs Let_def)
  then show ?thesis
    using st' idx(2-5) by blast
qed

lemma honest_unlock:
  assumes laws: "curve_laws (env_curve E)"
    and created: "create_shares (scalar_from (env_curve E)) (*) random root threshold cnt rng = Some (key_shares, rng')"
    and inj: "inj_on (scalar_from (env_curve E)) {1..cnt}"
    and idx: "distinct idx" "set idx \<subseteq> {..<unat cnt}" "unat threshold \<le> length idx" "0 < unat threshold"
    and grp: "grp = map (\<lambda>i. (evaluated_share (env_curve E) blinded
      \<lparr>share_idx = Index (of_nat (Suc i)), share_secret = share_secret (key_shares ! i)\<rparr>, g i)) idx"
    and start: "oprf_start (env_curve E) inp random' rng2 = ((factor, blinded), rng2')"
    and nz: "blinding_scalar factor \<noteq> 0"
    and keys: "derive_unlock_key_and_commitment (env_prims E)
      (unoblivious_evaluate (env_curve E) (env_prims E) (PrivateKey root) inp) = (unlock_key, our_commitment)"
  shows "unlock_from_shares E inp factor commitment grp st =
    Some (if commitment = our_commitment then Ok unlock_key else Err (InvalidPin (Min (g ` set idx))), st)"
proof -
  let ?C = "env_curve E"
  have len: "length key_shares = unat cnt"
    by (rule length_create_shares [OF created])
  have "distinct key_shares"
    using create_shares_indices(2) [OF created] by (simp add: distinct_map)
  then have dist: "distinct (map ((!) key_shares) idx)"
    using idx(1,2) len by (auto simp: distinct_map intro!: inj_onI) (metis lessThan_iff nth_eq_iff_index_eq subsetD)
  have nth: "\<lparr>share_idx = Index (of_nat (Suc i)), share_secret = share_secret (key_shares ! i)\<rparr> = key_shares ! i"
    if "i \<in> set idx" for i
    using created_share_nth [OF created, of i] that idx(2) by auto
  have "map fst grp = map (evaluated_share ?C blinded) (map ((!) key_shares) idx)"
    unfolding grp map_map comp_def fst_conv by (rule map_cong [OF refl]) (simp only: nth)
  moreover have "set (map ((!) key_shares) idx) \<subseteq> set key_shares"
    using idx(2) len by auto
  ultimately have "recover_secret (scalar_from ?C) (point_mul ?C) (map fst grp) =
      Ok (point_mul ?C (uncompressed (bi_point blinded)) root)"
    using threshold_evaluation [OF laws created inj _ dist, of blinded] idx(3) by simp
  moreover have "oprf_finalize ?C (env_prims E) inp factor
      (blinded_output_from ?C (point_mul ?C (uncompressed (bi_point blinded)) root)) =
      unoblivious_evaluate ?C (env_prims E) (PrivateKey root) inp"
    by (rule oprf_finalize_evaluated [OF laws start nz]) (simp add: blinded_output_from_def)
  moreover have "idx \<noteq> []"
    using idx(3,4) by auto
  then have "min_value (map snd grp) = Some (Min (g ` set idx))"
    by (simp add: grp min_value_eq comp_def)
  ultimately show ?thesis
    using keys by (auto simp: unlock_from_shares_def io_bind_def io_panics_def io_err_def io_return_def)
qed

lemma honest_phase2:
  assumes ok: "executor_ok E" and cfg: "checked_ok configuration" and serves: "serves E H left I requests"
    and laws: "curve_laws (env_curve E)"
    and created: "create_shares (scalar_from (env_curve E)) (*) random root
      (recover_threshold (the_configuration configuration)) (of_nat (length (crealms configuration))) rng =
      Some (key_shares, rng')"
    and inj: "inj_on (scalar_from (env_curve E)) {1..of_nat (length (crealms configuration))}"
    and nz: "\<And>w. fst (env_random_scalar E w) \<noteq> 0"
    and mem: "\<And>i. i < length (crealms configuration) \<Longrightarrow> \<exists>q. (crealms configuration ! i, q) \<in> set requests \<and>
      stored E version unlock_key commitment vk enc (share_secret (key_shares ! i)) (share_secret (scalar_shares ! i))
        (realm_id (crealms configuration ! i)) q"
    and many: "unat (recover_threshold (the_configuration configuration)) \<le> length hs"
    and hs: "distinct hs" "set hs \<subseteq> set (crealms configuration)" "set hs \<subseteq> H"
    and inv: "I (n + length hs) {} {} st"
    and keys: "derive_unlock_key_and_commitment (env_prims E)
      (unoblivious_evaluate (env_curve E) (env_prims E) (PrivateKey root) (bytes_of (expose_access_key access_key))) =
      (our_key, our_commitment)"
  shows "\<exists>st'. recover_phase2 E configuration version hs access_key st =
    Some (if commitment = our_commitment then Ok our_key else Err (InvalidPin (Min (left ` set hs))), st') \<and>
    I n (set hs) {} st'"
proof -
  let ?inp = "bytes_of (expose_access_key access_key)" and ?C = "env_curve E"
  obtain factor blinded w where start: "oprf_start ?C ?inp (env_random_scalar E) (world st) = ((factor, blinded), w)"
    by (metis prod.collapse)
  have w: "w = snd (env_random_scalar E (world st))" "blinding_scalar factor = fst (env_random_scalar E (world st))"
    using start by (auto simp: oprf_start_def Let_def split_beta)
  have "I (n + length hs) {} {} (st\<lparr>world := w\<rparr>)"
    unfolding w(1) by (rule servesD(2) [OF serves inv])
  from honest_agreement [OF ok cfg serves laws oprf_start_ok [OF start] mem many hs this]
  obtain idx st' where agree: "recover2_agreement E configuration version hs blinded (st\<lparr>world := w\<rparr>) =
      Some (Ok ((commitment, vk), map (\<lambda>i. (evaluated_share ?C blinded
        \<lparr>share_idx = Index (of_nat (Suc i)), share_secret = share_secret (key_shares ! i)\<rparr>,
        left (crealms configuration ! i))) idx), st')" (is "_ = Some (Ok (_, ?grp), st')") and st': "I n (set hs) {} st'"
    and idx: "distinct idx" "set idx \<subseteq> {..<length (crealms configuration)}" "length idx = length hs"
      "set (map ((!) (crealms configuration)) idx) = set hs"
    by blast
  have n: "unat (of_nat (length (crealms configuration)) :: u32) = length (crealms configuration)"
    using cfg by (intro of_nat_inverse [OF refl]) (simp add: checked_ok_def configuration_ok_def)
  have "blinding_scalar factor \<noteq> 0"
    using nz w(2) by simp
  then have "unlock_from_shares E ?inp factor commitment ?grp st' = Some (if commitment = our_commitment
      then Ok our_key else Err (InvalidPin (Min ((\<lambda>i. left (crealms configuration ! i)) ` set idx))), st')"
    by (intro honest_unlock [OF laws created inj idx(1) _ _ checked_ok_facts(2) [OF cfg] refl start _ keys])
      (use idx(2,3) many n in simp_all)
  moreover have "(\<lambda>i. left (crealms configuration ! i)) ` set idx = left ` set hs"
    unfolding idx(4) [symmetric] by (simp add: image_image)
  ultimately have "recover_phase2 E configuration version hs access_key st =
      Some (if commitment = our_commitment then Ok our_key else Err (InvalidPin (Min (left ` set hs))), st')"
    using start agree by (simp add: recover_phase2_def Let_def io_bind_def io_world_def)
  with st' show ?thesis
    by blast
qed

lemma accepted_all:
  assumes "\<And>share enc c realm. (share, enc, c, realm) \<in> set results \<Longrightarrow>
    secret_commitment_derive (env_curve E) (env_prims E) unlock_key (realm_id realm)
      (ScalarShare (share_secret share)) enc = Some c"
  shows "accepted_shares E unlock_key results = Some (map (\<lambda>(share, enc, c, realm). (enc, share)) results)"
proof -
  obtain accepted where acc: "accepted_shares E unlock_key results = Some accepted"
    using accepted_shares_total by blast
  moreover have "filter (\<lambda>(share, enc, c, realm). secret_commitment_derive (env_curve E) (env_prims E) unlock_key
          (realm_id realm) (ScalarShare (share_secret share)) enc = Some c) results = results"
    using assms by (auto simp: filter_id_conv)
  ultimately show ?thesis
    using accepted_shares_filter [OF acc] by simp
qed

lemma recover3_requests_eq:
  assumes "\<And>realm. realm \<in> set found \<Longrightarrow> unlock_key_tag_derive (env_prims E) unlock_key (realm_id realm) = Some (tag realm)"
  shows "recover3_requests E configuration version unlock_key found =
    Some (map (\<lambda>realm. recover3_on_realm E realm configuration version (tag realm)) found)"
  using assms unfolding recover3_requests_def by (induction found) auto

lemma honest_collect:
  assumes ok: "executor_ok E" and cfg: "checked_ok configuration" and serves: "serves E H left I requests"
    and mem: "\<And>i. i < length (crealms configuration) \<Longrightarrow> \<exists>q. (crealms configuration ! i, q) \<in> set requests \<and>
      stored E version unlock_key commitment vk enc (share_secret (key_shares ! i)) (share_secret (scalar_shares ! i))
        (realm_id (crealms configuration ! i)) q"
    and many: "unat (recover_threshold (the_configuration configuration)) \<le> length hs"
    and hs: "distinct hs" "set hs \<subseteq> set (crealms configuration)" "set hs \<subseteq> H"
    and inv: "I (n + length hs) T {} st"
    and tag: "\<And>realm. unlock_key_tag_derive (env_prims E) unlock_key (realm_id realm) = Some (tag realm)"
  shows "\<exists>idx results st'. I n T (set hs) st' \<and> join_at_least_threshold E
      (map (\<lambda>realm. recover3_on_realm E realm configuration version (tag realm)) hs)
      (recover_threshold (the_configuration configuration)) st = Some (Ok results, st') \<and>
    distinct idx \<and> set idx \<subseteq> {..<length (crealms configuration)} \<and> length idx = length hs \<and>
    accepted_shares E unlock_key results = Some (map (\<lambda>i. (enc,
      \<lparr>share_idx = Index (of_nat (Suc i)), share_secret = share_secret (scalar_shares ! i)\<rparr>)) idx)"
proof -
  let ?t = "recover_threshold (the_configuration configuration)" and ?rs = "crealms configuration"
  let ?derive = "secret_commitment_derive (env_curve E) (env_prims E) unlock_key"
  let ?share = "\<lambda>i. \<lparr>share_idx = Index (of_nat (Suc i)), share_secret = share_secret (scalar_shares ! i)\<rparr>"
  let ?Q = "\<lambda>i x. \<exists>c. x = (?share i, enc, c, ?rs ! i) \<and>
      ?derive (realm_id (?rs ! i)) (ScalarShare (share_secret (scalar_shares ! i))) enc = Some c"
  let ?K = "\<lambda>todo. I (n + length todo) T (set hs - set todo)"
  let ?g = "\<lambda>realm. recover3_on_realm E realm configuration version (tag realm)"
  have step: "\<exists>q st'. ?g (?rs ! i) st = Some (q, st') \<and> ?K rest st' \<and>
      (if ?rs ! i \<in> H then \<exists>x. q = Ok x \<and> ?Q i x else \<exists>e. q = Err e)"
    if i: "i < length ?rs" and sub: "set (?rs ! i # rest) \<subseteq> set hs" and d: "distinct (?rs ! i # rest)"
      and K: "?K (?rs ! i # rest) st" for i rest st
  proof -
    obtain q where q: "(?rs ! i, q) \<in> set requests" "stored E version unlock_key commitment vk enc
        (share_secret (key_shares ! i)) (share_secret (scalar_shares ! i)) (realm_id (?rs ! i)) q"
      using mem [OF i] by blast
    have U: "insert (?rs ! i) (set hs - set (?rs ! i # rest)) = set hs - set rest"
      using sub d by auto
    from recover3_answer [where I = I, OF serves q(1) K [simplified] q(2) share_index_nth [OF cfg i] tag] show ?thesis
      unfolding U [simplified] by simp
  qed
  have start: "?K todo (st\<lparr>world := snd (env_executor E (length hs) (world st))\<rparr>)" if "set todo = set hs" "distinct todo" for todo
    using that servesD(1) [OF serves inv] same_length [OF hs(1) that(2)] by simp
  from join_positions [where g = ?g and K = ?K and Q = ?Q, OF ok cfg many hs step start]
  obtain idx xs st' where join: "join_at_least_threshold E (map ?g hs) ?t st = Some (Ok xs, st')" and st': "I n T (set hs) st'"
    and idx: "list_all2 ?Q idx xs" "distinct idx" "set idx \<subseteq> {..<length ?rs}" "length idx = length hs"
    by auto
  have "?derive (realm_id realm) (ScalarShare (share_secret share)) e = Some c"
    if "(share, e, c, realm) \<in> set xs" for share e c realm
    using idx(1) that by (induction rule: list_all2_induct) auto
  then have "accepted_shares E unlock_key xs = Some (map (\<lambda>(share, enc, c, realm). (enc, share)) xs)"
    by (rule accepted_all)
  also have "map (\<lambda>(share, enc, c, realm). (enc, share)) xs = map (\<lambda>i. (enc, ?share i)) idx"
    using idx(1) by (induction rule: list_all2_induct) auto
  finally show ?thesis
    using join st' idx(2-4) by blast
qed

lemma honest_phase3:
  assumes ok: "executor_ok E" and cfg: "checked_ok configuration" and serves: "serves E H left I requests"
    and created: "create_shares (scalar_from (env_curve E)) (*) random scl
      (recover_threshold (the_configuration configuration)) (of_nat (length (crealms configuration))) rng =
      Some (scalar_shares, rng')"
    and inj: "inj_on (scalar_from (env_curve E)) {1..of_nat (length (crealms configuration))}"
    and mem: "\<And>i. i < length (crealms configuration) \<Longrightarrow> \<exists>q. (crealms configuration ! i, q) \<in> set requests \<and>
      stored E version unlock_key commitment vk enc (share_secret (key_shares ! i)) (share_secret (scalar_shares ! i))
        (realm_id (crealms configuration ! i)) q"
    and many: "unat (recover_threshold (the_configuration configuration)) \<le> length hs"
    and hs: "distinct hs" "set hs \<subseteq> set (crealms configuration)" "set hs \<subseteq> H"
    and inv: "I (n + length hs) T {} st"
    and key: "encryption_key_derive (env_curve E) (env_prims E) seed (EncryptionKeyScalar scl) = Some key"
  shows "\<exists>st'. recover_phase3 E configuration version hs unlock_key seed st = Some (Ok (enc, key), st') \<and>
    I n T (set hs) st'"
proof -
  let ?t = "recover_threshold (the_configuration configuration)" and ?rs = "crealms configuration"
  define tag where "tag = (\<lambda>realm :: 'b realm. the (unlock_key_tag_derive (env_prims E) unlock_key (realm_id realm)))"
  have tag: "unlock_key_tag_derive (env_prims E) unlock_key (realm_id realm) = Some (tag realm)" for realm
    using tag_derive_total(2) [of "env_prims E" unlock_key "realm_id realm"] by (auto simp: tag_def)
  from honest_collect [where I = I and T = T, OF ok cfg serves mem many hs inv tag]
  obtain idx results st' where join: "join_at_least_threshold E
      (map (\<lambda>realm. recover3_on_realm E realm configuration version (tag realm)) hs) ?t st = Some (Ok results, st')"
    and st': "I n T (set hs) st'"
    and idx: "distinct idx" "set idx \<subseteq> {..<length ?rs}" "length idx = length hs"
    and acc: "accepted_shares E unlock_key results = Some (map (\<lambda>i. (enc,
      \<lparr>share_idx = Index (of_nat (Suc i)), share_secret = share_secret (scalar_shares ! i)\<rparr>)) idx)"
    by blast
  let ?es = "map (\<lambda>i. (enc,
      \<lparr>share_idx = Index (of_nat (Suc i)), share_secret = share_secret (scalar_shares ! i)\<rparr>)) idx"
  have n: "unat (of_nat (length ?rs) :: u32) = length ?rs"
    using cfg by (intro of_nat_inverse [OF refl]) (simp add: checked_ok_def configuration_ok_def)
  have "consensus ?t ?es = Some (Some (enc, map snd ?es))"
  proof (rule consensus_uniform)
    show "length ?es < 2 * unat ?t"
      using idx(3) distinct_realms_bound [OF cfg hs(1,2)] by simp
  qed (use idx(3) many in auto)
  moreover have "recover_secret (scalar_from (env_curve E)) (*) (map snd ?es) = Ok scl"
    using recover_created_positions [OF created inj _ idx(1)] idx(2,3) many n by (simp add: comp_def)
  moreover have "recover3_requests E configuration version unlock_key hs =
      Some (map (\<lambda>realm. recover3_on_realm E realm configuration version (tag realm)) hs)"
    by (rule recover3_requests_eq) (rule tag)
  ultimately have "recover_phase3 E configuration version hs unlock_key seed st = Some (Ok (enc, key), st')"
    using join acc key by (simp add: recover_phase3_def Let_def io_bind_def io_panics_def io_result_def io_return_def)
  with st' show ?thesis
    by blast
qed

text \<open>The honest realms of a configuration.\<close>

definition honest :: "'u realm set \<Rightarrow> 'u checked_configuration \<Rightarrow> 'u realm set" where
  "honest H configuration = set (filter (\<lambda>r. r \<in> H) (crealms configuration))"

text \<open>Recovery under a PIN that hashes to \<open>(ak, seed')\<close>, up to the final decryption.\<close>

lemma honest_recovery:
  assumes ok: "executor_ok E" and cfg: "checked_ok configuration" and serves: "serves E H left I requests"
    and laws: "curve_laws (env_curve E)"
    and created: "create_shares (scalar_from (env_curve E)) (*) random root
      (recover_threshold (the_configuration configuration)) (of_nat (length (crealms configuration))) rng =
      Some (key_shares, rng')"
    and scalars: "create_shares (scalar_from (env_curve E)) (*) random' scl
      (recover_threshold (the_configuration configuration)) (of_nat (length (crealms configuration))) rng2 =
      Some (scalar_shares, rng2')"
    and inj: "inj_on (scalar_from (env_curve E)) {1..of_nat (length (crealms configuration))}"
    and nz: "\<And>w. fst (env_random_scalar E w) \<noteq> 0"
    and mem: "\<And>i. i < length (crealms configuration) \<Longrightarrow> \<exists>q. (crealms configuration ! i, q) \<in> set requests \<and>
      stored E version unlock_key commitment vk enc (share_secret (key_shares ! i)) (share_secret (scalar_shares ! i))
        (realm_id (crealms configuration ! i)) q"
    and many: "unat (recover_threshold (the_configuration configuration)) \<le>
      length (filter (\<lambda>r. r \<in> H) (crealms configuration))"
    and inv: "I (n + 3 * length (crealms configuration)) {} {} st"
    and hash: "pin_hash (env_prims E) pin (config_pin_hashing_mode (the_configuration configuration)) version info =
      Some (Some (access_key, seed))"
    and keys: "derive_unlock_key_and_commitment (env_prims E)
      (unoblivious_evaluate (env_curve E) (env_prims E) (PrivateKey root) (bytes_of (expose_access_key access_key))) =
      (our_key, our_commitment)"
  shows "commitment \<noteq> our_commitment \<Longrightarrow>
      \<exists>st'. recover_key E pin info configuration st =
        Some (Err (InvalidPin (Min (left ` honest H configuration))), st') \<and> I n (honest H configuration) {} st'"
    and "commitment = our_commitment \<Longrightarrow> our_key = unlock_key \<Longrightarrow>
      encryption_key_derive (env_curve E) (env_prims E) seed (EncryptionKeyScalar scl) = Some key \<Longrightarrow>
      \<exists>st'. recover_key E pin info configuration st = Some (Ok (enc, key), st') \<and>
        I n (honest H configuration) (honest H configuration) st'"
proof -
  have versions: "\<exists>q. (realm, q) \<in> set requests \<and> r2_version q = version"
    if "realm \<in> set (crealms configuration)" for realm
    using mem that by (metis (no_types, lifting) in_set_conv_nth stored_def)
  have "I (n + 2 * length (crealms configuration) + length (crealms configuration)) {} {} st"
    using inv by (simp add: algebra_simps)
  from honest_phase1 [OF ok cfg serves versions many this]
  obtain hs st1 where p1: "recover_phase1 E configuration st = Some (Ok (version, hs), st1)"
    and st1: "I (n + 2 * length (crealms configuration)) {} {} st1"
    and hs: "mset hs = mset (filter (\<lambda>r. r \<in> H) (crealms configuration))"
    by blast
  have sel: "unat (recover_threshold (the_configuration configuration)) \<le> length hs"
    using hs many by (metis size_mset)
  have asked: "set hs = honest H configuration"
    unfolding honest_def using hs by (rule mset_eq_setD)
  then have sub: "set hs \<subseteq> set (crealms configuration)" "set hs \<subseteq> H"
    by (auto simp: honest_def)
  have dist: "distinct hs"
    using hs checked_ok_facts(1) [OF cfg] by (metis distinct_filter mset_eq_imp_distinct_iff)
  have "length hs \<le> length (crealms configuration)"
    using hs by (metis length_filter_le size_mset)
  then have st1: "I (n + length hs + length hs) {} {} st1"
    using serves_less [where I = I, OF serves _ st1] by simp
  from honest_phase2 [OF ok cfg serves laws created inj nz mem sel dist sub st1 keys]
  obtain st2 where p2: "recover_phase2 E configuration version hs access_key st1 =
      Some (if commitment = our_commitment then Ok our_key else Err (InvalidPin (Min (left ` set hs))), st2)"
    and st2: "I (n + length hs) (set hs) {} st2"
    by blast
  have run: "recover_key E pin info configuration st =
      io_bind (\<lambda>_. Some (if commitment = our_commitment then Ok our_key else Err (InvalidPin (Min (left ` set hs))), st2))
        (\<lambda>unlock_key. recover_phase3 E configuration version hs unlock_key seed) st1"
    using p1 p2 hash by (simp add: recover_key_def io_bind_def io_panics_def)
  show "\<exists>st'. recover_key E pin info configuration st =
        Some (Err (InvalidPin (Min (left ` honest H configuration))), st') \<and> I n (honest H configuration) {} st'"
    if "commitment \<noteq> our_commitment"
    using run that serves_less [where I = I, OF serves le_add1 st2] unfolding asked by (auto simp: io_bind_def)
  show "\<exists>st'. recover_key E pin info configuration st = Some (Ok (enc, key), st') \<and>
        I n (honest H configuration) (honest H configuration) st'"
    if "commitment = our_commitment" "our_key = unlock_key"
      "encryption_key_derive (env_curve E) (env_prims E) seed (EncryptionKeyScalar scl) = Some key"
    using honest_phase3 [OF ok cfg serves scalars inj mem sel dist sub st2 that(3)] run that(1,2)
    unfolding asked by (auto simp: io_bind_def)
qed

lemma perform_recover_outcome:
  assumes "recover_key E pin info configuration st = Some (r, st')"
  shows "perform_recover_with_configuration E pin info configuration st =
    (case r of
       Err e \<Rightarrow> Some (Err e, st')
     | Ok (enc, key) \<Rightarrow> map_option (\<lambda>s. (Ok s, st')) (user_secret_decrypt (env_prims E) enc key))"
  using assms by (auto simp: perform_recover_with_configuration_def io_bind_def io_panics_def
      split: sum.splits option.splits)

text \<open>The shares of the OPRF key that a registration uploads determine its root key.\<close>

lemma stored_root:
  fixes E :: "('w, 'u, 's::field, 'p::ab_group_add, 'ed) env"
  assumes cfg: "checked_ok configuration"
    and inj: "inj_on (scalar_from (env_curve E)) {1..of_nat (length (crealms configuration))}"
    and shares: "create_shares (scalar_from (env_curve E)) (*) (env_random_scalar E) root
      (recover_threshold (the_configuration configuration)) (of_nat (length (crealms configuration))) r1 =
      Some (ks, r1')"
    and len: "length requests = length (crealms configuration)"
    and stored: "\<And>i. i < length (crealms configuration) \<Longrightarrow>
      stored E version unlock_key commitment vk enc (share_secret (ks ! i)) (share_secret (ss ! i))
        (realm_id (crealms configuration ! i)) (snd (requests ! i))"
  shows "recover_secret (scalar_from (env_curve E)) (*)
      (map (\<lambda>i. \<lparr>share_idx = Index (of_nat (Suc i)),
        share_secret = private_scalar (r2_oprf_private_key (snd (requests ! i)))\<rparr>) [0..<length requests]) = Ok root"
proof -
  have n: "unat (of_nat (length (crealms configuration)) :: u32) = length (crealms configuration)"
    using cfg by (intro of_nat_inverse [OF refl]) (simp add: checked_ok_def configuration_ok_def)
  have "recover_secret (scalar_from (env_curve E)) (*)
      (map (\<lambda>i. \<lparr>share_idx = Index (of_nat (Suc i)), share_secret = share_secret (ks ! i)\<rparr>) [0..<length requests]) = Ok root"
    by (rule recover_created_positions [OF shares inj])
      (use len n cfg in \<open>auto simp: checked_ok_def configuration_ok_def\<close>)
  moreover have "private_scalar (r2_oprf_private_key (snd (requests ! i))) = share_secret (ks ! i)"
    if "i < length (crealms configuration)" for i
    using stored [OF that] by (simp add: stored_def)
  then have "map (\<lambda>i. \<lparr>share_idx = Index (of_nat (Suc i)),
        share_secret = private_scalar (r2_oprf_private_key (snd (requests ! i)))\<rparr>) [0..<length requests] =
      map (\<lambda>i. \<lparr>share_idx = Index (of_nat (Suc i)), share_secret = share_secret (ks ! i)\<rparr>) [0..<length requests]"
    using len by (intro map_cong refl) simp
  ultimately show ?thesis
    by (simp only:)
qed

text \<open>
  What a registration fixes for later recoveries: a version, a root key and the access key of its
  PIN. Against realms that serve it, recovery with the same PIN and user info returns the secret,
  and with values whose access key has another commitment it returns \<open>InvalidPin\<close> with the least
  number of guesses left.
\<close>

lemma recovery_after_registration:
  fixes E :: "('w, 'u, 's::field, 'p::ab_group_add, 'ed) env"
  assumes ok: "executor_ok E" and laws: "curve_laws (env_curve E)" "prim_laws (env_prims E)"
    and cfg: "checked_ok configuration"
    and inj: "inj_on (scalar_from (env_curve E)) {1..of_nat (length (crealms configuration))}"
    and nz: "\<And>w. fst (env_random_scalar E w) \<noteq> 0"
    and secret: "user_secret_from b = Some secret"
    and run: "prepare_registration E configuration pin secret info policy st = Some (Ok requests, st1)"
    and many: "unat (recover_threshold (the_configuration configuration)) \<le>
      length (filter (\<lambda>r. r \<in> H) (crealms configuration))"
  obtains version access_key seed root where
    "pin_hash (env_prims E) pin (config_pin_hashing_mode (the_configuration configuration)) version info =
      Some (Some (access_key, seed))"
    and "map fst requests = crealms configuration"
    and "\<And>q. q \<in> snd ` set requests \<Longrightarrow> r2_version q = version \<and> r2_policy q = policy \<and>
      r2_unlock_key_commitment q = snd (derive_unlock_key_and_commitment (env_prims E)
        (unoblivious_evaluate (env_curve E) (env_prims E) (PrivateKey root) (bytes_of (expose_access_key access_key))))"
    and "recover_secret (scalar_from (env_curve E)) (*)
      (map (\<lambda>i. \<lparr>share_idx = Index (of_nat (Suc i)),
        share_secret = private_scalar (r2_oprf_private_key (snd (requests ! i)))\<rparr>) [0..<length requests]) = Ok root"
    and "\<And>left I n st2. serves E H left I requests \<Longrightarrow> I (n + 3 * length (crealms configuration)) {} {} st2 \<Longrightarrow>
      \<exists>st3. perform_recover_with_configuration E pin info configuration st2 = Some (Ok secret, st3) \<and>
        I n (honest H configuration) (honest H configuration) st3"
    and "\<And>left I n st2 pin' info' access_key' seed'. serves E H left I requests \<Longrightarrow> I (n + 3 * length (crealms configuration)) {} {} st2 \<Longrightarrow>
      pin_hash (env_prims E) pin' (config_pin_hashing_mode (the_configuration configuration)) version info' =
        Some (Some (access_key', seed')) \<Longrightarrow>
      snd (derive_unlock_key_and_commitment (env_prims E)
        (unoblivious_evaluate (env_curve E) (env_prims E) (PrivateKey root) (bytes_of (expose_access_key access_key')))) \<noteq>
      snd (derive_unlock_key_and_commitment (env_prims E)
        (unoblivious_evaluate (env_curve E) (env_prims E) (PrivateKey root) (bytes_of (expose_access_key access_key)))) \<Longrightarrow>
      \<exists>st3. perform_recover_with_configuration E pin' info' configuration st2 =
        Some (Err (InvalidPin (Min (left ` honest H configuration))), st3) \<and> I n (honest H configuration) {} st3"
proof -
  let ?C = "env_curve E" and ?H = "env_prims E"
  let ?derive = "\<lambda>root access_key. derive_unlock_key_and_commitment ?H
      (unoblivious_evaluate ?C ?H (PrivateKey root) (bytes_of (expose_access_key access_key)))"
  obtain version access_key seed ks ss root scl r1 r1' r2 r2' key enc vk unlock_key commitment where
    hash: "pin_hash ?H pin (config_pin_hashing_mode (the_configuration configuration)) version info =
      Some (Some (access_key, seed))"
    and shares: "create_shares (scalar_from ?C) (*) (env_random_scalar E) root
      (recover_threshold (the_configuration configuration)) (of_nat (length (crealms configuration))) r1 =
      Some (ks, r1')"
      "create_shares (scalar_from ?C) (*) (env_random_scalar E) scl
      (recover_threshold (the_configuration configuration)) (of_nat (length (crealms configuration))) r2 =
      Some (ss, r2')"
    and keys: "?derive root access_key = (unlock_key, commitment)"
    and key: "encryption_key_derive ?C ?H seed (EncryptionKeyScalar scl) = Some key"
      "user_secret_decrypt ?H enc key = Some secret"
    and fst: "map fst requests = crealms configuration"
    and stored: "\<And>i. i < length (crealms configuration) \<Longrightarrow>
      stored E version unlock_key commitment vk enc (share_secret (ks ! i)) (share_secret (ss ! i))
        (realm_id (crealms configuration ! i)) (snd (requests ! i))"
    and policy: "\<And>i. i < length (crealms configuration) \<Longrightarrow> r2_policy (snd (requests ! i)) = policy"
    by (rule registration_stored [OF cfg laws(2) secret run]) (rule that)
  have mem: "\<exists>q. (crealms configuration ! i, q) \<in> set requests \<and>
      stored E version unlock_key commitment vk enc (share_secret (ks ! i)) (share_secret (ss ! i))
        (realm_id (crealms configuration ! i)) q" if "i < length (crealms configuration)" for i
    using request_member [OF fst that] stored [OF that] by blast
  have len: "length requests = length (crealms configuration)"
    using fst by (metis length_map)
  have same: "r2_version q = version \<and> r2_policy q = policy \<and> r2_unlock_key_commitment q = snd (?derive root access_key)"
    if q: "q \<in> snd ` set requests" for q
  proof -
    obtain i where "i < length (crealms configuration)" "q = snd (requests ! i)"
      using q len by (auto simp: in_set_conv_nth)
    then show ?thesis
      using stored [of i] policy [of i] keys by (simp add: stored_def)
  qed
  note root = stored_root [OF cfg inj shares(1) len stored]
  note recovery = honest_recovery [OF ok cfg _ laws(1) shares inj nz _ many]
  show thesis
  proof (rule that [OF hash fst same root])
    fix left I n st2
    assume "serves E H left I requests" "I (n + 3 * length (crealms configuration)) {} {} st2"
    from recovery(2) [OF this(1) mem this(2) hash keys refl refl key(1)]
    show "\<exists>st3. perform_recover_with_configuration E pin info configuration st2 = Some (Ok secret, st3) \<and>
        I n (honest H configuration) (honest H configuration) st3"
      using perform_recover_outcome key(2) by fastforce
  next
    fix left I n st2 pin' info' access_key' seed'
    assume "serves E H left I requests" "I (n + 3 * length (crealms configuration)) {} {} st2" and hash': "pin_hash ?H pin'
        (config_pin_hashing_mode (the_configuration configuration)) version info' = Some (Some (access_key', seed'))"
      and differ: "snd (?derive root access_key') \<noteq> snd (?derive root access_key)"
    from recovery(1) [OF this(1) mem this(2) hash', of "fst (?derive root access_key')" "snd (?derive root access_key')"] differ keys
    show "\<exists>st3. perform_recover_with_configuration E pin' info' configuration st2 =
        Some (Err (InvalidPin (Min (left ` honest H configuration))), st3) \<and> I n (honest H configuration) {} st3"
      using perform_recover_outcome by fastforce
  qed
qed

text \<open>C1. Who registered can recover: when the realms of a checked configuration hold what a registration
  uploaded and at least \<open>recover_threshold\<close> of them answer as documented (the others failing in
  any way) to three requests each, recovery with the same PIN and user info returns the registered secret, whatever
  the order in which the answers arrive. Each honest realm has then been asked for one guess
  and shown the tag.\<close>

theorem recover_registered:
  assumes "executor_ok E" and "curve_laws (env_curve E)" and "prim_laws (env_prims E)"
    and "checked_configuration_from c = Some configuration"
    and "inj_on (scalar_from (env_curve E)) {1..of_nat (length (crealms configuration))}"
    and "\<And>w. fst (env_random_scalar E w) \<noteq> 0"
    and "user_secret_from b = Some secret"
    and "prepare_registration E configuration pin secret info policy st = Some (Ok requests, st1)"
    and "serves E H left I requests"
    and "unat (recover_threshold (the_configuration configuration)) \<le>
      length (filter (\<lambda>r. r \<in> H) (crealms configuration))"
    and "I (n + 3 * length (crealms configuration)) {} {} st2"
  shows "\<exists>st3. perform_recover_with_configuration E pin info configuration st2 = Some (Ok secret, st3) \<and>
    I n (honest H configuration) (honest H configuration) st3"
  by (rule recovery_after_registration [OF assms(1-3) checked_configuration_from_ok [OF assms(4)]
        assms(5-8,10)]) (use assms(9,11) in blast)

text \<open>C2. A wrong PIN is reported as such: against the same realms, recovery with a PIN whose hash does not
  give the registered commitment under the registered root key returns \<open>InvalidPin\<close> with the
  least number of guesses that an honest realm has left; it neither returns a secret nor fails in
  another way, and no realm is shown a tag.\<close>

theorem wrong_pin_rejected:
  fixes E :: "('w, 'u, 's::field, 'p::ab_group_add, 'ed) env"
  assumes "executor_ok E" and "curve_laws (env_curve E)" and "prim_laws (env_prims E)"
    and "checked_configuration_from c = Some configuration"
    and "inj_on (scalar_from (env_curve E)) {1..of_nat (length (crealms configuration))}"
    and "\<And>w. fst (env_random_scalar E w) \<noteq> 0"
    and "user_secret_from b = Some secret"
    and "prepare_registration E configuration pin secret info policy st = Some (Ok requests, st1)"
    and "serves E H left I requests"
    and "unat (recover_threshold (the_configuration configuration)) \<le>
      length (filter (\<lambda>r. r \<in> H) (crealms configuration))"
    and "I (n + 3 * length (crealms configuration)) {} {} st2"
    and "(realm, q) \<in> set requests"
    and "recover_secret (scalar_from (env_curve E)) (*)
      (map (\<lambda>i. \<lparr>share_idx = Index (of_nat (Suc i)),
        share_secret = private_scalar (r2_oprf_private_key (snd (requests ! i)))\<rparr>) [0..<length requests]) = Ok root"
    and "pin_hash (env_prims E) wrong_pin (config_pin_hashing_mode (the_configuration configuration))
      (r2_version q) info = Some (Some (access_key, seed))"
    and "snd (derive_unlock_key_and_commitment (env_prims E) (unoblivious_evaluate (env_curve E) (env_prims E)
      (PrivateKey root) (bytes_of (expose_access_key access_key)))) \<noteq> r2_unlock_key_commitment q"
  shows "\<exists>st3. perform_recover_with_configuration E wrong_pin info configuration st2 =
    Some (Err (InvalidPin (Min (left ` honest H configuration))), st3) \<and> I n (honest H configuration) {} st3"
proof (rule recovery_after_registration [OF assms(1-3) checked_configuration_from_ok [OF assms(4)] assms(5-8,10)])
  fix version ak seed' root'
  assume root: "recover_secret (scalar_from (env_curve E)) (*)
      (map (\<lambda>i. \<lparr>share_idx = Index (of_nat (Suc i)),
        share_secret = private_scalar (r2_oprf_private_key (snd (requests ! i)))\<rparr>) [0..<length requests]) = Ok root'"
    and same: "\<And>q. q \<in> snd ` set requests \<Longrightarrow> r2_version q = version \<and> r2_policy q = policy \<and>
      r2_unlock_key_commitment q = snd (derive_unlock_key_and_commitment (env_prims E)
        (unoblivious_evaluate (env_curve E) (env_prims E) (PrivateKey root') (bytes_of (expose_access_key ak))))"
    and wrong: "\<And>left I n st2 pin' info' access_key' seed'. serves E H left I requests \<Longrightarrow> I (n + 3 * length (crealms configuration)) {} {} st2 \<Longrightarrow>
      pin_hash (env_prims E) pin' (config_pin_hashing_mode (the_configuration configuration)) version info' =
        Some (Some (access_key', seed')) \<Longrightarrow>
      snd (derive_unlock_key_and_commitment (env_prims E)
        (unoblivious_evaluate (env_curve E) (env_prims E) (PrivateKey root') (bytes_of (expose_access_key access_key')))) \<noteq>
      snd (derive_unlock_key_and_commitment (env_prims E)
        (unoblivious_evaluate (env_curve E) (env_prims E) (PrivateKey root') (bytes_of (expose_access_key ak)))) \<Longrightarrow>
      \<exists>st3. perform_recover_with_configuration E pin' info' configuration st2 =
        Some (Err (InvalidPin (Min (left ` honest H configuration))), st3) \<and> I n (honest H configuration) {} st3"
  have "root' = root"
    using root assms(13) by simp
  with same [of q] assms(12) wrong [OF assms(9,11), of wrong_pin info access_key seed] assms(14,15) show ?thesis
    by force
qed

end
