(* ===== verification/Realm_Spec.thy ===== *)
theory Realm_Spec
  imports End_To_End
begin

text \<open>
  The realm of the whitepaper (whitepaper/whitepaper.typ, sections Realm State, Registration,
  Recovery and Deletion) as a state machine: what the client's requests do to the record of the
  user, and the answers. The realms are not part of the repository; \<open>hosts\<close> states, for an
  environment, which realms run this machine while the others fail. Realms that host a
  registration serve its recovery in the sense of \<open>End_To_End\<close>.
\<close>

section \<open>The record of a user\<close>

datatype 's record_state =
    Unregistered
  | SelfDestructed
  | Registered "'s register2_request" nat

definition allowed_guesses :: "'s register2_request \<Rightarrow> nat" where
  "allowed_guesses q = unat (num_guesses (r2_policy q))"

text \<open>\<open>random\<close> is the source of randomness of the proof that the second answer carries.\<close>

fun realm_step ::
  "('s::field, 'p::ab_group_add) curve \<Rightarrow> (unit \<Rightarrow> 's \<times> unit) \<Rightarrow> 's record_state \<Rightarrow>
     ('s, 'p) secrets_request \<Rightarrow> ('s, 'p) secrets_response \<times> 's record_state" where
  "realm_step C random s Register1 = (Register1Response Register1Ok, s)"
| "realm_step C random s (Register2 r) = (Register2Response Register2Ok, Registered r 0)"
| "realm_step C random s Delete = (DeleteResponse DeleteOk, Unregistered)"
| "realm_step C random s Recover1 =
     (case s of
        Unregistered \<Rightarrow> (Recover1Response Recover1NotRegistered, s)
      | SelfDestructed \<Rightarrow> (Recover1Response Recover1NoGuesses, s)
      | Registered q attempted \<Rightarrow>
          if allowed_guesses q \<le> attempted then (Recover1Response Recover1NoGuesses, SelfDestructed)
          else (Recover1Response (Recover1Ok (r2_version q)), s))"
| "realm_step C random s (Recover2 r) =
     (case s of
        Unregistered \<Rightarrow> (Recover2Response Recover2NotRegistered, s)
      | SelfDestructed \<Rightarrow> (Recover2Response Recover2NoGuesses, s)
      | Registered q attempted \<Rightarrow>
          if allowed_guesses q \<le> attempted then (Recover2Response Recover2NoGuesses, SelfDestructed)
          else if rec2_version r \<noteq> r2_version q then (Recover2Response Recover2VersionMismatch, s)
          else (let ((blinded_result, prf), _) = blind_verifiable_evaluate C (r2_oprf_private_key q)
                  (signed_public_key (r2_oprf_signed_public_key q)) (rec2_oprf_blinded_input r) random ()
                in (Recover2Response (Recover2Ok
                      \<lparr>ok_signed_public_key = r2_oprf_signed_public_key q,
                       ok_blinded_result = blinded_result, ok_proof = prf,
                       ok_unlock_key_commitment = r2_unlock_key_commitment q,
                       ok_num_guesses = num_guesses (r2_policy q),
                       ok_guess_count = of_nat (Suc attempted)\<rparr>),
                    Registered q (Suc attempted))))"
| "realm_step C random s (Recover3 r) =
     (case s of
        Unregistered \<Rightarrow> (Recover3Response Recover3NotRegistered, s)
      | SelfDestructed \<Rightarrow> (Recover3Response Recover3NoGuesses, s)
      | Registered q attempted \<Rightarrow>
          if rec3_version r \<noteq> r2_version q then (Recover3Response Recover3VersionMismatch, s)
          else if rec3_unlock_key_tag r \<noteq> r2_unlock_key_tag q
          then (let guesses_remaining = num_guesses (r2_policy q) - of_nat attempted in
                (Recover3Response (BadUnlockKeyTag guesses_remaining),
                 if guesses_remaining = 0 then SelfDestructed else s))
          else (Recover3Response (Recover3Ok (r2_encryption_key_scalar_share q)
                  (r2_encrypted_secret q) (r2_encrypted_secret_commitment q)), Registered q 0))"

text \<open>
  \<open>I n S st\<close> is an invariant of the state in which the records are \<open>S\<close> and \<open>n\<close> more requests can be
  made (a session with a hardware realm is good for a limited number). The client's use of the world
  keeps it; a request to a realm of \<open>H\<close> is answered by the machine, one to another realm of \<open>R\<close>
  fails and changes no record of a realm of \<open>H\<close>.
\<close>

definition hosts ::
  "('w, 'u, 's::field, 'p::ab_group_add, 'ed) env \<Rightarrow> 'u realm set \<Rightarrow> 'u realm set \<Rightarrow>
     (nat \<Rightarrow> ('u realm \<Rightarrow> 's record_state) \<Rightarrow> 'w client_state \<Rightarrow> bool) \<Rightarrow> bool" where
  "hosts E R H I \<longleftrightarrow>
     (\<forall>n S st m. I n S st \<longrightarrow> I n S (st\<lparr>world := snd (env_executor E m (world st))\<rparr>)) \<and>
     (\<forall>n S st. I n S st \<longrightarrow> I n S (st\<lparr>world := snd (env_random_scalar E (world st))\<rparr>)) \<and>
     (\<forall>n S st. I n S st \<longrightarrow> I n S (st\<lparr>world := snd (env_random16 E (world st))\<rparr>)) \<and>
     (\<forall>n S st. I n S st \<longrightarrow> I n S (st\<lparr>world := snd (env_random32 E (world st))\<rparr>)) \<and>
     (\<forall>n S st. I (Suc n) S st \<longrightarrow> I n S st) \<and>
     (\<forall>realm \<in> R. \<forall>n S st request. I (Suc n) S st \<longrightarrow>
        (\<exists>r st'. make_request E realm request st = Some (r, st') \<and>
           (if realm \<in> H
            then \<exists>random resp s. realm_step (env_curve E) random (S realm) request = (resp, s) \<and>
              r = Ok resp \<and> I n (S(realm := s)) st'
            else \<exists>e. r = Err e \<and> I n S st')))"

lemma hostsD:
  assumes "hosts E R H I"
  shows "I n S st \<Longrightarrow> I n S (st\<lparr>world := snd (env_executor E m (world st))\<rparr>)"
    and "I n S st \<Longrightarrow> I n S (st\<lparr>world := snd (env_random_scalar E (world st))\<rparr>)"
    and "I n S st \<Longrightarrow> I n S (st\<lparr>world := snd (env_random16 E (world st))\<rparr>)"
    and "I n S st \<Longrightarrow> I n S (st\<lparr>world := snd (env_random32 E (world st))\<rparr>)"
    and "I (Suc n) S st \<Longrightarrow> I n S st"
  using assms unfolding hosts_def by ((elim conjE, simp)+)

lemma hosts_less:
  assumes "hosts E R H I" and "m \<le> n" and "I n S st"
  shows "I m S st"
  by (rule down_closed [where Q = "\<lambda>n. I n S st", OF hostsD(5) [OF assms(1)] assms(2,3)])

lemma hosts_request:
  assumes "hosts E R H I" and "realm \<in> R" and "I (Suc n) S st"
  obtains (honest) random resp s st' where "realm \<in> H"
      and "realm_step (env_curve E) random (S realm) request = (resp, s)"
      and "make_request E realm request st = Some (Ok resp, st')" and "I n (S(realm := s)) st'"
    | (failing) e st' where "realm \<notin> H" and "make_request E realm request st = Some (Err e, st')" and "I n S st'"
proof -
  obtain r st' where r: "make_request E realm request st = Some (r, st')"
    and answer: "if realm \<in> H
      then \<exists>random resp s. realm_step (env_curve E) random (S realm) request = (resp, s) \<and>
        r = Ok resp \<and> I n (S(realm := s)) st'
      else \<exists>e. r = Err e \<and> I n S st'"
    using assms(1) [unfolded hosts_def, THEN conjunct2, THEN conjunct2, THEN conjunct2, THEN conjunct2,
      THEN conjunct2, rule_format, OF assms(2,3), of request] by (elim exE conjE)
  show thesis
  proof (cases "realm \<in> H")
    case True
    then obtain random resp s where "realm_step (env_curve E) random (S realm) request = (resp, s)"
        "r = Ok resp" "I n (S(realm := s)) st'"
      using answer by auto
    with True r show thesis
      by (intro honest) simp_all
  next
    case False
    then obtain e where "r = Err e" "I n S st'"
      using answer by auto
    with False r show thesis
      by (intro failing) simp_all
  qed
qed

section \<open>Hosting a registration is serving it\<close>

text \<open>
  The records during a recovery of \<open>requests\<close> that began with \<open>k\<close> guesses used: one more at the realms
  that were asked for a guess, none at those that were shown the tag.
\<close>

definition recovering ::
  "'u realm set \<Rightarrow> ('u realm \<times> 's register2_request) list \<Rightarrow> nat \<Rightarrow> 'u realm set \<Rightarrow> 'u realm set \<Rightarrow>
     ('u realm \<Rightarrow> 's record_state) \<Rightarrow> bool" where
  "recovering H requests k T U S \<longleftrightarrow>
     (\<forall>(realm, q) \<in> set requests. realm \<in> H \<longrightarrow>
        S realm = Registered q (if realm \<in> U then 0 else if realm \<in> T then Suc k else k))"

lemma recovering_update:
  assumes rec: "recovering H requests k T U S" and dist: "distinct (map fst requests)"
    and mem: "(realm, q) \<in> set requests"
    and T: "T' = T \<or> T' = insert realm T" and U: "U' = U \<or> U' = insert realm U"
  shows "recovering H requests k T' U'
    (S(realm := Registered q (if realm \<in> U' then 0 else if realm \<in> T' then Suc k else k)))"
  unfolding recovering_def
proof safe
  fix r p assume rp: "(r, p) \<in> set requests" "r \<in> H"
  show "(S(realm := Registered q (if realm \<in> U' then 0 else if realm \<in> T' then Suc k else k))) r =
      Registered p (if r \<in> U' then 0 else if r \<in> T' then Suc k else k)"
  proof (cases "r = realm")
    case True
    then have "p = q"
      using eq_key_imp_eq_value [OF dist] rp(1) mem by blast
    with True show ?thesis
      by simp
  next
    case False
    then show ?thesis
      using rec rp T U unfolding recovering_def by fastforce
  qed
qed

lemma guesses_left:
  assumes "k < unat (n :: u16)"
  shows "(of_nat (Suc k) :: u16) \<le> n" "unat (n - of_nat (Suc k)) = unat n - Suc k"
proof -
  have k: "unat (of_nat (Suc k) :: u16) = Suc k"
    using assms unat_bound [of n] by (intro of_nat_inverse [OF refl]) simp
  then show le: "(of_nat (Suc k) :: u16) \<le> n"
    using assms unfolding word_le_nat_alt by linarith
  show "unat (n - of_nat (Suc k)) = unat n - Suc k"
    unfolding unat_sub [OF le] k by simp
qed

text \<open>The machine answers what recovery expects, and moves from one record of \<open>recovering\<close> to the next.\<close>

lemma recovering_step:
  assumes step: "realm_step C random (Registered q (if realm \<in> U then 0 else if realm \<in> T then Suc k else k)) request =
      (resp, s)"
    and request: "expected q request" "needs_guess request \<longrightarrow> realm \<notin> T \<union> U"
    and k: "k < unat (num_guesses (r2_policy q))"
  shows "s = Registered q (if realm \<in> unlocked realm request U then 0 else if realm \<in> tried realm request T then Suc k else k)"
    and "honest_answer C q (num_guesses (r2_policy q) - of_nat (Suc k)) request resp"
  using step request k guesses_left(1) [OF k]
  by (cases request; auto simp: allowed_guesses_def Let_def split: prod.splits if_splits)+

lemma hosted_answer:
  assumes hosts: "hosts E R H I" and dist: "distinct (map fst requests)"
    and rec: "realm \<in> R" "(realm, q) \<in> set requests" and k: "k < unat (num_guesses (r2_policy q))"
    and S: "I (Suc n) S st" "recovering H requests k T U S"
    and request: "expected q request" "needs_guess request \<longrightarrow> realm \<notin> T \<union> U"
  shows "\<exists>r st'. make_request E realm request st = Some (r, st') \<and>
    (\<exists>S. I n S st' \<and> recovering H requests k (tried realm request T) (unlocked realm request U) S) \<and>
    (if realm \<in> H
     then \<exists>resp. r = Ok resp \<and> honest_answer (env_curve E) q (num_guesses (r2_policy q) - of_nat (Suc k)) request resp
     else \<exists>e. r = Err e)"
  using hosts rec(1) S(1)
proof (cases rule: hosts_request [where request = request])
  case (honest random resp s st')
  let ?k = "if realm \<in> U then 0 else if realm \<in> T then Suc k else k"
  have "S realm = Registered q ?k"
    using S(2) rec(2) honest(1) unfolding recovering_def by fastforce
  then have "realm_step (env_curve E) random (Registered q ?k) request = (resp, s)"
    using honest(2) by simp
  note step = recovering_step [OF this request k]
  have "recovering H requests k (tried realm request T) (unlocked realm request U) (S(realm := s))"
    unfolding step(1) by (rule recovering_update [OF S(2) dist rec(2)]) (cases request; simp)+
  then show ?thesis
    using honest(1,3,4) step(2) by (simp only: if_True) blast
next
  case (failing e st')
  have "recovering H requests k (tried realm request T) (unlocked realm request U) S"
    using S(2) rec(2) failing(1) by (cases request) (auto simp: recovering_def)
  with failing show ?thesis
    by auto
qed

lemma hosts_serves:
  assumes hosts: "hosts E R H I" and dist: "distinct (map fst requests)" and sub: "fst ` set requests \<subseteq> R"
    and left: "\<And>q. q \<in> snd ` set requests \<Longrightarrow> num_guesses (r2_policy q) = g" and k: "k < unat g"
  shows "serves E H (\<lambda>_. g - of_nat (Suc k)) (\<lambda>n T U st. \<exists>S. I n S st \<and> recovering H requests k T U S) requests"
  unfolding serves_def
proof (intro conjI allI impI ballI)
  fix n T U st m
  assume "\<exists>S. I n S st \<and> recovering H requests k T U S"
  then show "\<exists>S. I n S (st\<lparr>world := snd (env_executor E m (world st))\<rparr>) \<and> recovering H requests k T U S"
    and "\<exists>S. I n S (st\<lparr>world := snd (env_random_scalar E (world st))\<rparr>) \<and> recovering H requests k T U S"
    using hostsD [OF hosts] by blast+
next
  fix n T U st
  assume "\<exists>S. I (Suc n) S st \<and> recovering H requests k T U S"
  then show "\<exists>S. I n S st \<and> recovering H requests k T U S"
    using hostsD(5) [OF hosts] by blast
next
  fix rq assume mem: "rq \<in> set requests"
  let ?I = "\<lambda>n T U st. \<exists>S. I n S st \<and> recovering H requests k T U S"
  obtain realm q where rq: "rq = (realm, q)"
    by fastforce
  then have rec: "realm \<in> R" "(realm, q) \<in> set requests" "num_guesses (r2_policy q) = g"
    using mem sub left by force+
  note answer = hosted_answer [OF hosts dist rec(1,2) k [folded rec(3)], unfolded rec(3)]
  show "case rq of (realm, q) \<Rightarrow> \<forall>n T U st request.
      ?I (Suc n) T U st \<and> expected q request \<and> (needs_guess request \<longrightarrow> realm \<notin> T \<union> U) \<longrightarrow>
      (\<exists>r st'. make_request E realm request st = Some (r, st') \<and>
         ?I n (tried realm request T) (unlocked realm request U) st' \<and>
         (if realm \<in> H then \<exists>resp. r = Ok resp \<and> honest_answer (env_curve E) q (g - of_nat (Suc k)) request resp
          else \<exists>e. r = Err e))"
    unfolding rq using answer by blast
qed

end
