(* ===== verification/Hardware_Realm.thy ===== *)
theory Hardware_Realm
  imports Realm_Spec
begin

text \<open>
  A hardware realm behind the client's Noise sessions: an enclave that runs the server side of
  rust/noise over the realm's machine of \<open>Realm_Spec\<close>, and may lose its sessions between requests.
  The client's requests (rust/sdk/src/request.rs: handshakes, transport messages, the repeated
  attempt after a lost session) get the answers of the machine through it.
\<close>

section \<open>The enclave\<close>

record 's enclave =
  enclave_sessions :: "session_id \<Rightarrow> transport option"
  enclave_record :: "'s record_state"

text \<open>A decrypted request is decoded, answered by the machine, and the answer is padded and encoded.\<close>

definition serve_payload ::
  "('w, 'u, 's::field, 'p::ab_group_add, 'ed) env \<Rightarrow> (unit \<Rightarrow> 's \<times> unit) \<Rightarrow> bytes \<Rightarrow> 's record_state \<Rightarrow>
     (bytes \<times> 's record_state) option" where
  "serve_payload E random payload s =
     (case from_reader (cbor_secrets_request E) payload of
        Err e \<Rightarrow> None
      | Ok request \<Rightarrow>
          (let (resp, s') = realm_step (env_curve E) random s request in
           case pad_response (cbor_secrets_response E) resp of
             Some (Ok padded) \<Rightarrow>
               (case into_writer (cbor_padded_response E) padded of Ok bs \<Rightarrow> Some (bs, s') | Err _ \<Rightarrow> None)
           | _ \<Rightarrow> None))"

text \<open>What a handshake carries is a request unless it says that it is a handshake only.\<close>

definition serve_handshake ::
  "('w, 'u, 's::field, 'p::ab_group_add, 'ed) env \<Rightarrow> (unit \<Rightarrow> 's \<times> unit) \<Rightarrow> client_request_kind \<Rightarrow> bytes \<Rightarrow>
     's record_state \<Rightarrow> (bytes \<times> 's record_state) option" where
  "serve_handshake E random kind payload s =
     (if kind = HandshakeOnly then Some ([], s) else serve_payload E random payload s)"

definition enclave_step ::
  "('w, 'u, 's::field, 'p::ab_group_add, 'ed) env \<Rightarrow> 32 barray \<Rightarrow> 32 barray \<Rightarrow> nat \<Rightarrow> (unit \<Rightarrow> 's \<times> unit) \<Rightarrow>
     client_request \<Rightarrow> 's enclave \<Rightarrow> client_response \<times> 's enclave" where
  "enclave_step E static ephemeral lifetime random cr e =
     (case request_encrypted cr of
        HandshakeRequest hr \<Rightarrow>
          (case server_start_with_secret (env_prims E) ephemeral (static, x25519_public (env_prims E) static) [] hr of
             Some (Ok (sh, payload)) \<Rightarrow>
               (case serve_handshake E random (request_kind cr) payload (enclave_record e) of
                  None \<Rightarrow> (DecodingError, e)
                | Some (response, s) \<Rightarrow>
                    (case server_finish (env_prims E) sh response of
                       Some (Ok (t, resp)) \<Rightarrow>
                         (ResponseOk (HandshakeResponse resp lifetime),
                          \<lparr>enclave_sessions = (enclave_sessions e)(request_session_id cr \<mapsto> t), enclave_record = s\<rparr>)
                     | _ \<Rightarrow> (SessionError, e)))
           | _ \<Rightarrow> (SessionError, e))
      | TransportRequest c \<Rightarrow>
          (case enclave_sessions e (request_session_id cr) of
             None \<Rightarrow> (MissingSession, e)
           | Some t \<Rightarrow>
               (case transport_decrypt (env_prims E) t c of
                  Some (Ok payload, t) \<Rightarrow>
                    (case serve_payload E random payload (enclave_record e) of
                       None \<Rightarrow> (DecodingError, e)
                     | Some (response, s) \<Rightarrow>
                         (case transport_encrypt (env_prims E) t response of
                            Some (Ok c, t) \<Rightarrow>
                              (ResponseOk (TransportResponse c),
                               \<lparr>enclave_sessions = (enclave_sessions e)(request_session_id cr \<mapsto> t), enclave_record = s\<rparr>)
                          | _ \<Rightarrow> (SessionError, e)))
                | _ \<Rightarrow> (SessionError, e))))"

text \<open>
  \<open>A e w\<close>: in the world \<open>w\<close> the enclave of the realm is in the state \<open>e\<close>. What the client sends to the
  realm reaches the enclave and its answer comes back; nothing else that the client does with the
  world changes the enclave, and there is a token for the realm.
\<close>

definition delivers ::
  "('w, 'u, 's::field, 'p::ab_group_add, 'ed) env \<Rightarrow> 'u realm \<Rightarrow> 32 barray \<Rightarrow> ('s enclave \<Rightarrow> 'w \<Rightarrow> bool) \<Rightarrow> bool" where
  "delivers E realm static A \<longleftrightarrow>
     (\<forall>e w cr. A e w \<longrightarrow> (\<exists>ephemeral lifetime random resp e' w'.
        enclave_step E static ephemeral lifetime random cr e = (resp, e') \<and>
        send (env_net E) (cbor_client_request E) (cbor_client_response E) (env_http E) (realm_address realm) cr w =
          Some (Ok resp, w') \<and> A e' w')) \<and>
     (\<forall>e w. A e w \<longrightarrow> (\<exists>t w'. env_token E (realm_id realm) w = (Some t, w') \<and> A e w')) \<and>
     (\<forall>e w. A e w \<longrightarrow> A e (snd (env_now E w))) \<and>
     (\<forall>e w. A e w \<longrightarrow> A e (snd (env_random32 E w))) \<and>
     (\<forall>e w. A e w \<longrightarrow> A e (snd (env_next_u32 E w)))"

lemma delivers_send:
  assumes "delivers E realm static A" and "A e w"
  shows "\<exists>ephemeral lifetime random resp e' w'.
    enclave_step E static ephemeral lifetime random cr e = (resp, e') \<and>
    send_client_request E realm cr (st\<lparr>world := w\<rparr>) = Some (Ok resp, st\<lparr>world := w'\<rparr>) \<and> A e' w'"
proof -
  from assms(1) [unfolded delivers_def, THEN conjunct1, rule_format, OF assms(2), of cr]
  obtain ephemeral lifetime random resp e' w' where
    "enclave_step E static ephemeral lifetime random cr e = (resp, e')" "A e' w'"
    and sent: "send (env_net E) (cbor_client_request E) (cbor_client_response E) (env_http E) (realm_address realm) cr w =
      Some (Ok resp, w')"
    by (elim exE conjE)
  moreover from sent have "send_client_request E realm cr (st\<lparr>world := w\<rparr>) = Some (Ok resp, st\<lparr>world := w'\<rparr>)"
    by (simp add: send_client_request_def io_map_err_def io_world_panics_def)
  ultimately show ?thesis
    by blast
qed

lemma delivers_token:
  assumes "delivers E realm static A" and "A e w"
  shows "\<exists>t w'. get_token E (realm_id realm) (st\<lparr>world := w\<rparr>) = Some (Ok t, st\<lparr>world := w'\<rparr>) \<and> A e w'"
  using assms(1) [unfolded delivers_def, THEN conjunct2, THEN conjunct1, rule_format, OF assms(2)]
  by (auto simp: get_token_def ok_or_def)

lemma delivers_world:
  assumes "delivers E realm static A" and "A e w"
  shows "A e (snd (env_now E w))" "A e (snd (env_random32 E w))" "A e (snd (env_next_u32 E w))"
  using assms(1) [unfolded delivers_def, THEN conjunct2, THEN conjunct2] assms(2) by simp_all

text \<open>The encodings the two sides use have room for what they carry.\<close>

definition realm_codecs :: "('w, 'u, 's, 'p, 'ed) env \<Rightarrow> bool" where
  "realm_codecs E \<longleftrightarrow>
     cbor_laws (cbor_secrets_request E) \<and> cbor_laws (cbor_secrets_response E) \<and> cbor_laws (cbor_padded_response E) \<and>
     (\<forall>request. \<exists>bs. into_writer (cbor_secrets_request E) request = Ok bs \<and> bs \<noteq> [] \<and> length bs < 2 ^ 32) \<and>
     (\<forall>resp. \<exists>bs. into_writer (cbor_secrets_response E) resp = Ok bs \<and> length bs \<le> 436) \<and>
     (\<forall>padded. \<exists>bs. into_writer (cbor_padded_response E) padded = Ok bs \<and> length bs < 2 ^ 32)"

lemma served:
  assumes codecs: "realm_codecs E" and payload: "into_writer (cbor_secrets_request E) request = Ok payload"
    and step: "realm_step (env_curve E) random s request = (resp, s')"
  obtains bs where "serve_payload E random payload s = Some (bs, s')" and "length bs < 2 ^ 32"
    and "decode_response E bs = Some (Ok resp)"
proof -
  obtain rbs where rbs: "into_writer (cbor_secrets_response E) resp = Ok rbs" "length rbs \<le> 436"
    using codecs unfolding realm_codecs_def by blast
  obtain padded where padded: "pad_response (cbor_secrets_response E) resp = Some (Ok padded)"
      "unpad_response (cbor_secrets_response E) padded = Some (Ok resp)"
    using unpad_pad [OF _ rbs] codecs unfolding realm_codecs_def by blast
  obtain bs where bs: "into_writer (cbor_padded_response E) padded = Ok bs" "length bs < 2 ^ 32"
    using codecs unfolding realm_codecs_def by blast
  have "from_reader (cbor_secrets_request E) payload = Ok request" "from_reader (cbor_padded_response E) bs = Ok padded"
    using codecs payload bs(1) by (simp_all add: realm_codecs_def cbor_laws_def)
  moreover from this(2) have slice: "from_slice (cbor_padded_response E) bs = Ok padded"
    by simp
  have "decode_response E bs = Some (Ok resp)"
    unfolding decode_response_def slice by (simp add: padded)
  ultimately show thesis
    using bs padded step by (intro that [of bs]) (simp_all add: serve_payload_def)
qed

section \<open>A message through a session\<close>

lemma transport_encrypts:
  assumes "prim_laws H" and left: "unat (nonce (outbound t)) < 2 ^ 64 - 2" and "length m < 2 ^ 32"
  obtains c t' where "transport_encrypt H t m = Some (Ok c, t')" and "inbound t' = inbound t"
    and "unat (nonce (outbound t')) = Suc (unat (nonce (outbound t)))"
proof -
  obtain s where s: "\<And>m a. encrypt_with_ad H (outbound t) m a =
      Some (ok_or EncryptionError (aead_encrypt H (cipher_key s) (nonce_bytes (nonce (outbound t))) a m), s)"
      "unat (nonce s) = Suc (unat (nonce (outbound t)))"
    using with_ad_total [OF left, of H] by metis
  obtain c where "aead_encrypt H (cipher_key s) (nonce_bytes (nonce (outbound t))) [] m = Some c"
    using prim_lawsD(3) [OF assms(1,3)] by blast
  then show thesis
    by (intro that [of c "t\<lparr>outbound := s\<rparr>"]) (simp_all add: transport_encrypt_def s ok_or_def)
qed

lemma transport_served:
  fixes E :: "('w, 'u, 's::field, 'p::ab_group_add, 'ed) env"
  assumes laws: "prim_laws (env_prims E)" and codecs: "realm_codecs E" and del: "delivers E realm static A"
    and inv: "A e (world st)" and t: "enclave_sessions e (session_session_id s) = Some t"
    and paired: "transport_paired (env_prims E) (session_transport s) t"
    and left: "messages_left (Suc n) (session_transport s)"
    and payload: "into_writer (cbor_secrets_request E) request = Ok payload"
  shows "\<exists>random resp r bs s' t' e' w'. realm_step (env_curve E) random (enclave_record e) request = (resp, r) \<and>
    make_transport_request E realm s payload st = Some (Ok (s', bs), st\<lparr>world := w'\<rparr>) \<and>
    decode_response E bs = Some (Ok resp) \<and> A e' w' \<and> enclave_record e' = r \<and>
    enclave_sessions e' (session_session_id s') = Some t' \<and>
    transport_paired (env_prims E) (session_transport s') t' \<and> messages_left n (session_transport s')"
proof -
  let ?H = "env_prims E"
  obtain token w1 where token: "get_token E (realm_id realm) st = Some (Ok token, st\<lparr>world := w1\<rparr>)" "A e w1"
    using delivers_token [where st = st, OF del inv] by auto
  have len: "length payload < 2 ^ 32"
    using codecs payload unfolding realm_codecs_def by (metis sum.inject(2))
  have nonces: "unat (nonce (outbound (session_transport s))) < 2 ^ 64 - 2" "unat (nonce (inbound (session_transport s))) < 2 ^ 64 - 2"
    using left by (auto simp: messages_left_def)
  obtain c T where enc: "transport_encrypt ?H (session_transport s) payload = Some (Ok c, T)"
    and T: "inbound T = inbound (session_transport s)"
      "unat (nonce (outbound T)) = Suc (unat (nonce (outbound (session_transport s))))"
    by (rule transport_encrypts [OF laws nonces(1) len])
  obtain t1 where dec: "transport_decrypt ?H t c = Some (Ok payload, t1)" and paired1: "transport_paired ?H T t1"
    using noise.deliver [OF paired enc] by blast
  let ?cr = "\<lparr>request_realm = realm_id realm, request_auth_token = token,
        request_session_id = session_session_id s, request_kind = SecretsRequestKind,
        request_encrypted = TransportRequest c\<rparr>"
  obtain ephemeral lifetime random answer e' w2 where
    enclave: "enclave_step E static ephemeral lifetime random ?cr e = (answer, e')"
    and sent: "send_client_request E realm ?cr (st\<lparr>world := w1\<rparr>) = Some (Ok answer, st\<lparr>world := w2\<rparr>)" and A2: "A e' w2"
    using delivers_send [OF del token(2)] by blast
  obtain resp r where step: "realm_step (env_curve E) random (enclave_record e) request = (resp, r)"
    by fastforce
  obtain bs where bs: "serve_payload E random payload (enclave_record e) = Some (bs, r)" "length bs < 2 ^ 32"
      "decode_response E bs = Some (Ok resp)"
    by (rule served [OF codecs payload step])
  have t1: "outbound t1 = inbound T" "inbound t1 = outbound T"
    using paired1 by (simp_all add: transport_paired_def)
  obtain t2 d where enc2: "transport_encrypt ?H t1 bs = Some (Ok d, t2)"
    and t2: "inbound t2 = inbound t1" "unat (nonce (outbound t2)) = Suc (unat (nonce (outbound t1)))"
    by (rule transport_encrypts [OF laws _ bs(2), of t1]) (use nonces(2) t1(1) T(1) in auto)
  obtain T2 where dec2: "transport_decrypt ?H T d = Some (Ok bs, T2)" and paired2: "transport_paired ?H T2 t2"
    using noise.deliver_back [OF paired1 enc2] by blast
  have left2: "messages_left n T2"
    using left T t1 t2 paired2 by (simp add: messages_left_def transport_paired_def)
  have answer: "answer = ResponseOk (TransportResponse d)"
    "e' = \<lparr>enclave_sessions = (enclave_sessions e)(session_session_id s \<mapsto> t2), enclave_record = r\<rparr>"
    using enclave by (simp_all add: enclave_step_def t dec bs(1) enc2)
  obtain now w3 where now: "env_now E w2 = (now, w3)"
    by fastforce
  let ?s = "s\<lparr>session_transport := T2, session_last_used := now\<rparr>"
  have "A e' w3"
    using delivers_world(1) [OF del A2] now by simp
  moreover have "make_transport_request E realm s payload st = Some (Ok (?s, bs), st\<lparr>world := w3\<rparr>)"
    by (simp add: make_transport_request_def io_defs token enc sent answer finish_transport_def io_world_def now dec2)
  ultimately show ?thesis
    using step bs(3) paired2 left2 by (intro exI [of _ random] exI [of _ resp] exI [of _ r] exI [of _ bs] exI [of _ ?s]
        exI [of _ t2] exI [of _ e'] exI [of _ w3]) (simp add: answer(2))
qed

section \<open>A handshake\<close>

lemma handshake_served:
  fixes E :: "('w, 'u, 's::field, 'p::ab_group_add, 'ed) env"
  defines "kind p \<equiv> (if p = ([] :: bytes) then HandshakeOnly else SecretsRequestKind)"
  assumes laws: "prim_laws (env_prims E)" and del: "delivers E realm static A" and inv: "A e (world st)"
    and p: "length p < 2 ^ 32"
    and serves: "\<And>random. \<exists>bs r. serve_handshake E random (kind p) p (enclave_record e) = Some (bs, r) \<and> length bs < 2 ^ 32"
  shows "\<exists>random bs r s t e' w'. serve_handshake E random (kind p) p (enclave_record e) = Some (bs, r) \<and>
    make_handshake_request E realm (bytes_of (x25519_public (env_prims E) static)) p st = Some (Ok (s, bs), st\<lparr>world := w'\<rparr>) \<and>
    A e' w' \<and> enclave_record e' = r \<and> enclave_sessions e' (session_session_id s) = Some t \<and>
    transport_paired (env_prims E) (session_transport s) t \<and>
    (\<forall>n < 2 ^ 63. messages_left (Suc n) (session_transport s))"
proof -
  let ?H = "env_prims E"
  obtain ce w1 where ce: "env_random32 E (world st) = (ce, w1)"
    by fastforce
  obtain n w2 where n: "env_next_u32 E w1 = (n, w2)"
    by fastforce
  have A2: "A e w2"
    using delivers_world(2) [OF del inv] delivers_world(3) [OF del, of e w1] ce n by simp
  obtain token w3 where token: "get_token E (realm_id realm) (st\<lparr>world := w2\<rparr>) = Some (Ok token, st\<lparr>world := w3\<rparr>)" "A e w3"
    using delivers_token [OF del A2] by blast
  obtain ch req where start: "client_start_with_secret ?H ce (x25519_public ?H static) [] p = Some (Ok (ch, req))"
    by (rule start_agrees [OF laws p]) blast
  let ?cr = "\<lparr>request_realm = realm_id realm, request_auth_token = token, request_session_id = SessionId n,
        request_kind = kind p, request_encrypted = HandshakeRequest req\<rparr>"
  obtain se lifetime random answer e' w4 where
    enclave: "enclave_step E static se lifetime random ?cr e = (answer, e')"
    and sent: "send_client_request E realm ?cr (st\<lparr>world := w3\<rparr>) = Some (Ok answer, st\<lparr>world := w4\<rparr>)" and A4: "A e' w4"
    using delivers_send [OF del token(2)] by blast
  obtain k ck where key: "mix_key ?H (client_ck ch) (x25519_dh ?H se (x25519_public ?H (client_ephemeral_secret ch))) =
      Some (cipher_state_new k, ck)"
    and started: "server_start_with_secret ?H se (static, x25519_public ?H static) [] req =
      Some (Ok (\<lparr>server_cipher = cipher_state_new k,
        server_h = mix_hash ?H (client_h ch) (bytes_of (x25519_public ?H se)),
        server_ck = ck, server_public = bytes_of (x25519_public ?H se)\<rparr>, p))"
    by (rule start_agrees [OF laws p, of ce static "[]" se]) (use start in auto)
  obtain bs r where bs: "serve_handshake E random (kind p) p (enclave_record e) = Some (bs, r)" "length bs < 2 ^ 32"
    using serves by blast
  obtain t resp ct where finish: "server_finish ?H \<lparr>server_cipher = cipher_state_new k,
        server_h = mix_hash ?H (client_h ch) (bytes_of (x25519_public ?H se)),
        server_ck = ck, server_public = bytes_of (x25519_public ?H se)\<rparr> bs = Some (Ok (t, resp))"
    and finished: "client_finish ?H ch resp = Some (Ok (ct, bs))" and paired: "transport_paired ?H ct t"
    by (rule finish_agrees [OF laws bs(2) key refl])
  have answer: "answer = ResponseOk (HandshakeResponse resp lifetime)"
    "e' = \<lparr>enclave_sessions = (enclave_sessions e)(SessionId n \<mapsto> t), enclave_record = r\<rparr>"
    using enclave by (simp_all add: enclave_step_def started bs(1) finish)
  obtain now w5 where now: "env_now E w4 = (now, w5)"
    by fastforce
  let ?s = "\<lparr>session_session_id = SessionId n, session_transport = ct, session_lifetime = lifetime, session_last_used = now\<rparr>"
  have "messages_left (Suc n) ct" if "n < 2 ^ 63" for n
    using client_finish_total [OF laws, of ch resp] finished messages_left_fresh [OF that] by auto
  moreover have "A e' w5"
    using delivers_world(1) [OF del A4] now by simp
  moreover have "make_handshake_request E realm (bytes_of (x25519_public ?H static)) p st =
      Some (Ok (?s, bs), st\<lparr>world := w5\<rparr>)"
    using sent unfolding kind_def
    by (simp add: make_handshake_request_def io_defs io_world_def ce n start token finish_handshake_def answer(1)
        finished now bytes_of_inverse)
  ultimately show ?thesis
    using bs(1) paired by (intro exI [of _ random] exI [of _ bs] exI [of _ r] exI [of _ ?s] exI [of _ t] exI [of _ e']
        exI [of _ w5]) (simp add: answer(2))
qed

section \<open>A request with its attempts\<close>

text \<open>Without a session: a handshake that carries the request, or one before it for forward secrecy.\<close>

lemma new_session_served:
  fixes E :: "('w, 'u, 's::field, 'p::ab_group_add, 'ed) env"
  assumes laws: "prim_laws (env_prims E)" and codecs: "realm_codecs E" and del: "delivers E realm static A"
    and inv: "A e (world st)" and payload: "into_writer (cbor_secrets_request E) request = Ok payload"
    and n: "n < 2 ^ 63"
  shows "\<exists>random resp r s bs t e' w'. realm_step (env_curve E) random (enclave_record e) request = (resp, r) \<and>
    try_make_request E realm (bytes_of (x25519_public (env_prims E) static)) None payload (needs_forward_secrecy request) st =
      Some (Ok (s, bs), st\<lparr>world := w'\<rparr>) \<and>
    decode_response E bs = Some (Ok resp) \<and> A e' w' \<and> enclave_record e' = r \<and>
    enclave_sessions e' (session_session_id s) = Some t \<and> transport_paired (env_prims E) (session_transport s) t \<and>
    messages_left n (session_transport s)"
proof (cases "needs_forward_secrecy request")
  case True
  obtain random bs r s e1 w1 where hs: "serve_handshake E random HandshakeOnly [] (enclave_record e) = Some (bs, r)"
      "make_handshake_request E realm (bytes_of (x25519_public (env_prims E) static)) [] st = Some (Ok (s, bs), st\<lparr>world := w1\<rparr>)"
      "A e1 w1" "enclave_record e1 = r"
    and t: "\<exists>t. enclave_sessions e1 (session_session_id s) = Some t \<and> transport_paired (env_prims E) (session_transport s) t"
      "messages_left (Suc n) (session_transport s)"
    using n handshake_served [where p = "[]" and e = e and A = A and st = st, OF laws del inv]
    by (auto simp: serve_handshake_def)
  have bs: "bs = []" "r = enclave_record e"
    using hs(1) by (simp_all add: serve_handshake_def)
  obtain t where t': "enclave_sessions e1 (session_session_id s) = Some t" "transport_paired (env_prims E) (session_transport s) t"
    using t(1) by blast
  have A1: "A e1 (world (st\<lparr>world := w1\<rparr>))"
    using hs(3) by simp
  from transport_served [OF laws codecs del A1 t' t(2) payload]
  obtain random resp r' bs' s' t2 e2 w2 where "realm_step (env_curve E) random (enclave_record e1) request = (resp, r')"
      "make_transport_request E realm s payload (st\<lparr>world := w1\<rparr>) = Some (Ok (s', bs'), st\<lparr>world := w2\<rparr>)"
      "decode_response E bs' = Some (Ok resp)" "A e2 w2" "enclave_record e2 = r'"
      "enclave_sessions e2 (session_session_id s') = Some t2" "transport_paired (env_prims E) (session_transport s') t2"
      "messages_left n (session_transport s')"
    by auto
  moreover from this(2) have "try_make_request E realm (bytes_of (x25519_public (env_prims E) static)) None payload
      (needs_forward_secrecy request) st = Some (Ok (s', bs'), st\<lparr>world := w2\<rparr>)"
    using True by (simp add: try_make_request_def io_bind_def io_map_err_def hs(2) bs)
  ultimately show ?thesis
    unfolding hs(4) bs(2) by blast
next
  case False
  have p: "payload \<noteq> []" "length payload < 2 ^ 32"
    using codecs payload unfolding realm_codecs_def by (metis sum.inject(2))+
  have serves: "\<exists>bs r. serve_handshake E random (if payload = [] then HandshakeOnly else SecretsRequestKind) payload
      (enclave_record e) = Some (bs, r) \<and> length bs < 2 ^ 32" for random
  proof -
    obtain resp r where "realm_step (env_curve E) random (enclave_record e) request = (resp, r)"
      by fastforce
    then obtain bs where "serve_payload E random payload (enclave_record e) = Some (bs, r)" "length bs < 2 ^ 32"
      by (rule served [OF codecs payload])
    then show ?thesis
      using p(1) by (simp add: serve_handshake_def)
  qed
  from handshake_served [OF laws del inv p(2) serves] p(1)
  obtain random bs r s t e' w' where serve: "serve_payload E random payload (enclave_record e) = Some (bs, r)"
    and hs: "make_handshake_request E realm (bytes_of (x25519_public (env_prims E) static)) payload st = Some (Ok (s, bs), st\<lparr>world := w'\<rparr>)"
      "A e' w'" "enclave_record e' = r" "enclave_sessions e' (session_session_id s) = Some t"
      "transport_paired (env_prims E) (session_transport s) t" "messages_left n (session_transport s)"
    using n messages_left_less [of "Suc n" _ n] by (auto simp: serve_handshake_def)
  obtain resp r' where step: "realm_step (env_curve E) random (enclave_record e) request = (resp, r')"
    by fastforce
  obtain bs' where "serve_payload E random payload (enclave_record e) = Some (bs', r')" "decode_response E bs' = Some (Ok resp)"
    by (rule served [OF codecs payload step])
  then have "r' = r" "decode_response E bs = Some (Ok resp)"
    using serve by simp_all
  moreover have "try_make_request E realm (bytes_of (x25519_public (env_prims E) static)) None payload
      (needs_forward_secrecy request) st = Some (Ok (s, bs), st\<lparr>world := w'\<rparr>)"
    using False by (simp add: try_make_request_def io_bind_def io_map_err_def io_panics_def hs(1))
  ultimately show ?thesis
    using step hs(2-) by blast
qed

text \<open>A session the enclave has lost.\<close>

lemma lost_session:
  assumes laws: "prim_laws (env_prims E)" and del: "delivers E realm static A"
    and inv: "A e (world st)" and lost: "enclave_sessions e (session_session_id s) = None"
    and left: "messages_left (Suc n) (session_transport s)" and payload: "length payload < 2 ^ 32"
  shows "\<exists>w'. make_transport_request E realm s payload st = Some (Err MissingSessionError, st\<lparr>world := w'\<rparr>) \<and> A e w'"
proof -
  obtain token w1 where token: "get_token E (realm_id realm) st = Some (Ok token, st\<lparr>world := w1\<rparr>)" "A e w1"
    using delivers_token [where st = st, OF del inv] by auto
  have "unat (nonce (outbound (session_transport s))) < 2 ^ 64 - 2"
    using left by (auto simp: messages_left_def)
  then obtain c T where enc: "transport_encrypt (env_prims E) (session_transport s) payload = Some (Ok c, T)"
    by (rule transport_encrypts [OF laws _ payload])
  let ?cr = "\<lparr>request_realm = realm_id realm, request_auth_token = token,
        request_session_id = session_session_id s, request_kind = SecretsRequestKind,
        request_encrypted = TransportRequest c\<rparr>"
  obtain ephemeral lifetime random answer e' w2 where
    enclave: "enclave_step E static ephemeral lifetime random ?cr e = (answer, e')"
    and sent: "send_client_request E realm ?cr (st\<lparr>world := w1\<rparr>) = Some (Ok answer, st\<lparr>world := w2\<rparr>)" and A2: "A e' w2"
    using delivers_send [OF del token(2)] by blast
  have "answer = MissingSession" "e' = e"
    using enclave lost by (simp_all add: enclave_step_def)
  with A2 show ?thesis
    by (intro exI [of _ w2]) (simp add: make_transport_request_def io_defs token enc sent finish_transport_def)
qed

definition session_matches :: "'ed prims \<Rightarrow> session option \<Rightarrow> 's enclave \<Rightarrow> bool" where
  "session_matches H slot e \<longleftrightarrow>
     (\<forall>s t. slot = Some s \<longrightarrow> enclave_sessions e (session_session_id s) = Some t \<longrightarrow>
        transport_paired H (session_transport s) t)"

text \<open>
  The run of a request that gets the machine's answer. It leaves a session in the slot of the realm
  that both sides have and that is good for \<open>n\<close> requests more.
\<close>

definition answered ::
  "('w, 'u, 's::field, 'p::ab_group_add, 'ed) env \<Rightarrow> 'u realm \<Rightarrow> ('s enclave \<Rightarrow> 'w \<Rightarrow> bool) \<Rightarrow> nat \<Rightarrow>
     ('s, 'p) secrets_request \<Rightarrow> 's enclave \<Rightarrow> 'w client_state \<Rightarrow>
     ((request_error + ('s, 'p) secrets_response) \<times> 'w client_state) panics \<Rightarrow> bool" where
  "answered E realm A n request e st run \<longleftrightarrow>
     (\<exists>random resp r s e' w'. realm_step (env_curve E) random (enclave_record e) request = (resp, r) \<and>
        run = Some (Ok resp, st\<lparr>world := w', sessions := (sessions st)(realm_id realm \<mapsto> Some s)\<rparr>) \<and>
        A e' w' \<and> enclave_record e' = r \<and> session_matches (env_prims E) (Some s) e' \<and>
        messages_left n (session_transport s))"

lemma answered_taken [simp]:
  "answered E realm A n request e (st\<lparr>world := w, sessions := (sessions st)(realm_id realm \<mapsto> None)\<rparr>) run =
     answered E realm A n request e st run"
  by (simp add: answered_def)

lemma answered_world [simp]: "answered E realm A n request e (st\<lparr>world := w\<rparr>) run = answered E realm A n request e st run"
  by (simp add: answered_def)

text \<open>An attempt without a session succeeds.\<close>

lemma attempt_served:
  fixes E :: "('w, 'u, 's::field, 'p::ab_group_add, 'ed) env"
  assumes "prim_laws (env_prims E)" and "realm_codecs E" and "delivers E realm static A"
    and "A e (world st)" and "into_writer (cbor_secrets_request E) request = Ok payload" and "n < 2 ^ 63"
    and slot: "sessions st (realm_id realm) = Some None"
  shows "answered E realm A n request e st (hardware_attempts E realm (bytes_of (x25519_public (env_prims E) static))
    payload (needs_forward_secrecy request) (attempt # rest) st)"
proof -
  have take: "take_session E (realm_id realm) st = Some (Ok None :: request_error + session option, st)"
    using slot by (simp add: take_session_def fun_upd_idem)
  from new_session_served [OF assms(1-6)] obtain random resp r s bs t e' w' where
    "realm_step (env_curve E) random (enclave_record e) request = (resp, r)"
    "try_make_request E realm (bytes_of (x25519_public (env_prims E) static)) None payload (needs_forward_secrecy request) st =
      Some (Ok (s, bs), st\<lparr>world := w'\<rparr>)"
    "decode_response E bs = Some (Ok resp)" "A e' w'" "enclave_record e' = r"
    "enclave_sessions e' (session_session_id s) = Some t" "transport_paired (env_prims E) (session_transport s) t"
    "messages_left n (session_transport s)"
    by blast
  then show ?thesis
    unfolding answered_def
    by (intro exI [of _ random] exI [of _ resp] exI [of _ r] exI [of _ s] exI [of _ e'] exI [of _ w'])
      (simp add: take io_defs put_session_def session_matches_def)
qed

text \<open>How an attempt goes on when it finds a session in the slot: it has expired, or the enclave has
  lost it, or it is used.\<close>

lemma attempt_expired:
  assumes "take_session E (realm_id realm) st = Some (Ok None :: request_error + session option, st1)"
    and "sessions st1 (realm_id realm) = Some None"
  shows "hardware_attempts E realm pk payload nfs (a # as) st = hardware_attempts E realm pk payload nfs (a # as) st1"
proof -
  have "take_session E (realm_id realm) st1 = Some (Ok None :: request_error + session option, st1)"
    using assms(2) by (simp add: take_session_def fun_upd_idem)
  with assms(1) show ?thesis
    by (simp add: io_bind_def)
qed

lemma attempt_lost:
  assumes "take_session E (realm_id realm) st = Some (Ok (Some s) :: request_error + session option, st1)"
    and "make_transport_request E realm s payload st1 = Some (Err MissingSessionError, st2)"
  shows "hardware_attempts E realm pk payload nfs (a # as) st = hardware_attempts E realm pk payload nfs as st2"
  using assms by (simp add: io_bind_def io_match_def try_make_request_def)

lemma attempt_used:
  assumes "take_session E (realm_id realm) st = Some (Ok (Some s) :: request_error + session option, st1)"
    and "make_transport_request E realm s payload st1 = Some (Ok (s', bs), st2)"
    and "decode_response E bs = Some (Ok resp)"
  shows "hardware_attempts E realm pk payload nfs (a # as) st =
    Some (Ok resp, st2\<lparr>sessions := (sessions st2)(realm_id realm \<mapsto> Some s')\<rparr>)"
  using assms by (simp add: io_defs try_make_request_def put_session_def)

lemma live_session_served:
  fixes E :: "('w, 'u, 's::field, 'p::ab_group_add, 'ed) env"
  defines "pk \<equiv> \<lambda>E :: ('w, 'u, 's, 'p, 'ed) env. \<lambda>static. bytes_of (x25519_public (env_prims E) static)"
  assumes env: "prim_laws (env_prims E)" "realm_codecs E" "delivers E realm static A"
    and A: "A e (world st1)" and payload: "into_writer (cbor_secrets_request E) request = Ok payload" "length payload < 2 ^ 32"
    and n: "n < 2 ^ 63" and slot: "sessions st1 (realm_id realm) = Some None"
    and taken: "take_session E (realm_id realm) st = Some (Ok (Some s) :: request_error + session option, st1)"
    and s: "session_matches (env_prims E) (Some s) e" "messages_left (Suc n) (session_transport s)"
  shows "answered E realm A n request e st1
    (hardware_attempts E realm (pk E static) payload (needs_forward_secrecy request) (a # b # as) st)"
proof (cases "enclave_sessions e (session_session_id s)")
  case None
  from lost_session [OF env(1,3) A None s(2) payload(2)] obtain w2 where
    w2: "make_transport_request E realm s payload st1 = Some (Err MissingSessionError, st1\<lparr>world := w2\<rparr>)" "A e w2"
    by blast
  have "answered E realm A n request e (st1\<lparr>world := w2\<rparr>) (hardware_attempts E realm (pk E static) payload
      (needs_forward_secrecy request) (b # as) (st1\<lparr>world := w2\<rparr>))"
    unfolding pk_def by (rule attempt_served [OF env _ payload(1) n]) (use w2(2) slot in simp_all)
  then show ?thesis
    unfolding attempt_lost [OF taken w2(1)] by simp
next
  case (Some t)
  have paired: "transport_paired (env_prims E) (session_transport s) t"
    using s(1) Some by (simp add: session_matches_def)
  from transport_served [OF env A Some paired s(2) payload(1)]
  obtain random resp r bs s' t' e' w' where answer: "realm_step (env_curve E) random (enclave_record e) request = (resp, r)"
      "make_transport_request E realm s payload st1 = Some (Ok (s', bs), st1\<lparr>world := w'\<rparr>)"
      "decode_response E bs = Some (Ok resp)" "A e' w'" "enclave_record e' = r"
      "enclave_sessions e' (session_session_id s') = Some t'" "transport_paired (env_prims E) (session_transport s') t'"
      "messages_left n (session_transport s')"
    by blast
  show ?thesis
    unfolding attempt_used [OF taken answer(2,3)] answered_def using answer(1,4-8)
    by (intro exI [of _ random] exI [of _ resp] exI [of _ r] exI [of _ s'] exI [of _ e'] exI [of _ w'])
      (simp add: session_matches_def)
qed

lemma hardware_answered:
  fixes E :: "('w, 'u, 's::field, 'p::ab_group_add, 'ed) env"
  assumes env: "prim_laws (env_prims E)" "realm_codecs E" "delivers E realm static A"
    and key: "realm_public_key realm = Some (bytes_of (x25519_public (env_prims E) static))"
    and slot: "sessions st (realm_id realm) = Some slot" "session_matches (env_prims E) slot e"
      "\<And>s. slot = Some s \<Longrightarrow> messages_left (Suc n) (session_transport s)" and n: "n < 2 ^ 63"
    and A: "A e (world st)"
  shows "answered E realm A n request e st (make_request E realm request st)"
proof -
  let ?i = "realm_id realm" and ?pk = "bytes_of (x25519_public (env_prims E) static)"
  let ?run = "hardware_attempts E realm ?pk"
  obtain payload where payload: "into_writer (cbor_secrets_request E) request = Ok payload" "length payload < 2 ^ 32"
    using env(2) unfolding realm_codecs_def by blast
  have "answered E realm A n request e st (?run payload (needs_forward_secrecy request) [1, 2, 3, 4, 5] st)"
  proof (cases slot)
    case None
    then show ?thesis
      using slot(1) by (intro attempt_served [OF env A payload(1) n]) simp
  next
    case (Some s)
    obtain now w1 where now: "env_now E (world st) = (now, w1)"
      by fastforce
    let ?st1 = "st\<lparr>world := w1, sessions := (sessions st)(?i \<mapsto> None)\<rparr>"
    have st1: "A e (world ?st1)" "sessions ?st1 ?i = Some None"
      using delivers_world(1) [OF env(3) A] now by simp_all
    have take: "take_session E ?i st = Some (Ok (if now - session_last_used s < session_lifetime s then Some s else None)
        :: request_error + session option, ?st1)"
      using slot(1) Some now by (simp add: take_session_def)
    show ?thesis
    proof (cases "now - session_last_used s < session_lifetime s")
      case True
      then have taken: "take_session E ?i st = Some (Ok (Some s) :: request_error + session option, ?st1)"
        using take by simp
      from live_session_served [OF env st1(1) payload n st1(2) taken slot(2) [unfolded Some] slot(3) [OF Some], of 1 2 "[3, 4, 5]"]
      show ?thesis
        by (simp only: answered_taken)
    next
      case False
      then have taken: "take_session E ?i st = Some (Ok None :: request_error + session option, ?st1)"
        using take by simp
      from attempt_served [OF env st1(1) payload(1) n st1(2), of 1 "[2, 3, 4, 5]"] show ?thesis
        unfolding attempt_expired [OF taken st1(2)] by (simp only: answered_taken)
    qed
  qed
  moreover have "make_request E realm request st = ?run payload (needs_forward_secrecy request) [1, 2, 3, 4, 5] st"
    using key slot(1) payload(1)
    by (simp add: make_request_def make_hardware_realm_request_def to_vec_def io_defs lock_sessions_def Let_def
        del: hardware_attempts.simps)
  ultimately show ?thesis
    by (simp only:)
qed

section \<open>Hardware realms host the machine\<close>

text \<open>An enclave that has lost some of its sessions, but not its record.\<close>

definition forgotten :: "'s enclave \<Rightarrow> 's enclave \<Rightarrow> bool" where
  "forgotten e e' \<longleftrightarrow> enclave_record e' = enclave_record e \<and>
     (\<forall>i. enclave_sessions e' i = enclave_sessions e i \<or> enclave_sessions e' i = None)"

lemma forgotten_refl [simp]: "forgotten e e"
  by (simp add: forgotten_def)

lemma session_matches_forgotten: "forgotten e e' \<Longrightarrow> session_matches H slot e \<Longrightarrow> session_matches H slot e'"
  unfolding forgotten_def session_matches_def by (metis option.distinct(1))

text \<open>
  \<open>AA F w\<close>: in the world \<open>w\<close> the enclave of each realm is in the state that \<open>F\<close> gives. The state of the
  client for \<open>n\<close> more requests: it has a slot for each realm, whose session, if any, both sides agree
  on and has messages left.
\<close>

definition enclaves_hold ::
  "'ed prims \<Rightarrow> 'u realm set \<Rightarrow> (('u realm \<Rightarrow> 's enclave) \<Rightarrow> 'w \<Rightarrow> bool) \<Rightarrow> nat \<Rightarrow> ('u realm \<Rightarrow> 's record_state) \<Rightarrow>
     'w client_state \<Rightarrow> bool" where
  "enclaves_hold H R AA n S st \<longleftrightarrow> n < 2 ^ 63 \<and>
     (\<exists>F. AA F (world st) \<and>
        (\<forall>realm \<in> R. enclave_record (F realm) = S realm \<and>
           (\<exists>slot. sessions st (realm_id realm) = Some slot \<and> session_matches H slot (F realm) \<and>
              (\<forall>s. slot = Some s \<longrightarrow> messages_left n (session_transport s)))))"

lemma enclaves_hold_world:
  assumes "enclaves_hold H R AA n S st"
    and "\<And>F. AA F (world st) \<Longrightarrow> \<exists>F'. (\<forall>realm. forgotten (F realm) (F' realm)) \<and> AA F' w"
  shows "enclaves_hold H R AA n S (st\<lparr>world := w\<rparr>)"
proof -
  obtain F where "n < 2 ^ 63" "AA F (world st)" and all: "\<And>realm. realm \<in> R \<Longrightarrow> enclave_record (F realm) = S realm \<and>
      (\<exists>slot. sessions st (realm_id realm) = Some slot \<and> session_matches H slot (F realm) \<and>
        (\<forall>s. slot = Some s \<longrightarrow> messages_left n (session_transport s)))"
    using assms(1) unfolding enclaves_hold_def by blast
  moreover obtain F' where F': "\<And>realm. forgotten (F realm) (F' realm)" "AA F' w"
    using assms(2) [OF calculation(2)] by blast
  moreover have "enclave_record (F' realm) = S realm \<and>
      (\<exists>slot. sessions st (realm_id realm) = Some slot \<and> session_matches H slot (F' realm) \<and>
        (\<forall>s. slot = Some s \<longrightarrow> messages_left n (session_transport s)))" if "realm \<in> R" for realm
    using all [OF that] session_matches_forgotten [OF F'(1)] F'(1) [of realm] by (auto simp: forgotten_def)
  ultimately show ?thesis
    unfolding enclaves_hold_def by (intro conjI exI [of _ F']) simp_all
qed

lemma messages_left_Suc: "messages_left (Suc n) t \<Longrightarrow> messages_left n t"
  by (erule messages_left_less) simp

lemma enclaves_hold_less:
  assumes "enclaves_hold H R AA (Suc n) S st"
  shows "enclaves_hold H R AA n S st"
proof -
  obtain F where "Suc n < 2 ^ 63" "AA F (world st)" and all: "\<forall>realm \<in> R. enclave_record (F realm) = S realm \<and>
      (\<exists>slot. sessions st (realm_id realm) = Some slot \<and> session_matches H slot (F realm) \<and>
        (\<forall>s. slot = Some s \<longrightarrow> messages_left (Suc n) (session_transport s)))"
    using assms unfolding enclaves_hold_def by blast
  moreover from all have "\<forall>realm \<in> R. enclave_record (F realm) = S realm \<and>
      (\<exists>slot. sessions st (realm_id realm) = Some slot \<and> session_matches H slot (F realm) \<and>
        (\<forall>s. slot = Some s \<longrightarrow> messages_left n (session_transport s)))"
    using messages_left_Suc by blast
  ultimately show ?thesis
    unfolding enclaves_hold_def by (intro conjI exI [of _ F]) simp_all
qed

lemma enclaves_hold_request:
  fixes E :: "('w, 'u, 's::field, 'p::ab_group_add, 'ed) env"
  assumes env: "prim_laws (env_prims E)" "realm_codecs E" and ids: "inj_on realm_id R" and realm: "realm \<in> R"
    and del: "\<And>F. delivers E realm static (\<lambda>e w. AA (F(realm := e)) w)"
    and key: "realm_public_key realm = Some (bytes_of (x25519_public (env_prims E) static))"
    and inv: "enclaves_hold (env_prims E) R AA (Suc n) S st"
  shows "\<exists>random resp s st'. realm_step (env_curve E) random (S realm) request = (resp, s) \<and>
    make_request E realm request st = Some (Ok resp, st') \<and>
    enclaves_hold (env_prims E) R AA n (S(realm := s)) st'"
proof -
  let ?H = "env_prims E"
  obtain F where n: "Suc n < 2 ^ 63" and F: "AA F (world st)"
    and all: "\<And>r. r \<in> R \<Longrightarrow> enclave_record (F r) = S r \<and>
      (\<exists>slot. sessions st (realm_id r) = Some slot \<and> session_matches ?H slot (F r) \<and>
        (\<forall>s. slot = Some s \<longrightarrow> messages_left (Suc n) (session_transport s)))"
    using inv unfolding enclaves_hold_def by blast
  obtain slot where slot: "sessions st (realm_id realm) = Some slot" "session_matches ?H slot (F realm)"
      "\<And>s. slot = Some s \<Longrightarrow> messages_left (Suc n) (session_transport s)"
    using all [OF realm] by blast
  have "AA (F(realm := F realm)) (world st)"
    using F by simp
  from hardware_answered [OF env del key slot _ this, of request] n
  obtain random resp r s e' w' where
    step: "realm_step (env_curve E) random (S realm) request = (resp, r)"
    and run: "make_request E realm request st =
      Some (Ok resp, st\<lparr>world := w', sessions := (sessions st)(realm_id realm \<mapsto> Some s)\<rparr>)"
    and e': "AA (F(realm := e')) w'" "enclave_record e' = r" "session_matches ?H (Some s) e'"
      "messages_left n (session_transport s)"
    using all [OF realm] unfolding answered_def by auto
  have "enclave_record ((F(realm := e')) r') = (S(realm := r)) r' \<and>
      (\<exists>slot. ((sessions st)(realm_id realm \<mapsto> Some s)) (realm_id r') = Some slot \<and>
        session_matches ?H slot ((F(realm := e')) r') \<and>
        (\<forall>s. slot = Some s \<longrightarrow> messages_left n (session_transport s)))" if r': "r' \<in> R" for r'
  proof (cases "r' = realm")
    case True
    with e' show ?thesis
      by simp
  next
    case False
    then have "realm_id r' \<noteq> realm_id realm"
      using ids realm r' by (auto dest: inj_onD)
    with False all [OF r'] show ?thesis
      by (auto intro: messages_left_Suc)
  qed
  with e'(1) n have "enclaves_hold ?H R AA n (S(realm := r))
      (st\<lparr>world := w', sessions := (sessions st)(realm_id realm \<mapsto> Some s)\<rparr>)"
    unfolding enclaves_hold_def by (intro conjI exI [of _ "F(realm := e')"]) auto
  with step run show ?thesis
    by blast
qed

lemma hardware_hosts:
  fixes E :: "('w, 'u, 's::field, 'p::ab_group_add, 'ed) env"
  assumes env: "prim_laws (env_prims E)" "realm_codecs E" and ids: "inj_on realm_id R"
    and del: "\<And>realm F. realm \<in> R \<Longrightarrow> delivers E realm (static realm) (\<lambda>e w. AA (F(realm := e)) w)"
    and key: "\<And>realm. realm \<in> R \<Longrightarrow> realm_public_key realm = Some (bytes_of (x25519_public (env_prims E) (static realm)))"
    and kept: "\<And>F w w'. AA F w \<Longrightarrow> w' \<in> {snd (env_executor E m w) | m. True} \<union>
        {snd (env_random_scalar E w), snd (env_random16 E w), snd (env_random32 E w)} \<Longrightarrow>
      \<exists>F'. (\<forall>realm. forgotten (F realm) (F' realm)) \<and> AA F' w'"
  shows "hosts E R R (enclaves_hold (env_prims E) R AA)"
  unfolding hosts_def
proof (intro conjI ballI allI impI)
  fix realm n S st request
  assume realm: "realm \<in> R" and inv: "enclaves_hold (env_prims E) R AA (Suc n) S st"
  from enclaves_hold_request [where AA = AA, OF env ids realm del [OF realm] key [OF realm] inv, of request] realm
  show "\<exists>r st'. make_request E realm request st = Some (r, st') \<and>
      (if realm \<in> R
       then \<exists>random resp s. realm_step (env_curve E) random (S realm) request = (resp, s) \<and>
         r = Ok resp \<and> enclaves_hold (env_prims E) R AA n (S(realm := s)) st'
       else \<exists>e. r = Err e \<and> enclaves_hold (env_prims E) R AA n S st')"
    by (simp del: fun_upd_apply) blast
qed (blast intro: enclaves_hold_world enclaves_hold_less kept)+

section \<open>Property\<close>

text \<open>C5. A hardware realm's machine answers the client's requests. Whatever session the client has for
  the realm, none, an expired one, one the enclave has lost or one that both still have, a request
  made over Noise returns the answer that the machine gives to that request on its record, which it
  processes exactly once: a request that met a lost session is repeated over a new handshake, one
  that needs forward secrecy is preceded by a handshake. Afterwards client and enclave agree on a
  session with enough messages left, and no other session has changed.\<close>

theorem hardware_request_answered:
  fixes E :: "('w, 'u, 's::field, 'p::ab_group_add, 'ed) env"
  assumes "prim_laws (env_prims E)" and "realm_codecs E" and "delivers E realm static A"
    and "realm_public_key realm = Some (bytes_of (x25519_public (env_prims E) static))"
    and "sessions st (realm_id realm) = Some slot" and "session_matches (env_prims E) slot e"
    and "\<And>s. slot = Some s \<Longrightarrow> messages_left (Suc n) (session_transport s)" and "n < 2 ^ 63"
    and "A e (world st)"
  shows "\<exists>random resp r s e' w'. realm_step (env_curve E) random (enclave_record e) request = (resp, r) \<and>
    make_request E realm request st =
      Some (Ok resp, st\<lparr>world := w', sessions := (sessions st)(realm_id realm \<mapsto> Some s)\<rparr>) \<and>
    A e' w' \<and> enclave_record e' = r \<and> session_matches (env_prims E) (Some s) e' \<and>
    messages_left n (session_transport s)"
  using hardware_answered [OF assms, of request] unfolding answered_def .

end
