(* ===== verification/Vault.thy ===== *)
theory Vault
  imports Realm_Spec
begin

text \<open>
  The client and its realms as one abstract object: a vault that holds a secret behind a PIN and
  counts the guesses. \<open>vault_step\<close> says what each of the client's operations does to it;
  \<open>client_refines_vault\<close> shows that the client (rust/sdk/src), over realms that run the machine of
  the whitepaper, does exactly that, for any sequence of operations.
\<close>

section \<open>The vault\<close>

datatype vault =
    Vacant
  | Locked
  | Holding pin user_info user_secret nat nat

datatype operation =
    Registering pin user_secret user_info policy
  | Recovering pin user_info
  | Deleting

datatype outcome =
    RegisterOutcome "register_error + unit"
  | RecoverOutcome "recover_error + user_secret"
  | DeleteOutcome "delete_error + unit"

text \<open>\<open>Holding p i s n k\<close>: \<open>k\<close> of \<open>n\<close> guesses are used. The last wrong one locks the vault.\<close>

fun vault_step :: "operation \<Rightarrow> vault \<Rightarrow> outcome \<times> vault" where
  "vault_step (Registering p s i policy) v =
     (RegisterOutcome (Ok ()),
      if num_guesses policy = 0 then Locked else Holding p i s (unat (num_guesses policy)) 0)"
| "vault_step (Recovering p i) Vacant = (RecoverOutcome (Err recover_error.NotRegistered), Vacant)"
| "vault_step (Recovering p i) Locked = (RecoverOutcome (Err (InvalidPin 0)), Locked)"
| "vault_step (Recovering p i) (Holding p' i' s n k) =
     (if (p, i) = (p', i') then (RecoverOutcome (Ok s), Holding p' i' s n 0)
      else (RecoverOutcome (Err (InvalidPin (of_nat (n - Suc k)))),
            if n \<le> Suc k then Locked else Holding p' i' s n (Suc k)))"
| "vault_step Deleting v = (DeleteOutcome (Ok ()), Vacant)"

fun vault_run :: "operation list \<Rightarrow> vault \<Rightarrow> outcome list \<times> vault" where
  "vault_run [] v = ([], v)"
| "vault_run (op # ops) v =
     (let (r, v) = vault_step op v; (rs, v) = vault_run ops v in (r # rs, v))"

text \<open>What the vault promises: only its PIN opens it, and wrong guesses in a row, as many as are left,
  lock it for every guess that follows.\<close>

lemma vault_opens:
  "fst (vault_step (Recovering p i) v) = RecoverOutcome (Ok s) \<longleftrightarrow> (\<exists>n k. v = Holding p i s n k)"
  by (cases v) auto

lemma vault_locked:
  "vault_run (map (case_prod Recovering) guesses) Locked =
     (replicate (length guesses) (RecoverOutcome (Err (InvalidPin 0))), Locked)"
  by (induction guesses) auto

lemma vault_guess_limit:
  assumes "\<forall>g \<in> set guesses. g \<noteq> (p, i)" and "k < n" and "n \<le> k + length guesses"
  shows "snd (vault_run (map (case_prod Recovering) guesses) (Holding p i s n k)) = Locked"
  using assms
proof (induction guesses arbitrary: k)
  case (Cons g guesses)
  then show ?case
  proof (cases "n \<le> Suc k")
    case True
    with Cons.prems(1) vault_locked [of guesses] show ?thesis
      by (cases g) (auto simp: Let_def)
  next
    case False
    with Cons.prems Cons.IH [of "Suc k"] show ?thesis
      by (cases g) (auto simp: Let_def split_beta)
  qed
qed simp

section \<open>The client's operations\<close>

fun client_step ::
  "('w, 'u, 's::field, 'p::ab_group_add, 'ed) env \<Rightarrow> ('w, 'u) client \<Rightarrow> operation \<Rightarrow>
     'w client_state \<Rightarrow> (outcome \<times> 'w client_state) panics" where
  "client_step E cl (Registering p s i policy) st =
     map_option (map_prod RegisterOutcome id) (client_register E cl p s i policy st)"
| "client_step E cl (Recovering p i) st =
     map_option (map_prod RecoverOutcome id) (client_recover E cl p i st)"
| "client_step E cl Deleting st = map_option (map_prod DeleteOutcome id) (client_delete E cl st)"

fun client_run ::
  "('w, 'u, 's::field, 'p::ab_group_add, 'ed) env \<Rightarrow> ('w, 'u) client \<Rightarrow> operation list \<Rightarrow>
     'w client_state \<Rightarrow> (outcome list \<times> 'w client_state) panics" where
  "client_run E cl [] st = Some ([], st)"
| "client_run E cl (op # ops) st = do {
     (r, st) \<leftarrow> client_step E cl op st;
     (rs, st) \<leftarrow> client_run E cl ops st;
     Some (r # rs, st)
   }"

section \<open>The vault in the records of the realms\<close>

fun exhausted :: "'s record_state \<Rightarrow> bool" where
  "exhausted Unregistered \<longleftrightarrow> False"
| "exhausted SelfDestructed \<longleftrightarrow> True"
| "exhausted (Registered q attempted) \<longleftrightarrow> allowed_guesses q \<le> attempted"

definition vault_in ::
  "('w, 'u, 's::field, 'p::ab_group_add, 'ed) env \<Rightarrow> 'u checked_configuration \<Rightarrow> 'u realm set \<Rightarrow>
     (pin \<times> user_info) set \<Rightarrow> vault \<Rightarrow> ('u realm \<Rightarrow> 's record_state) \<Rightarrow> bool" where
  "vault_in E configuration H P v S \<longleftrightarrow>
     (case v of
        Vacant \<Rightarrow> \<forall>realm \<in> honest H configuration. S realm = Unregistered
      | Locked \<Rightarrow> \<forall>realm \<in> honest H configuration. exhausted (S realm)
      | Holding p i s n k \<Rightarrow> (p, i) \<in> P \<and> k < n \<and>
          (\<exists>b policy st requests st1. user_secret_from b = Some s \<and> n = unat (num_guesses policy) \<and>
             prepare_registration E configuration p s i policy st = Some (Ok requests, st1) \<and>
             recovering H requests k {} {} S))"

text \<open>
  The PINs that are used, with their user infos, can be hashed, and different ones give different
  commitments under every root key and version. (For all PINs at once no hash does that.)
\<close>

definition commitment_of ::
  "('w, 'u, 's::field, 'p::ab_group_add, 'ed) env \<Rightarrow> 's \<Rightarrow> user_secret_access_key \<Rightarrow> unlock_key_commitment" where
  "commitment_of E root access_key = snd (derive_unlock_key_and_commitment (env_prims E)
     (unoblivious_evaluate (env_curve E) (env_prims E) (PrivateKey root) (bytes_of (expose_access_key access_key))))"

definition separates ::
  "('w, 'u, 's::field, 'p::ab_group_add, 'ed) env \<Rightarrow> pin_hashing_mode \<Rightarrow> (pin \<times> user_info) set \<Rightarrow> bool" where
  "separates E mode P \<longleftrightarrow>
     (\<forall>version. \<forall>(p, i) \<in> P. \<exists>ak seed. pin_hash (env_prims E) p mode version i = Some (Some (ak, seed)) \<and>
        (\<forall>root. \<forall>(p', i') \<in> P. \<forall>ak' seed'. (p', i') \<noteq> (p, i) \<longrightarrow>
           pin_hash (env_prims E) p' mode version i' = Some (Some (ak', seed')) \<longrightarrow>
           commitment_of E root ak' \<noteq> commitment_of E root ak))"

lemma separates_hash:
  assumes "separates E mode P" and "(p, i) \<in> P"
  shows "\<exists>ak seed. pin_hash (env_prims E) p mode version i = Some (Some (ak, seed))"
  using assms unfolding separates_def by fast

lemma separates_commitment:
  assumes "separates E mode P" and "(p, i) \<in> P" "(p', i') \<in> P" and "(p', i') \<noteq> (p, i)"
    and "pin_hash (env_prims E) p mode version i = Some (Some (ak, seed))"
    and "pin_hash (env_prims E) p' mode version i' = Some (Some (ak', seed'))"
  shows "commitment_of E root ak' \<noteq> commitment_of E root ak"
proof -
  have "\<forall>(p, i) \<in> P. \<exists>ak seed. pin_hash (env_prims E) p mode version i = Some (Some (ak, seed)) \<and>
        (\<forall>root. \<forall>(p', i') \<in> P. \<forall>ak' seed'. (p', i') \<noteq> (p, i) \<longrightarrow>
           pin_hash (env_prims E) p' mode version i' = Some (Some (ak', seed')) \<longrightarrow>
           commitment_of E root ak' \<noteq> commitment_of E root ak)"
    using assms(1) unfolding separates_def by (rule spec)
  from bspec [OF this assms(2)] obtain a s where a: "pin_hash (env_prims E) p mode version i = Some (Some (a, s))"
    and others: "\<forall>root. \<forall>(p', i') \<in> P. \<forall>ak' seed'. (p', i') \<noteq> (p, i) \<longrightarrow>
           pin_hash (env_prims E) p' mode version i' = Some (Some (ak', seed')) \<longrightarrow>
           commitment_of E root ak' \<noteq> commitment_of E root a"
    by auto
  have "a = ak"
    using a assms(5) by simp
  with bspec [OF spec [OF others, of root] assms(3)] assms(4,6) show ?thesis
    by simp
qed

section \<open>Joins that fail\<close>

text \<open>
  When every future fails, those of \<open>H\<close> with the least of the errors \<open>e\<close>, and the others are too few
  to end the join, its result is \<open>e\<close>.
\<close>

lemma join_loop_errors:
  fixes e :: "'e::linorder"
  assumes step: "\<And>r st n. r \<in> set rs \<Longrightarrow> K (Suc n) st \<Longrightarrow>
      \<exists>e' st'. g r st = Some (Err e', st') \<and> K n st' \<and> e \<le> e' \<and> (r \<in> H \<longrightarrow> e' = e)"
    and less: "\<And>st n. K (Suc n) st \<Longrightarrow> K n st"
    and "set todo \<subseteq> set rs" "K (n + length todo) st" "\<forall>e' \<in> set errors. e \<le> e'"
    and "e \<in> set errors \<or> length errors + length (filter (\<lambda>r. r \<notin> H) todo) \<le> limit"
    and "length errors \<le> limit" "limit < length errors + length todo"
  shows "\<exists>st'. join_loop limit oks errors (map g todo) st = Some (Err e, st') \<and> K n st'"
  using assms(3-)
proof (induction todo arbitrary: errors st)
  case (Cons r todo)
  obtain e' st' where r: "g r st = Some (Err e', st')" "K (n + length todo) st'" "e \<le> e'" "r \<in> H \<longrightarrow> e' = e"
    using step [of r "n + length todo" st] Cons.prems(1,2) by auto
  have rest: "K n st'"
    by (rule down_closed [where Q = "\<lambda>n. K n st'", OF less le_add1 r(2)])
  have le: "\<forall>x \<in> set (errors @ [e']). e \<le> x"
    using r(3) Cons.prems(3) by auto
  show ?case
  proof (cases "limit < length (errors @ [e'])")
    case True
    then have "e \<in> set (errors @ [e'])"
      using Cons.prems(4) r(4) by (auto split: if_splits)
    then have "Min (set (errors @ [e'])) = e"
      using le by (intro Min_eqI) auto
    then have "min_value (errors @ [e']) = Some e"
      using min_value_eq [of "errors @ [e']"] by simp
    with True r(1) rest show ?thesis
      by (auto simp: Let_def simp del: min_value.simps)
  next
    case False
    have "\<exists>st''. join_loop limit oks (errors @ [e']) (map g todo) st' = Some (Err e, st'') \<and> K n st''"
      by (rule Cons.IH) (use Cons.prems r False le in \<open>auto split: if_splits\<close>)
    with False r(1) show ?thesis
      by (auto simp: Let_def)
  qed
qed simp

lemma join_fails:
  fixes e :: "'e::linorder"
  assumes ok: "executor_ok E" and t: "0 < unat threshold" "unat threshold \<le> length (filter (\<lambda>r. r \<in> H) rs)"
    and step: "\<And>r st n. r \<in> set rs \<Longrightarrow> K (Suc n) st \<Longrightarrow>
      \<exists>e' st'. g r st = Some (Err e', st') \<and> K n st' \<and> e \<le> e' \<and> (r \<in> H \<longrightarrow> e' = e)"
    and less: "\<And>st n. K (Suc n) st \<Longrightarrow> K n st"
    and start: "K (n + length rs) (st\<lparr>world := snd (env_executor E (length rs) (world st))\<rparr>)"
  shows "\<exists>st'. join_at_least_threshold E (map g rs) threshold st = Some (Err e, st') \<and> K n st'"
proof -
  obtain order w where order: "env_executor E (length (map g rs)) (world st) = (order, w)"
    by fastforce
  note sched = executor_schedule [OF ok order] and split = sum_length_filter_compl [of "\<lambda>r. r \<in> H" rs]
  have "\<exists>st'. join_loop (length rs - unat threshold) [] [] (map g (in_order order rs)) (st\<lparr>world := w\<rparr>) =
      Some (Err e, st') \<and> K n st'"
    by (rule join_loop_errors [where rs = rs and H = H and K = K, OF step less])
      (use start order mset_eq_setD [OF sched(1)] sched(3) [of "\<lambda>r. r \<notin> H"] split t mset_eq_length [OF sched(1)] in auto)
  moreover have "unat threshold \<le> length (map g rs)"
    using split t(2) by simp
  ultimately show ?thesis
    unfolding join_unfold [OF t(1) \<open>unat threshold \<le> length (map g rs)\<close> order] sched(2) by auto
qed

section \<open>Recovery\<close>

lemma recover_phase1_fails:
  assumes ok: "executor_ok E" and hosts: "hosts E R H I" and sub: "set (crealms configuration) \<subseteq> R"
    and cfg: "checked_ok configuration"
    and many: "unat (recover_threshold (the_configuration configuration)) \<le>
      length (filter (\<lambda>r. r \<in> H) (crealms configuration))"
    and inv: "I (n + length (crealms configuration)) S st" "\<And>realm. realm \<in> honest H configuration \<Longrightarrow> V (S realm)"
    and V: "\<And>s random resp s'. V s \<Longrightarrow> realm_step (env_curve E) random s Recover1 = (resp, s') \<Longrightarrow>
      V s' \<and> (e = recover_error.NotRegistered \<and> resp = Recover1Response Recover1NotRegistered \<or>
        e = InvalidPin 0 \<and> resp = Recover1Response Recover1NoGuesses)"
    and e: "e = recover_error.NotRegistered \<or> e = InvalidPin 0"
  shows "\<exists>S' st'. perform_recover_with_configuration E pin info configuration st = Some (Err e, st') \<and>
    I n S' st' \<and> (\<forall>realm \<in> honest H configuration. V (S' realm))"
proof -
  let ?K = "\<lambda>n st. \<exists>S. I n S st \<and> (\<forall>realm \<in> honest H configuration. V (S realm))"
  have low: "e \<le> recover_error_from x" for x
    using e by (cases x) (auto simp: less_eq_recover_error_def)
  have "\<exists>st'. join_at_least_threshold E (map (recover1_on_realm E) (crealms configuration))
      (recover_threshold (the_configuration configuration)) st = Some (Err e, st') \<and> ?K n st'"
  proof (rule join_fails [where K = ?K, OF ok checked_ok_facts(2) [OF cfg] many])
    fix realm st m assume realm: "realm \<in> set (crealms configuration)" and "?K (Suc m) st"
    then obtain S where S: "I (Suc m) S st" "\<And>r. r \<in> honest H configuration \<Longrightarrow> V (S r)"
      by blast
    have R: "realm \<in> R"
      using realm sub by blast
    from hosts R S(1) show "\<exists>e' st'. recover1_on_realm E realm st = Some (Err e', st') \<and> ?K m st' \<and>
        e \<le> e' \<and> (realm \<in> H \<longrightarrow> e' = e)"
    proof (cases rule: hosts_request [where request = Recover1])
      case (honest random resp s st')
      have "realm \<in> honest H configuration"
        using realm honest(1) by (simp add: honest_def)
      from V [OF S(2) [OF this] honest(2)] S(2) have "\<forall>r \<in> honest H configuration. V ((S(realm := s)) r)"
          "recover1_on_realm E realm st = Some (Err e, st')"
        using honest(3) by (auto simp: recover1_on_realm_def io_match_def io_err_def)
      with honest(4) show ?thesis
        by blast
    next
      case (failing x st')
      then have "recover1_on_realm E realm st = Some (Err (recover_error_from x), st')"
        by (simp add: recover1_on_realm_def io_match_def io_err_def)
      with failing(1,3) S(2) low show ?thesis
        by blast
    qed
  qed (use hostsD(1) [OF hosts inv(1)] hostsD(5) [OF hosts] inv(2) in blast)+
  then obtain S' st' where "join_at_least_threshold E (map (recover1_on_realm E) (crealms configuration))
      (recover_threshold (the_configuration configuration)) st = Some (Err e, st')"
    and S': "I n S' st'" "\<forall>realm \<in> honest H configuration. V (S' realm)"
    by blast
  then have "recover_key E pin info configuration st = Some (Err e, st')"
    by (simp add: recover_key_def recover_phase1_def io_bind_def Let_def)
  with S' show ?thesis
    using perform_recover_outcome [of E pin info configuration st "Err e" st'] by auto
qed

text \<open>A registration that is held: recovery with a right or a wrong PIN.\<close>

lemma held_serves:
  assumes hosts: "hosts E R H I" and cfg: "checked_ok configuration" and sub: "set (crealms configuration) \<subseteq> R"
    and fst: "map fst requests = crealms configuration" and k: "k < unat g"
    and n: "\<And>q. q \<in> snd ` set requests \<Longrightarrow> num_guesses (r2_policy q) = g"
  shows "serves E H (\<lambda>_. g - of_nat (Suc k)) (\<lambda>n T U st. \<exists>S. I n S st \<and> recovering H requests k T U S) requests"
proof -
  have "fst ` set requests \<subseteq> R"
    using fst sub by (metis list.set_map)
  then show ?thesis
    using checked_ok_facts(1) [OF cfg] fst n by (intro hosts_serves [OF hosts _ _ _ k]) auto
qed

lemma held_honest:
  assumes "map fst requests = crealms configuration" and "(realm, q) \<in> set requests" and "realm \<in> H"
  shows "realm \<in> honest H configuration"
  using assms(2,3) unfolding honest_def assms(1) [symmetric] by force

lemma least_guesses_left:
  assumes cfg: "checked_ok configuration" and k: "k < unat (n :: u16)"
    and many: "unat (recover_threshold (the_configuration configuration)) \<le>
      length (filter (\<lambda>r. r \<in> H) (crealms configuration))"
  shows "Min ((\<lambda>_. n - of_nat (Suc k)) ` honest H configuration) = of_nat (unat n - Suc k)"
proof -
  have "honest H configuration \<noteq> {}"
    using many checked_ok_facts(2) [OF cfg] unfolding honest_def by (metis filter_empty_conv list.size(3) not_le set_empty)
  then show ?thesis
    by (simp add: image_constant_conv guesses_left(2) [OF k, symmetric] del: of_nat_Suc)
qed

lemma holding_recovered:
  fixes E :: "('w, 'u, 's::field, 'p::ab_group_add, 'ed) env"
  assumes ok: "executor_ok E" and laws: "curve_laws (env_curve E)" "prim_laws (env_prims E)"
    and cfg: "checked_ok configuration"
    and inj: "inj_on (scalar_from (env_curve E)) {1..of_nat (length (crealms configuration))}"
    and nz: "\<And>w. fst (env_random_scalar E w) \<noteq> 0"
    and hosts: "hosts E R H I" and sub: "set (crealms configuration) \<subseteq> R"
    and many: "unat (recover_threshold (the_configuration configuration)) \<le>
      length (filter (\<lambda>r. r \<in> H) (crealms configuration))"
    and sep: "separates E (config_pin_hashing_mode (the_configuration configuration)) P"
    and secret: "user_secret_from b = Some secret"
    and run: "prepare_registration E configuration p' secret i' policy st0 = Some (Ok requests, st1)"
    and k: "k < unat (num_guesses policy)"
    and inv: "I (n + 3 * length (crealms configuration)) S st" "recovering H requests k {} {} S" and P: "(p', i') \<in> P" "(p, i) \<in> P"
  shows "\<exists>S' st'. perform_recover_with_configuration E p i configuration st =
      Some (if (p, i) = (p', i') then Ok secret
            else Err (InvalidPin (of_nat (unat (num_guesses policy) - Suc k))), st') \<and> I n S' st' \<and>
    map fst requests = crealms configuration \<and> (\<forall>q \<in> snd ` set requests. r2_policy q = policy) \<and>
    recovering H requests (if (p, i) = (p', i') then 0 else Suc k) {} {} S'"
proof (rule recovery_after_registration [OF ok laws cfg inj nz secret run many])
  let ?mode = "config_pin_hashing_mode (the_configuration configuration)"
  let ?I = "\<lambda>n T U st. \<exists>S. I n S st \<and> recovering H requests k T U S"
  let ?left = "\<lambda>_ :: 'u realm. num_guesses policy - of_nat (Suc k)"
  fix version ak seed root
  assume hash: "pin_hash (env_prims E) p' ?mode version i' = Some (Some (ak, seed))"
    and fst: "map fst requests = crealms configuration"
    and same: "\<And>q. q \<in> snd ` set requests \<Longrightarrow> r2_version q = version \<and> r2_policy q = policy \<and>
      r2_unlock_key_commitment q = snd (derive_unlock_key_and_commitment (env_prims E)
        (unoblivious_evaluate (env_curve E) (env_prims E) (PrivateKey root) (bytes_of (expose_access_key ak))))"
    and right: "\<And>left I n st2. serves E H left I requests \<Longrightarrow> I (n + 3 * length (crealms configuration)) {} {} st2 \<Longrightarrow>
      \<exists>st3. perform_recover_with_configuration E p' i' configuration st2 = Some (Ok secret, st3) \<and>
        I n (honest H configuration) (honest H configuration) st3"
    and wrong: "\<And>left I n st2 pin' info' ak' seed'. serves E H left I requests \<Longrightarrow> I (n + 3 * length (crealms configuration)) {} {} st2 \<Longrightarrow>
      pin_hash (env_prims E) pin' ?mode version info' = Some (Some (ak', seed')) \<Longrightarrow>
      snd (derive_unlock_key_and_commitment (env_prims E)
        (unoblivious_evaluate (env_curve E) (env_prims E) (PrivateKey root) (bytes_of (expose_access_key ak')))) \<noteq>
      snd (derive_unlock_key_and_commitment (env_prims E)
        (unoblivious_evaluate (env_curve E) (env_prims E) (PrivateKey root) (bytes_of (expose_access_key ak)))) \<Longrightarrow>
      \<exists>st3. perform_recover_with_configuration E pin' info' configuration st2 =
        Some (Err (InvalidPin (Min (left ` honest H configuration))), st3) \<and> I n (honest H configuration) {} st3"
  have pol: "\<forall>q \<in> snd ` set requests. r2_policy q = policy"
    using same by blast
  have serves: "serves E H ?left ?I requests"
    by (rule held_serves [OF hosts cfg sub fst k]) (use pol in auto)
  have start: "?I (n + 3 * length (crealms configuration)) {} {} st"
    using inv by blast
  note all = held_honest [OF fst] and least = least_guesses_left [OF cfg k many]
  show ?thesis
  proof (cases "(p, i) = (p', i')")
    case True
    from right [OF serves start] obtain st' S' where
      "perform_recover_with_configuration E p' i' configuration st = Some (Ok secret, st')" "I n S' st'"
      and "recovering H requests k (honest H configuration) (honest H configuration) S'"
      by blast
    moreover from this(3) all have "recovering H requests 0 {} {} S'"
      unfolding recovering_def by fastforce
    ultimately show ?thesis
      using True fst pol by auto
  next
    case False
    obtain ak' seed' where hash': "pin_hash (env_prims E) p ?mode version i = Some (Some (ak', seed'))"
      using separates_hash [OF sep P(2)] by blast
    from separates_commitment [OF sep P False hash hash'] wrong [OF serves start hash']
    obtain st' S' where "perform_recover_with_configuration E p i configuration st =
        Some (Err (InvalidPin (Min (?left ` honest H configuration))), st')" "I n S' st'"
      and "recovering H requests k (honest H configuration) {} S'"
      unfolding commitment_of_def by blast
    moreover from this(3) all have "recovering H requests (Suc k) {} {} S'"
      unfolding recovering_def by fastforce
    ultimately show ?thesis
      using False fst pol unfolding least by auto
  qed
qed

section \<open>Registration\<close>

text \<open>Preparing a registration only draws random values.\<close>

lemma repeat_with_keeps: "J w \<Longrightarrow> (\<And>w. J w \<Longrightarrow> J (snd (random w))) \<Longrightarrow> J (snd (repeat_with random n w))"
  by (induction n arbitrary: w) (auto simp: Let_def split_beta)

lemma prepare_registration_keeps:
  assumes hosts: "hosts E R H I" and inv: "I n S st"
    and run: "prepare_registration E configuration pin secret info policy st = Some (r, st')"
  shows "I n S st'"
proof -
  let ?R = "\<lambda>st st'. I n S st \<longrightarrow> I n S st'"
  have re: "reflp ?R" and tr: "transp ?R"
    by (auto intro: reflpI transpI)
  have world: "io_rel ?R (io_world (registration_version_new_random (env_random16 E)))"
      "io_rel ?R (io_world (private_key_random (env_random_scalar E)))"
      "io_rel ?R (io_world (signing_key_new_random (env_random32 E)))"
      "io_rel ?R (io_world (key_scalar_new_random (env_random_scalar E)))"
    using hostsD [OF hosts] by (auto intro!: io_relI simp: io_world_def registration_version_new_random_def
        private_key_random_def signing_key_new_random_def key_scalar_new_random_def Let_def split_beta)
  have shares: "io_rel ?R (create_scalar_shares E sec t c :: ('a client_state, register_error, 'c list) step)" for sec t c
  proof -
    have "I n S st \<Longrightarrow> I n S (st\<lparr>world := snd (repeat_with (env_random_scalar E) m (world st))\<rparr>)" for m st
      by (rule repeat_with_keeps [of "\<lambda>w. I n S (st\<lparr>world := w\<rparr>)"]) (use hostsD(2) [OF hosts] in fastforce)+
    then show ?thesis
      unfolding create_scalar_shares_def
      by (intro io_rel_bind [OF tr] io_rel_pure [OF re])
        (auto intro!: io_relI simp: io_world_opt_def create_shares_def Let_def split_beta
          split: if_splits option.splits)
  qed
  have "io_rel ?R (prepare_registration E configuration pin secret info policy)"
    unfolding prepare_registration_def Let_def split_beta
    by (intro io_rel_bind [OF tr] world shares io_rel_pure [OF re])
  from io_relD [OF this run] inv show ?thesis
    by blast
qed

lemma register1_accepted:
  fixes E :: "('w, 'u, 's::field, 'p::ab_group_add, 'ed) env"
  assumes ok: "executor_ok E" and cfg: "checked_ok configuration"
    and hosts: "hosts E R H I" and sub: "set (crealms configuration) \<subseteq> R"
    and t: "0 < unat threshold" "unat threshold \<le> length (filter (\<lambda>r. r \<in> H) (crealms configuration))"
    and inv: "I (n + length (crealms configuration)) S st"
  shows "\<exists>xs S' st'. join_at_least_threshold E (map (register1_on_realm E) (crealms configuration)) threshold st =
    Some (Ok xs, st') \<and> I n S' st'"
proof -
  let ?rs = "crealms configuration"
  let ?K = "\<lambda>(todo :: 'u realm list) st. \<exists>S. I (n + length todo) S st"
  have "\<exists>hs xs st'. mset hs = mset (filter (\<lambda>r. r \<in> H) ?rs) \<and> list_all2 (\<lambda>_ _. True) hs xs \<and> ?K [] st' \<and>
    join_at_least_threshold E (map (register1_on_realm E) ?rs) threshold st = Some (Ok xs, st')"
  proof (rule join_answers [where K = ?K, OF ok t checked_ok_facts(1) [OF cfg]])
    fix realm rest st assume realm: "set (realm # rest) \<subseteq> set ?rs" and "?K (realm # rest) st"
    then obtain S where S: "I (Suc (n + length rest)) S st"
      by auto
    have "realm \<in> R"
      using realm sub by auto
    from hosts this S show "\<exists>q st'. register1_on_realm E realm st = Some (q, st') \<and> ?K rest st' \<and>
        (if realm \<in> H then \<exists>x. q = Ok x \<and> True else \<exists>e. q = Err e)"
      by (cases rule: hosts_request [where request = Register1])
        (auto simp: register1_on_realm_def io_match_def io_return_def io_err_def)
  next
    fix todo assume "set todo = set ?rs" "distinct todo"
    then have "length todo = length ?rs"
      using same_length checked_ok_facts(1) [OF cfg] by metis
    then show "?K todo (st\<lparr>world := snd (env_executor E (length ?rs) (world st))\<rparr>)"
      using hostsD(1) [OF hosts inv] by auto
  qed
  then show ?thesis
    by auto
qed

text \<open>The requests of \<open>todo\<close> are still to be sent, the records of the others are there.\<close>

definition uploading ::
  "'u realm set \<Rightarrow> ('u realm \<times> 's register2_request) list \<Rightarrow> ('u realm \<times> 's register2_request) set \<Rightarrow>
     ('u realm \<Rightarrow> 's record_state) \<Rightarrow> bool" where
  "uploading H requests todo S \<longleftrightarrow>
     (\<forall>(realm, q) \<in> set requests. realm \<in> H \<longrightarrow> (realm, q) \<notin> todo \<longrightarrow> S realm = Registered q 0)"

lemma uploading_stored:
  assumes "uploading H requests (insert (realm, q) todo) S" and "distinct (map fst requests)"
    and "(realm, q) \<in> set requests"
  shows "uploading H requests todo (S(realm := Registered q 0))"
  unfolding uploading_def
proof safe
  fix r p assume rp: "(r, p) \<in> set requests" "r \<in> H" "(r, p) \<notin> todo"
  show "(S(realm := Registered q 0)) r = Registered p 0"
  proof (cases "r = realm")
    case True
    then have "p = q"
      using eq_key_imp_eq_value [OF assms(2)] rp(1) assms(3) by blast
    with True show ?thesis
      by simp
  next
    case False
    with assms(1) rp show ?thesis
      by (auto simp: uploading_def)
  qed
qed

lemma register2_stored:
  assumes ok: "executor_ok E" and dist: "distinct (map fst requests)"
    and hosts: "hosts E R H I" and sub: "fst ` set requests \<subseteq> R"
    and t: "0 < unat threshold" "unat threshold \<le> length (filter (\<lambda>r. r \<in> H) (map fst requests))"
    and inv: "I (n + length requests) S st"
  shows "\<exists>ys S' st'. join_at_least_threshold E (map (\<lambda>(realm, request). register2_on_realm E realm request) requests)
      threshold st = Some (Ok ys, st') \<and> I n S' st' \<and> recovering H requests 0 {} {} S'"
proof -
  let ?g = "\<lambda>(realm, request). register2_on_realm E realm request" and ?H = "{rq. fst rq \<in> H}"
  let ?K = "\<lambda>todo st. \<exists>S. I (n + length todo) S st \<and> uploading H requests (set todo) S"
  have count: "length (filter (\<lambda>rq. rq \<in> ?H) requests) = length (filter (\<lambda>r. r \<in> H) (map fst requests))"
    unfolding filter_map by (simp add: comp_def)
  have "\<exists>hs xs st'. mset hs = mset (filter (\<lambda>rq. rq \<in> ?H) requests) \<and> list_all2 (\<lambda>_ _. True) hs xs \<and>
    ?K [] st' \<and> join_at_least_threshold E (map ?g requests) threshold st = Some (Ok xs, st')"
  proof (rule join_answers [where K = ?K, OF ok t(1) _ distinct_map [THEN iffD1, OF dist, THEN conjunct1]])
    fix rq rest st assume rq: "set (rq # rest) \<subseteq> set requests" "distinct (rq # rest)" and "?K (rq # rest) st"
    then obtain realm q S where eq: "rq = (realm, q)" and S: "I (Suc (n + length rest)) S st" "uploading H requests (insert (realm, q) (set rest)) S"
      by (cases rq) auto
    have mem: "(realm, q) \<in> set requests" "realm \<in> R"
      using rq(1) sub unfolding eq by force+
    from hosts mem(2) S(1) show "\<exists>x st'. ?g rq st = Some (x, st') \<and> ?K rest st' \<and>
        (if rq \<in> ?H then \<exists>y. x = Ok y \<and> True else \<exists>e. x = Err e)"
    proof (cases rule: hosts_request [where request = "Register2 q"])
      case (honest random resp s st')
      have "I (n + length rest) (S(realm := Registered q 0)) st'"
        using honest(2,4) by (simp del: fun_upd_apply)
      with honest(1-3) uploading_stored [OF S(2) dist mem(1)] eq show ?thesis
        by (auto simp: register2_on_realm_def io_match_def io_return_def simp del: fun_upd_apply)
    next
      case (failing e st')
      then have "uploading H requests (set rest) S"
        using S(2) by (auto simp: uploading_def)
      with failing eq show ?thesis
        by (auto simp: register2_on_realm_def io_match_def io_err_def)
    qed
  next
    fix todo assume "set todo = set requests" "distinct todo"
    then have "length todo = length requests"
      using same_length distinct_map [THEN iffD1, OF dist, THEN conjunct1] by metis
    then show "?K todo (st\<lparr>world := snd (env_executor E (length requests) (world st))\<rparr>)"
      using hostsD(1) [OF hosts inv] \<open>set todo = set requests\<close> by (auto simp: uploading_def)
  qed (use t(2) count in simp)
  then show ?thesis
    by (auto simp: uploading_def recovering_def)
qed

lemma registers:
  fixes E :: "('w, 'u, 's::field, 'p::ab_group_add, 'ed) env"
  assumes ok: "executor_ok E" and laws: "prim_laws (env_prims E)" and cfg: "checked_ok configuration"
    and hosts: "hosts E R H I" and sub: "set (crealms configuration) \<subseteq> R"
    and t: "0 < unat (register_threshold (the_configuration configuration))"
      "unat (register_threshold (the_configuration configuration)) \<le>
        length (filter (\<lambda>r. r \<in> H) (crealms configuration))"
    and secret: "user_secret_from b = Some secret"
    and hash: "\<And>version. \<exists>a s. pin_hash (env_prims E) pin
      (config_pin_hashing_mode (the_configuration configuration)) version info = Some (Some (a, s))"
    and inv: "I (n + 2 * length (crealms configuration)) S st"
  shows "\<exists>st0 requests st1 S' st'. perform_register E configuration pin secret info policy st = Some (Ok (), st') \<and>
    prepare_registration E configuration pin secret info policy st0 = Some (Ok requests, st1) \<and>
    I n S' st' \<and> recovering H requests 0 {} {} S'"
proof -
  let ?rs = "crealms configuration" and ?t = "register_threshold (the_configuration configuration)"
  obtain xs st0 S0 where join1: "join_at_least_threshold E (map (register1_on_realm E) ?rs) ?t st = Some (Ok xs, st0)"
    and S0: "I (n + length ?rs) S0 st0"
    using register1_accepted [OF ok cfg hosts sub t, of "n + length ?rs" S st] inv
    unfolding mult_2 add.assoc by blast
  obtain requests st1 where prepare: "prepare_registration E configuration pin secret info policy st0 =
      Some (Ok requests, st1)"
    by (rule prepare_registration_runs [OF laws cfg secret hash])
  have fst: "map fst requests = ?rs"
    using registration_stored [OF cfg laws secret prepare] by metis
  have S1: "I (n + length requests) S0 st1"
    using prepare_registration_keeps [OF hosts S0 prepare] arg_cong [OF fst, of length] by simp
  have dist: "distinct (map fst requests)" "fst ` set requests \<subseteq> R"
    using checked_ok_facts(1) [OF cfg] fst sub by (simp, metis list.set_map)
  from register2_stored [OF ok dist(1) hosts dist(2) t(1) t(2) [folded fst] S1] obtain ys st' S' where
    "join_at_least_threshold E (map (\<lambda>(realm, request). register2_on_realm E realm request) requests) ?t st1 =
      Some (Ok ys, st')" and S': "I n S' st'" "recovering H requests 0 {} {} S'"
    by blast
  then have "perform_register E configuration pin secret info policy st = Some (Ok (), st')"
    using join1 prepare by (simp add: perform_register_def Let_def io_bind_def io_return_def)
  with prepare S' show ?thesis
    by blast
qed

section \<open>Deletion\<close>

lemma run_all_deletes:
  assumes hosts: "hosts E R H I" and todo: "set todo \<subseteq> R" "set todo \<subseteq> H" and inv: "I (n + length todo) S st"
  shows "\<exists>S' st'. run_all (map (delete_on_realm E) todo) st = Some (map (\<lambda>_. Ok ()) todo, st') \<and> I n S' st' \<and>
    (\<forall>realm. S' realm = (if realm \<in> set todo then Unregistered else S realm))"
  using todo inv
proof (induction todo arbitrary: S st)
  case (Cons realm todo)
  have realm: "realm \<in> R" "realm \<in> H"
    using Cons.prems by auto
  have "I (Suc (n + length todo)) S st"
    using Cons.prems(3) by simp
  from hosts realm(1) this obtain st1 where del: "delete_on_realm E realm st = Some (Ok (), st1)"
    and S1: "I (n + length todo) (S(realm := Unregistered)) st1"
    by (cases rule: hosts_request [where request = Delete])
      (use realm(2) in \<open>auto simp: delete_on_realm_def io_match_def io_return_def simp del: fun_upd_apply\<close>)
  obtain S' st' where "run_all (map (delete_on_realm E) todo) st1 = Some (map (\<lambda>_. Ok ()) todo, st')" "I n S' st'"
      "\<forall>r. S' r = (if r \<in> set todo then Unregistered else (S(realm := Unregistered)) r)"
    using Cons.IH [OF _ _ S1] Cons.prems(1,2) by auto
  with del show ?case
    by auto
qed auto

lemma deletes:
  assumes ok: "executor_ok E" and hosts: "hosts E R H I" and sub: "set (crealms configuration) \<subseteq> R"
    and all: "set (crealms configuration) \<subseteq> H" and inv: "I (n + length (crealms configuration)) S st"
  shows "\<exists>S' st'. perform_delete E configuration st = Some (Ok (), st') \<and> I n S' st' \<and>
    (\<forall>realm \<in> honest H configuration. S' realm = Unregistered)"
proof -
  let ?rs = "crealms configuration"
  obtain order w where order: "env_executor E (length (map (delete_on_realm E) ?rs)) (world st) = (order, w)"
    by fastforce
  have perm: "mset order = mset [0..<length ?rs]" "length order = length ?rs"
    using executor_order [OF ok order] by simp_all
  note sched = executor_schedule [OF ok order]
  have todo: "set (in_order order ?rs) = set ?rs"
    by (rule mset_eq_setD [OF sched(1)])
  have "I (n + length (in_order order ?rs)) S (st\<lparr>world := w\<rparr>)"
    using hostsD(1) [OF hosts inv, of "length ?rs"] order mset_eq_length [OF sched(1)] by simp
  from run_all_deletes [OF hosts _ _ this] obtain S' st' where
    run: "run_all (in_order order (map (delete_on_realm E) ?rs)) (st\<lparr>world := w\<rparr>) =
      Some (map (\<lambda>_. Ok ()) (in_order order ?rs), st')"
    and S': "I n S' st'" "\<forall>realm \<in> set ?rs. S' realm = Unregistered"
    unfolding sched(2) todo using sub all by auto
  from join_all_results [OF ok order run] obtain rs where
    rs: "join_all E (map (delete_on_realm E) ?rs) st = Some (rs, st')" "length rs = length ?rs"
      "\<forall>k < length ?rs. order ! k < length ?rs \<and> rs ! (order ! k) = map (\<lambda>_. Ok ()) (in_order order ?rs) ! k"
    by auto
  have "rs ! j = Ok ()" if "j < length rs" for j
  proof -
    have "j \<in> set order"
      using that rs(2) mset_eq_setD [OF perm(1)] by simp
    then obtain k where "k < length order" "order ! k = j"
      by (auto simp: in_set_conv_nth)
    then show ?thesis
      using rs(3) perm(2) by (auto simp: in_order_def)
  qed
  then have "\<exists>xs. collect_results rs = Ok xs"
    unfolding collect_results_Ok by (metis in_set_conv_nth)
  then have "perform_delete E configuration st = Some (Ok (), st')"
    using rs(1) by (auto simp: perform_delete_def)
  with S' show ?thesis
    by (auto simp: honest_def)
qed

section \<open>Refinement\<close>

fun operation_ok ::
  "'u checked_configuration \<Rightarrow> 'u realm set \<Rightarrow> (pin \<times> user_info) set \<Rightarrow> operation \<Rightarrow> bool" where
  "operation_ok configuration H P (Registering p s i policy) \<longleftrightarrow>
     (p, i) \<in> P \<and> (\<exists>b. user_secret_from b = Some s)"
| "operation_ok configuration H P (Recovering p i) \<longleftrightarrow> (p, i) \<in> P"
| "operation_ok configuration H P Deleting \<longleftrightarrow> set (crealms configuration) \<subseteq> H"

lemma vault_in_exhausted:
  assumes "recovering H requests k {} {} S" and "map fst requests = crealms configuration"
    and "\<And>q. q \<in> snd ` set requests \<Longrightarrow> allowed_guesses q \<le> k"
  shows "vault_in E configuration H P Locked S"
proof -
  have "exhausted (S realm)" if realm: "realm \<in> honest H configuration" for realm
  proof -
    obtain q where "(realm, q) \<in> set requests" "realm \<in> H"
      using realm unfolding honest_def assms(2) [symmetric] by auto
    then show ?thesis
      using assms(1,3) by (force simp: recovering_def)
  qed
  then show ?thesis
    by (simp add: vault_in_def)
qed

lemma recovers:
  fixes E :: "('w, 'u, 's::field, 'p::ab_group_add, 'ed) env"
  assumes common: "executor_ok E" "curve_laws (env_curve E)" "prim_laws (env_prims E)" "checked_ok configuration"
      "inj_on (scalar_from (env_curve E)) {1..of_nat (length (crealms configuration))}"
      "\<And>w. fst (env_random_scalar E w) \<noteq> 0"
      "hosts E R H I" "set (crealms configuration) \<subseteq> R"
      "unat (recover_threshold (the_configuration configuration)) \<le>
        length (filter (\<lambda>r. r \<in> H) (crealms configuration))"
      "separates E (config_pin_hashing_mode (the_configuration configuration)) P"
    and v: "vault_in E configuration H P v S" and inv: "I (m + 3 * length (crealms configuration)) S st" and P: "(p, i) \<in> P"
  shows "\<exists>r v' S' st'. vault_step (Recovering p i) v = (RecoverOutcome r, v') \<and>
    perform_recover_with_configuration E p i configuration st = Some (r, st') \<and> I m S' st' \<and>
    vault_in E configuration H P v' S'"
proof (cases v)
  case Vacant
  have inv1: "I (m + length (crealms configuration)) S st"
    by (rule hosts_less [where I = I, OF common(7) _ inv]) simp
  have "\<exists>S' st'. perform_recover_with_configuration E p i configuration st =
      Some (Err recover_error.NotRegistered, st') \<and> I m S' st' \<and>
      (\<forall>realm \<in> honest H configuration. S' realm = Unregistered)"
    by (rule recover_phase1_fails [OF common(1,7,8,4,9) inv1, where V = "\<lambda>s. s = Unregistered"])
      (use v in \<open>auto simp: Vacant vault_in_def\<close>)
  then show ?thesis
    by (auto simp: Vacant vault_in_def)
next
  case Locked
  have inv1: "I (m + length (crealms configuration)) S st"
    by (rule hosts_less [where I = I, OF common(7) _ inv]) simp
  have "\<exists>S' st'. perform_recover_with_configuration E p i configuration st =
      Some (Err (InvalidPin 0), st') \<and> I m S' st' \<and> (\<forall>realm \<in> honest H configuration. exhausted (S' realm))"
    by (rule recover_phase1_fails [OF common(1,7,8,4,9) inv1, where V = exhausted])
      (use v in \<open>auto simp: Locked vault_in_def split: record_state.splits if_splits\<close>)
  then show ?thesis
    by (auto simp: Locked vault_in_def)
next
  case (Holding p' i' s n k)
  obtain b policy st0 requests st1 where h: "(p', i') \<in> P" "k < n" "user_secret_from b = Some s"
      "n = unat (num_guesses policy)"
      "prepare_registration E configuration p' s i' policy st0 = Some (Ok requests, st1)"
      "recovering H requests k {} {} S"
    using v by (auto simp: Holding vault_in_def)
  from holding_recovered [OF common h(3,5) h(2) [unfolded h(4)] inv h(6,1) P] obtain S' st' where
    run: "perform_recover_with_configuration E p i configuration st =
      Some (if (p, i) = (p', i') then Ok s else Err (InvalidPin (of_nat (n - Suc k))), st')"
    and S': "I m S' st'" and fst: "map fst requests = crealms configuration"
    and policy: "\<forall>q \<in> snd ` set requests. r2_policy q = policy"
    and rec: "recovering H requests (if (p, i) = (p', i') then 0 else Suc k) {} {} S'"
    unfolding h(4) [symmetric] by blast
  have "vault_in E configuration H P (Holding p' i' s n j) S'"
    if "j < n" "recovering H requests j {} {} S'" for j
    using h(1,3-5) that by (auto simp: vault_in_def)
  moreover have "vault_in E configuration H P Locked S'"
    if "n \<le> Suc k" "recovering H requests (Suc k) {} {} S'"
    using vault_in_exhausted [OF that(2) fst] that(1) policy h(4) by (simp add: allowed_guesses_def)
  ultimately show ?thesis
    using run S' rec h(2) by (auto simp: Holding)
qed

lemma vault_in_registered:
  assumes cfg: "checked_ok configuration" and laws: "prim_laws (env_prims E)" and b: "user_secret_from b = Some s"
    and run: "prepare_registration E configuration p s i policy st = Some (Ok requests, st1)"
    and rec: "recovering H requests 0 {} {} S" and P: "(p, i) \<in> P"
  shows "vault_in E configuration H P (snd (vault_step (Registering p s i policy) v)) S"
proof (cases "num_guesses policy = 0")
  case True
  have fst: "map fst requests = crealms configuration"
    and policy: "\<And>j. j < length (crealms configuration) \<Longrightarrow> r2_policy (snd (requests ! j)) = policy"
    using registration_stored [OF cfg laws b run] by metis+
  have "allowed_guesses q \<le> 0" if q: "q \<in> snd ` set requests" for q
  proof -
    obtain j where "j < length requests" "q = snd (requests ! j)"
      using q by (auto simp: in_set_conv_nth)
    then show ?thesis
      using policy [of j] True arg_cong [OF fst, of length] by (simp add: allowed_guesses_def)
  qed
  from vault_in_exhausted [OF rec fst this] True show ?thesis
    by simp
next
  case False
  then have "0 < unat (num_guesses policy)"
    by (simp add: unat_gt_0)
  with False show ?thesis
    using b run rec P by (auto simp: vault_in_def)
qed

lemma client_env_sel [simp]:
  "env_curve (client_env E cl) = env_curve E" "env_prims (client_env E cl) = env_prims E"
  "env_random_scalar (client_env E cl) = env_random_scalar E" "env_executor (client_env E cl) = env_executor E"
  by (simp_all add: client_env_def)

lemma client_env_ok [simp]: "executor_ok (client_env E cl) \<longleftrightarrow> executor_ok E"
  by (simp add: executor_ok_def)

text \<open>
  What the client needs to be a vault: a checked configuration of which at least
  \<open>recover_threshold\<close> and \<open>register_threshold\<close> realms run the whitepaper's machine, the others
  failing in any way, and PINs in use that are told apart by their hashes.
\<close>

locale vault_client =
  fixes E :: "('w, 'u, 's::field, 'p::ab_group_add, 'ed) env" and cl :: "('w, 'u) client"
    and c :: "'u configuration" and H :: "'u realm set" and P :: "(pin \<times> user_info) set"
    and I :: "nat \<Rightarrow> ('u realm \<Rightarrow> 's record_state) \<Rightarrow> 'w client_state \<Rightarrow> bool"
  assumes executor: "executor_ok E" and curve: "curve_laws (env_curve E)" and prims: "prim_laws (env_prims E)"
    and checked: "checked_configuration_from c = Some (client_configuration cl)"
    and no_previous: "client_previous_configurations cl = []"
    and indices: "inj_on (scalar_from (env_curve E)) {1..of_nat (length (crealms (client_configuration cl)))}"
    and nonzero: "\<And>w. fst (env_random_scalar E w) \<noteq> 0"
    and hosted: "hosts (client_env E cl) (set (crealms (client_configuration cl))) H I"
    and recoverable: "unat (recover_threshold (the_configuration (client_configuration cl))) \<le>
      length (filter (\<lambda>r. r \<in> H) (crealms (client_configuration cl)))"
    and some_register: "0 < register_threshold (the_configuration (client_configuration cl))"
    and registrable: "unat (register_threshold (the_configuration (client_configuration cl))) \<le>
      length (filter (\<lambda>r. r \<in> H) (crealms (client_configuration cl)))"
    and separated: "separates (client_env E cl) (config_pin_hashing_mode (the_configuration (client_configuration cl))) P"
begin

lemma config_ok: "checked_ok (client_configuration cl)"
  by (rule checked_configuration_from_ok [OF checked])

lemma client_laws:
  "executor_ok (client_env E cl)" "curve_laws (env_curve (client_env E cl))" "prim_laws (env_prims (client_env E cl))"
  "inj_on (scalar_from (env_curve (client_env E cl))) {1..of_nat (length (crealms (client_configuration cl)))}"
  "fst (env_random_scalar (client_env E cl) w) \<noteq> 0"
  using executor curve prims indices nonzero by simp_all

text \<open>Registering does not depend on what the realms hold.\<close>

lemma register_step:
  assumes ok: "operation_ok (client_configuration cl) H P (Registering p s i policy)" and inv: "I (n + 2 * length (crealms (client_configuration cl))) S st"
  shows "\<exists>S' st'. client_register E cl p s i policy st = Some (Ok (), st') \<and> I n S' st' \<and>
    vault_in (client_env E cl) (client_configuration cl) H P (snd (vault_step (Registering p s i policy) v)) S'"
proof -
  let ?F = "client_env E cl" and ?cfg = "client_configuration cl"
  have t: "0 < unat (register_threshold (the_configuration ?cfg))"
    using some_register by (simp add: word_less_nat_alt)
  obtain b where P: "(p, i) \<in> P" and b: "user_secret_from b = Some s"
    using ok by auto
  have hash: "\<exists>a sd. pin_hash (env_prims ?F) p (config_pin_hashing_mode (the_configuration ?cfg)) version i =
      Some (Some (a, sd))" for version
    using separates_hash [OF separated P] .
  from registers [OF client_laws(1,3) config_ok hosted order_refl t registrable b hash inv]
  obtain st0 requests st1 S' st' where run: "perform_register ?F ?cfg p s i policy st = Some (Ok (), st')"
    and prepared: "prepare_registration ?F ?cfg p s i policy st0 = Some (Ok requests, st1)"
    and S': "I n S' st'" "recovering H requests 0 {} {} S'"
    by blast
  with vault_in_registered [OF config_ok client_laws(3) b prepared S'(2) P] run S'(1) show ?thesis
    unfolding client_register_def by blast
qed

lemma step:
  assumes ok: "operation_ok (client_configuration cl) H P op" and inv: "I (n + 3 * length (crealms (client_configuration cl))) S st"
    and v: "vault_in (client_env E cl) (client_configuration cl) H P v S"
  shows "\<exists>S' st'. client_step E cl op st = Some (fst (vault_step op v), st') \<and> I n S' st' \<and>
    vault_in (client_env E cl) (client_configuration cl) H P (snd (vault_step op v)) S'"
proof (cases op)
  case (Registering p s i policy)
  have "I (n + 2 * length (crealms (client_configuration cl))) S st"
    by (rule hosts_less [where I = I, OF hosted _ inv]) simp
  with Registering register_step [OF ok [unfolded Registering], of n S st v] show ?thesis
    by fastforce
next
  case (Recovering p i)
  then have P: "(p, i) \<in> P"
    using ok by simp
  from recovers [OF client_laws(1-3) config_ok client_laws(4,5) hosted order_refl recoverable separated v inv P]
  show ?thesis
    using no_previous by (fastforce simp: Recovering client_recover_def perform_recover_def)
next
  case Deleting
  then have "set (crealms (client_configuration cl)) \<subseteq> H"
    using ok by simp
  moreover have "I (n + length (crealms (client_configuration cl))) S st"
    by (rule hosts_less [where I = I, OF hosted _ inv]) simp
  ultimately show ?thesis
    using deletes [OF client_laws(1) hosted order_refl]
    by (fastforce simp: Deleting client_delete_def vault_in_def)
qed

lemma run:
  assumes "\<And>op. op \<in> set ops \<Longrightarrow> operation_ok (client_configuration cl) H P op"
    and "I (n + 3 * length (crealms (client_configuration cl)) * length ops) S st" and "vault_in (client_env E cl) (client_configuration cl) H P v S"
  shows "\<exists>S' st'. client_run E cl ops st = Some (fst (vault_run ops v), st') \<and> I n S' st' \<and>
    vault_in (client_env E cl) (client_configuration cl) H P (snd (vault_run ops v)) S'"
  using assms
proof (induction ops arbitrary: v S st)
  case (Cons op ops)
  have "operation_ok (client_configuration cl) H P op"
    using Cons.prems(1) by simp
  moreover have "I (n + 3 * length (crealms (client_configuration cl)) * length ops +
      3 * length (crealms (client_configuration cl))) S st"
    using Cons.prems(2) by (simp add: algebra_simps)
  ultimately obtain S' st' where
    op: "client_step E cl op st = Some (fst (vault_step op v), st')"
    and S': "I (n + 3 * length (crealms (client_configuration cl)) * length ops) S' st'"
      "vault_in (client_env E cl) (client_configuration cl) H P (snd (vault_step op v)) S'"
    using step Cons.prems(3) by blast
  have "\<And>op. op \<in> set ops \<Longrightarrow> operation_ok (client_configuration cl) H P op"
    using Cons.prems(1) by simp
  from Cons.IH [OF this S'] op show ?case
    by (auto simp: Let_def split_beta)
qed auto

end

text \<open>C3. The client and its realms are a guess-limited vault. Let a client have no previous configurations and
  a configuration with a register threshold of at least 1, let at least \<open>recover_threshold\<close> and
  \<open>register_threshold\<close> of its realms run the whitepaper's machine, the others
  failing in any way, and let the PINs in use be told apart by their hashes. (The field tells the indices
  of the shares apart, and random scalars are not zero.) Then any sequence of registrations, recoveries and deletions has the outcomes of the vault, in particular: the
  secret comes back for its PIN and only for it, each wrong PIN uses a guess and reports how many
  are left, a right one gives them back, and after the last nothing opens it but a new
  registration. (Deletions are only among the operations when every realm runs the machine. An
  operation makes at most three requests to each realm.)\<close>

theorem client_refines_vault:
  fixes E :: "('w, 'u, 's::field, 'p::ab_group_add, 'ed) env"
  assumes "executor_ok E" and "curve_laws (env_curve E)" and "prim_laws (env_prims E)"
    and "checked_configuration_from c = Some (client_configuration cl)"
    and "client_previous_configurations cl = []"
    and "inj_on (scalar_from (env_curve E)) {1..of_nat (length (crealms (client_configuration cl)))}"
    and "\<And>w. fst (env_random_scalar E w) \<noteq> 0"
    and "hosts (client_env E cl) (set (crealms (client_configuration cl))) H I"
    and "unat (recover_threshold (the_configuration (client_configuration cl))) \<le>
      length (filter (\<lambda>r. r \<in> H) (crealms (client_configuration cl)))"
    and "0 < register_threshold (the_configuration (client_configuration cl))"
    and "unat (register_threshold (the_configuration (client_configuration cl))) \<le>
      length (filter (\<lambda>r. r \<in> H) (crealms (client_configuration cl)))"
    and "separates (client_env E cl) (config_pin_hashing_mode (the_configuration (client_configuration cl))) P"
    and "\<And>op. op \<in> set ops \<Longrightarrow> operation_ok (client_configuration cl) H P op"
    and "I (n + 3 * length (crealms (client_configuration cl)) * length ops) S st" and "vault_in (client_env E cl) (client_configuration cl) H P v S"
  shows "\<exists>S' st'. client_run E cl ops st = Some (fst (vault_run ops v), st') \<and> I n S' st' \<and>
    vault_in (client_env E cl) (client_configuration cl) H P (snd (vault_run ops v)) S'"
  by (rule vault_client.run [OF vault_client.intro [OF assms(1-12)] assms(13-)])

end
