(* ===== verification/Hardware_Vault.thy ===== *)
theory Hardware_Vault
  imports Hardware_Realm Vault
begin

text \<open>
  The client over hardware realms alone: enclaves that run the whitepaper's machine behind Noise and
  lose sessions when they like between the phases of an operation. It is the vault of \<open>Vault\<close> as well, from the empty sessions with
  which the client is built.
\<close>

text \<open>
  The realms of \<open>R\<close> are enclaves with the static keys \<open>static\<close>: what is sent to one of them reaches its
  enclave and changes no other (\<open>delivers\<close>), and while the client uses the world otherwise they may lose sessions only.
\<close>

definition enclaves_behind ::
  "('w, 'u, 's::field, 'p::ab_group_add, 'ed) env \<Rightarrow> 'u realm set \<Rightarrow> ('u realm \<Rightarrow> 32 barray) \<Rightarrow>
     (('u realm \<Rightarrow> 's enclave) \<Rightarrow> 'w \<Rightarrow> bool) \<Rightarrow> bool" where
  "enclaves_behind E R static AA \<longleftrightarrow>
     realm_codecs E \<and>
     (\<forall>realm \<in> R. realm_public_key realm = Some (bytes_of (x25519_public (env_prims E) (static realm))) \<and>
        (\<forall>F. delivers E realm (static realm) (\<lambda>e w. AA (F(realm := e)) w))) \<and>
     (\<forall>F w. AA F w \<longrightarrow>
        (\<forall>w' \<in> {snd (env_executor E m w) | m. True} \<union>
            {snd (env_random_scalar E w), snd (env_random16 E w), snd (env_random32 E w)}.
           \<exists>F'. (\<forall>realm. forgotten (F realm) (F' realm)) \<and> AA F' w'))"

lemma enclaves_host:
  assumes "prim_laws (env_prims E)" and "enclaves_behind E R static AA" and "inj_on realm_id R"
  shows "hosts E R R (enclaves_hold (env_prims E) R AA)"
proof (rule hardware_hosts [where static = static])
  show "realm_codecs E"
    using assms(2) by (simp add: enclaves_behind_def)
  show "delivers E realm (static realm) (\<lambda>e w. AA (F(realm := e)) w)" if "realm \<in> R" for realm F
    using assms(2) that unfolding enclaves_behind_def by blast
  show "realm_public_key realm = Some (bytes_of (x25519_public (env_prims E) (static realm)))" if "realm \<in> R" for realm
    using assms(2) that unfolding enclaves_behind_def by blast
  show "\<exists>F'. (\<forall>realm. forgotten (F realm) (F' realm)) \<and> AA F' w'"
    if "AA F w" "w' \<in> {snd (env_executor E m w) | m. True} \<union>
        {snd (env_random_scalar E w), snd (env_random16 E w), snd (env_random32 E w)}" for F w w'
    using assms(2) that unfolding enclaves_behind_def by blast
qed (rule assms)+

text \<open>The client's first sessions.\<close>

lemma enclaves_hold_initial:
  assumes "AA F w" and "n < 2 ^ 63"
  shows "enclaves_hold H (set (crealms configuration)) AA n (enclave_record \<circ> F)
    \<lparr>world = w, sessions = initial_sessions configuration\<rparr>"
  using assms unfolding enclaves_hold_def
  by (intro conjI exI [of _ F]) (auto simp: initial_sessions_iff session_matches_def)

lemma vault_in_cong:
  assumes "\<And>realm. realm \<in> H \<Longrightarrow> S realm = S' realm" and "vault_in E configuration H P v S"
  shows "vault_in E configuration H P v S'"
proof -
  have "recovering H requests k {} {} S'" if "recovering H requests k {} {} S" for requests k
    using that assms(1) unfolding recovering_def by auto
  with assms show ?thesis
    by (fastforce simp: vault_in_def honest_def split: vault.splits)
qed

section \<open>Property\<close>

text \<open>C4. Hardware realms keep the promise of the vault. Let a client have no previous configurations and a
  configuration with a register threshold of at least 1, let all its realms be enclaves that
  run the whitepaper's machine and are reached over Noise only, losing any of their sessions between
  the phases of the client's operations, and let the PINs in use be told apart by their hashes. (The
  field tells the indices of the shares apart, and random scalars are not zero.) Then a client that starts with no session puts any sequence of registrations, recoveries and
  deletions (short enough for the nonces of a session, three requests to each realm an operation)
  to them with the outcomes of the vault, and afterwards the enclaves hold what the vault holds.\<close>

theorem hardware_realms_are_vault:
  fixes E :: "('w, 'u, 's::field, 'p::ab_group_add, 'ed) env" and cl :: "('w, 'u) client"
  assumes "executor_ok E" and "curve_laws (env_curve E)" and "prim_laws (env_prims E)"
    and "checked_configuration_from c = Some (client_configuration cl)"
    and "client_previous_configurations cl = []"
    and "inj_on (scalar_from (env_curve E)) {1..of_nat (length (crealms (client_configuration cl)))}"
    and "\<And>w. fst (env_random_scalar E w) \<noteq> 0"
    and "enclaves_behind (client_env E cl) (set (crealms (client_configuration cl))) static AA"
    and "0 < register_threshold (the_configuration (client_configuration cl))"
    and "separates (client_env E cl) (config_pin_hashing_mode (the_configuration (client_configuration cl))) P"
    and "\<And>op. op \<in> set ops \<Longrightarrow> operation_ok (client_configuration cl) (set (crealms (client_configuration cl))) P op"
    and "3 * length (crealms (client_configuration cl)) * length ops < 2 ^ 63"
    and "AA F w" and "vault_in (client_env E cl) (client_configuration cl) (set (crealms (client_configuration cl))) P v (enclave_record \<circ> F)"
  shows "\<exists>F' st'. client_run E cl ops \<lparr>world = w, sessions = initial_sessions (client_configuration cl)\<rparr> =
      Some (fst (vault_run ops v), st') \<and> AA F' (world st') \<and>
    vault_in (client_env E cl) (client_configuration cl) (set (crealms (client_configuration cl))) P (snd (vault_run ops v)) (enclave_record \<circ> F')"
proof -
  let ?cfg = "client_configuration cl" and ?E = "client_env E cl" and ?R = "set (crealms (client_configuration cl))"
  let ?I = "enclaves_hold (env_prims ?E) ?R AA"
  have ok: "checked_ok ?cfg"
    by (rule checked_configuration_from_ok [OF assms(4)])
  have "inj_on realm_id ?R"
    using ok by (auto simp: checked_ok_def configuration_ok_def distinct_map)
  then have hosts: "hosts ?E ?R ?R ?I"
    using enclaves_host [OF _ assms(8)] assms(3) by simp
  have thresholds: "unat (recover_threshold (the_configuration ?cfg)) \<le> length (filter (\<lambda>r. r \<in> ?R) (crealms ?cfg))"
      "unat (register_threshold (the_configuration ?cfg)) \<le> length (filter (\<lambda>r. r \<in> ?R) (crealms ?cfg))"
    using ok by (auto simp: checked_ok_def configuration_ok_def)
  have vault: "vault_client E cl c ?R P ?I"
    by (rule vault_client.intro [OF assms(1-7) hosts thresholds(1) assms(9) thresholds(2) assms(10)])
  have "?I (0 + 3 * length (crealms ?cfg) * length ops) (enclave_record \<circ> F) \<lparr>world = w, sessions = initial_sessions ?cfg\<rparr>"
    using enclaves_hold_initial [where AA = AA, OF assms(13)] assms(12) by simp
  from vault_client.run [OF vault assms(11) this assms(14)] obtain S' st' where
    run: "client_run E cl ops \<lparr>world = w, sessions = initial_sessions ?cfg\<rparr> = Some (fst (vault_run ops v), st')"
    and S': "?I 0 S' st'" "vault_in ?E ?cfg ?R P (snd (vault_run ops v)) S'"
    by blast
  from S'(1) obtain F' where F': "AA F' (world st')" "\<And>realm. realm \<in> ?R \<Longrightarrow> S' realm = (enclave_record \<circ> F') realm"
    unfolding enclaves_hold_def by auto
  from vault_in_cong [OF F'(2) S'(2)] run F'(1) show ?thesis
    by blast
qed

end
