(* ===== verification/Reqwest_Client.thy ===== *)
theory Reqwest_Client
  imports Client
begin

text \<open>
  The construction of the reqwest transport (\<open>ClientOptions\<close> and \<open>Client::new\<close> of
  rust/networking/src/reqwest.rs) and the methods of the client builder that install it
  (rust/sdk/src/lib.rs). reqwest itself is a parameter: it builds a client from its settings,
  which may fail, and executes requests with it. Durations are milliseconds.
\<close>

section \<open>Options and settings\<close>

record 'c client_options =
  additional_root_certs :: "'c list"
  client_timeout :: duration
  default_headers :: headers

text \<open>\<open>env!("CARGO_PKG_NAME")\<close> and \<open>env!("CARGO_PKG_VERSION")\<close>, from the Cargo files.\<close>

definition NETWORKING_PKG_NAME :: string where
  "NETWORKING_PKG_NAME = ''juicebox_networking''"

definition PKG_VERSION :: string where
  "PKG_VERSION = ''0.3.6''"

definition client_options_default :: "'c client_options" where
  "client_options_default =
     \<lparr>additional_root_certs = [], client_timeout = 30 * 1000,
      default_headers = [(''User-Agent'', NETWORKING_PKG_NAME @ ''/'' @ PKG_VERSION)]\<rparr>"

text \<open>What the calls on \<open>reqwest::Client::builder()\<close> set.\<close>

record 'c reqwest_settings =
  settings_timeout :: duration
  settings_tls_info :: bool
  settings_rustls :: bool
  settings_default_headers :: headers
  settings_root_certificates :: "'c list"

definition reqwest_settings_for :: "header_lib \<Rightarrow> 'c client_options \<Rightarrow> 'c reqwest_settings" where
  "reqwest_settings_for L options =
     \<lparr>settings_timeout = client_timeout options, settings_tls_info = True, settings_rustls = True,
      settings_default_headers = append_headers L [] (default_headers options),
      settings_root_certificates = fold (\<lambda>c b. b @ [c]) (additional_root_certs options) []\<rparr>"

record ('c, 'h, 'w, 'e) reqwest_lib =
  reqwest_build :: "'c reqwest_settings \<Rightarrow> 'e + 'h"
  reqwest_execute :: "'h \<Rightarrow> built_request \<Rightarrow> 'w \<Rightarrow> ('e + 'e reqwest_response) \<times> 'w"

definition reqwest_client_new ::
  "header_lib \<Rightarrow> ('c, 'h, 'w, 'e) reqwest_lib \<Rightarrow> 'c client_options \<Rightarrow> 'h panics" where
  "reqwest_client_new L R options = unwrap (reqwest_build R (reqwest_settings_for L options))"

section \<open>The methods of the builder\<close>

text \<open>The headers that go into the options before the client is made; \<open>VERSION\<close> is that of the
  SDK crate, which shares the version of the workspace.\<close>

definition sdk_options :: "'c client_options \<Rightarrow> 'c client_options" where
  "sdk_options options =
     options\<lparr>default_headers := reqwest_default_headers PKG_VERSION (default_headers options)\<rparr>"

definition reqwest_with_options ::
  "header_lib \<Rightarrow> ('c, 'h, 'w, 'e) reqwest_lib \<Rightarrow> 'c client_options \<Rightarrow>
     ('w, 'u) client_builder \<Rightarrow> ('w, 'u) client_builder panics" where
  "reqwest_with_options L R options self = do {
     http \<leftarrow> reqwest_client_new L R (sdk_options options);
     Some (with_http (reqwest_send L (reqwest_execute R http)) self)
   }"

definition reqwest ::
  "header_lib \<Rightarrow> ('c, 'h, 'w, 'e) reqwest_lib \<Rightarrow>
     ('w, 'u) client_builder \<Rightarrow> ('w, 'u) client_builder panics" where
  "reqwest L R self = reqwest_with_options L R client_options_default self"

text \<open>\<open>tokio_sleep\<close> is \<open>tokio::time::sleep\<close>.\<close>

definition tokio_sleeper ::
  "(nat \<Rightarrow> 'w \<Rightarrow> 'w) \<Rightarrow> ('w, 'u) client_builder \<Rightarrow> ('w, 'u) client_builder" where
  "tokio_sleeper tokio_sleep self = with_sleeper tokio_sleep self"

section \<open>Lemmas\<close>

lemma settings_root_certificates [simp]:
  "settings_root_certificates (reqwest_settings_for L options) = additional_root_certs options"
proof -
  have "fold (\<lambda>c b. b @ [c]) cs b = b @ cs" for cs b :: "'a list"
    by (induction cs arbitrary: b) simp_all
  then show ?thesis
    by (simp add: reqwest_settings_for_def)
qed

text \<open>The headers of the caller take precedence over those of the SDK.\<close>

lemma reqwest_default_headers_lookup:
  assumes "distinct (map fst options)"
  shows "map_of (reqwest_default_headers version options) n =
     (case map_of options n of
        Some v \<Rightarrow> Some v
      | None \<Rightarrow>
          if n = ''X-Juicebox-Version'' then Some version
          else if n = ''User-Agent'' then Some (''JuiceboxSdk-Rust/'' @ version)
          else None)"
proof -
  have "map_of (fold (\<lambda>(k, v). AList.update k v) options m) n =
      (case map_of options n of Some v \<Rightarrow> Some v | None \<Rightarrow> map_of m n)" for m
    using assms
  proof (induction options arbitrary: m)
    case (Cons kv options)
    obtain k v where kv: "kv = (k, v)"
      by fastforce
    show ?case
      using Cons.prems Cons.IH [of "AList.update k v m"] map_of_eq_None_iff [of options k]
      by (simp add: kv update_conv' split: option.split)
  qed simp
  then show ?thesis
    by (auto simp: reqwest_default_headers_def JUICEBOX_VERSION_HEADER_def split: option.split)
qed

text \<open>So a client made by \<open>reqwest()\<close> never names the SDK as its user agent: the default options
  already carry the name of the networking crate.\<close>

lemma reqwest_user_agent:
  "map_of (default_headers (sdk_options client_options_default)) ''User-Agent'' =
     Some ''juicebox_networking/0.3.6''"
  "map_of (default_headers (sdk_options client_options_default)) ''X-Juicebox-Version'' = Some ''0.3.6''"
  by (simp_all add: sdk_options_def client_options_default_def reqwest_default_headers_lookup
      NETWORKING_PKG_NAME_def PKG_VERSION_def)

text \<open>Every header of the options whose name and value parse reaches reqwest, in order, and no
  other does.\<close>

lemma settings_headers_faithful:
  assumes "\<And>n v. (n, v) \<in> set (default_headers options) \<Longrightarrow>
      header_name L n = Some n \<and> header_value L v = Some v"
  shows "settings_default_headers (reqwest_settings_for L options) = default_headers options"
proof -
  have "append_headers L acc hs = acc @ hs"
    if "\<And>n v. (n, v) \<in> set hs \<Longrightarrow> header_name L n = Some n \<and> header_value L v = Some v"
    for acc hs
    using that
  proof (induction hs arbitrary: acc)
    case (Cons kv hs)
    obtain k v where kv: "kv = (k, v)"
      by fastforce
    have "append_headers L (acc @ [(k, v)]) hs = acc @ kv # hs"
      by (subst Cons.IH) (use Cons.prems in \<open>auto simp: kv\<close>)
    then show ?case
      using Cons.prems [of k v] by (simp add: kv)
  qed simp
  then show ?thesis
    using assms by (simp add: reqwest_settings_for_def)
qed

text \<open>A builder with a configuration and a token manager builds a client on reqwest and tokio
  whenever reqwest accepts the settings.\<close>

lemma reqwest_client_built:
  assumes "builder_configuration b = Some c" "builder_auth_token_manager b = Some m"
    and "reqwest_build R (reqwest_settings_for L (sdk_options options)) = Ok h"
  shows "\<exists>cl s. Option.bind (reqwest_with_options L R options b)
        (\<lambda>b. build_client (tokio_sleeper sleep b)) = Some (cl, s) \<and>
      client_http cl = reqwest_send L (reqwest_execute R h) \<and> client_sleeper cl = sleep"
  using assms
  by (simp add: reqwest_with_options_def reqwest_client_new_def with_http_def tokio_sleeper_def
      with_sleeper_def build_client_def)

end
