(* ===== verification/Realm_Auth.thy ===== *)
theory Realm_Auth
  imports Realm_Types
begin

text \<open>
  The crate \<open>juicebox_realm_auth\<close> (rust/realm/auth/src): what a token says, how one is made
  (creation.rs) and how a realm checks one (validation.rs). Strings are lists of characters
  whose codes are the code points. The crate \<open>jwt_simple\<close> is a parameter.
\<close>

section \<open>Keys, claims and scopes (lib.rs)\<close>

datatype auth_key_version = AuthKeyVersion (key_version: u64)

datatype auth_key_algorithm = RS256 | HS256 | EdDSA

record auth_key =
  key_data :: secret_bytes_vec
  key_algorithm :: auth_key_algorithm

definition expose_auth_key :: "auth_key \<Rightarrow> bytes" where
  "expose_auth_key self = vec_secret (key_data self)"

definition auth_key_from_vec :: "bytes \<Rightarrow> auth_key" where
  "auth_key_from_vec value = \<lparr>key_data = SecretBytesVec value, key_algorithm = HS256\<rparr>"

definition auth_key_from_secret :: "secret_bytes_vec \<Rightarrow> auth_key" where
  "auth_key_from_secret value = \<lparr>key_data = value, key_algorithm = HS256\<rparr>"

datatype scope = User | Audit

definition scope_default :: scope where
  "scope_default = User"

fun scope_as_str :: "scope \<Rightarrow> string" where
  "scope_as_str User = ''user''"
| "scope_as_str Audit = ''audit''"

definition scope_strings :: "string list" where
  "scope_strings = [scope_as_str User, scope_as_str Audit]"

text \<open>\<open>str::trim\<close> removes the characters with the property \<open>White_Space\<close>.\<close>

definition is_whitespace :: "char \<Rightarrow> bool" where
  "is_whitespace c \<longleftrightarrow> (let n = of_char c :: nat in 9 \<le> n \<and> n \<le> 13 \<or> n = 32 \<or> n = 133 \<or> n = 160)"

definition trim :: "string \<Rightarrow> string" where
  "trim s = rev (dropWhile is_whitespace (rev (dropWhile is_whitespace s)))"

datatype scope_parse_error = ScopeParseError

definition scope_from_str :: "string \<Rightarrow> scope_parse_error + scope" where
  "scope_from_str s =
     (let t = trim s in
      if t = ''audit'' then Ok Audit else if t = ''user'' then Ok User else Err ScopeParseError)"

record token_claims =
  claim_issuer :: string
  claim_subject :: string
  claim_audience :: realm_id
  claim_scope :: "scope option"

section \<open>The crate jwt_simple\<close>

text \<open>
  Times are seconds. \<open>jwt_new_claims\<close> makes the claims of a token issued now for a number of
  minutes; private keys are parsed from DER (for HMAC, taken as they are), get a key id and
  sign; public keys are parsed and verify under options (those not listed keep their
  defaults); the key id can be read without verifying.
\<close>

datatype audiences = AsSet "string list" | AsString string

record jwt_claims =
  issued_at :: "u64 option"
  expires_at :: "u64 option"
  invalid_before :: "u64 option"
  jwt_audiences :: "audiences option"
  jwt_issuer :: "string option"
  jwt_subject :: "string option"
  custom_scope :: "string option"

record verification_options =
  allowed_audiences :: "string list option"
  max_token_length :: "nat option"
  time_tolerance :: "nat option"

record ('k, 'v) jwt_lib =
  jwt_new_claims :: "string option \<Rightarrow> nat \<Rightarrow> u64 \<Rightarrow> jwt_claims"
  with_audience :: "string \<Rightarrow> jwt_claims \<Rightarrow> jwt_claims"
  with_issuer :: "string \<Rightarrow> jwt_claims \<Rightarrow> jwt_claims"
  with_subject :: "string \<Rightarrow> jwt_claims \<Rightarrow> jwt_claims"
  private_from_der :: "auth_key_algorithm \<Rightarrow> bytes \<Rightarrow> 'k option"
  hs256_from_bytes :: "bytes \<Rightarrow> 'k"
  with_key_id :: "string \<Rightarrow> 'k \<Rightarrow> 'k"
  jwt_sign :: "'k \<Rightarrow> jwt_claims \<Rightarrow> string option"
  public_from_der :: "auth_key_algorithm \<Rightarrow> bytes \<Rightarrow> 'v option"
  hs256_verifier :: "bytes \<Rightarrow> 'v"
  verify_token :: "'v \<Rightarrow> string \<Rightarrow> verification_options \<Rightarrow> u64 \<Rightarrow> string + jwt_claims"
  decode_metadata :: "string \<Rightarrow> string + string option"

section \<open>Creating tokens (creation.rs)\<close>

text \<open>The regular expression \<open>^(test-)?[a-zA-Z0-9]+$\<close>.\<close>

definition alphanumeric :: "char \<Rightarrow> bool" where
  "alphanumeric c \<longleftrightarrow>
     (let n = of_char c :: nat in 48 \<le> n \<and> n \<le> 57 \<or> 65 \<le> n \<and> n \<le> 90 \<or> 97 \<le> n \<and> n \<le> 122)"

definition alphanumerics :: "string \<Rightarrow> bool" where
  "alphanumerics s \<longleftrightarrow> s \<noteq> [] \<and> list_all alphanumeric s"

definition issuer_regex :: "string \<Rightarrow> bool" where
  "issuer_regex s \<longleftrightarrow>
     alphanumerics s \<or> take 5 s = ''test-'' \<and> alphanumerics (drop 5 s)"

text \<open>\<open>Display\<close> of unsigned integers.\<close>

definition decimal_digit :: "nat \<Rightarrow> char" where
  "decimal_digit n = char_of (48 + n)"

fun show_nat :: "nat \<Rightarrow> string" where
  "show_nat n = (if n < 10 then [decimal_digit n] else show_nat (n div 10) @ [decimal_digit (n mod 10)])"

definition key_id_of :: "string \<Rightarrow> auth_key_version \<Rightarrow> string" where
  "key_id_of issuer v = issuer @ '':'' @ show_nat (unat (key_version v))"

definition signing_key :: "('k, 'v) jwt_lib \<Rightarrow> auth_key \<Rightarrow> 'k panics" where
  "signing_key J key =
     (case key_algorithm key of
        EdDSA \<Rightarrow> private_from_der J EdDSA (expose_auth_key key)
      | RS256 \<Rightarrow> private_from_der J RS256 (expose_auth_key key)
      | HS256 \<Rightarrow> Some (hs256_from_bytes J (expose_auth_key key)))"

definition create_token ::
  "('k, 'v) jwt_lib \<Rightarrow> hex_codec \<Rightarrow> token_claims \<Rightarrow> auth_key \<Rightarrow> auth_key_version \<Rightarrow> u64 \<Rightarrow>
     auth_token panics" where
  "create_token J X claims key version now = do {
     assert_that (issuer_regex (claim_issuer claims));
     let jwt_claims = jwt_new_claims J (map_option scope_as_str (claim_scope claims)) 10 now;
     let jwt_claims = with_audience J (hex_encode X (bytes_of (id_bytes (claim_audience claims)))) jwt_claims;
     let jwt_claims = with_issuer J (claim_issuer claims) jwt_claims;
     let jwt_claims = with_subject J (claim_subject claims) jwt_claims;
     let key_id = key_id_of (claim_issuer claims) version;
     key_pair \<leftarrow> signing_key J key;
     token \<leftarrow> jwt_sign J (with_key_id J key_id key_pair) jwt_claims;
     Some (AuthToken (SecretString token))
   }"

section \<open>Validating tokens (validation.rs)\<close>

datatype validation_error =
    Jwt string
  | BadKeyId
  | BadAudience
  | BadIssuer
  | BadSubject
  | BadScope
  | LifetimeTooLong

fun debug_validation_error :: "validation_error \<Rightarrow> string" where
  "debug_validation_error (Jwt err) = ''Jwt('' @ err @ '')''"
| "debug_validation_error BadKeyId = ''BadKeyId''"
| "debug_validation_error BadAudience = ''BadAudience''"
| "debug_validation_error BadIssuer = ''BadIssuer''"
| "debug_validation_error BadSubject = ''BadSubject''"
| "debug_validation_error BadScope = ''BadScope''"
| "debug_validation_error LifetimeTooLong = ''LifetimeTooLong''"

datatype require = RequireScope scope | ScopeOrMissing scope | AnyScopeOrMissing

record validator =
  validator_audience :: string
  max_lifetime_seconds :: "u64 option"
  require_scope :: require

definition MAX_LIFETIME_SECONDS :: u64 where
  "MAX_LIFETIME_SECONDS = 60 * 60 * 24"

definition validator_new :: "hex_codec \<Rightarrow> realm_id \<Rightarrow> require \<Rightarrow> validator" where
  "validator_new X realm_id required =
     \<lparr>validator_audience = hex_encode X (bytes_of (id_bytes realm_id)),
      max_lifetime_seconds = Some MAX_LIFETIME_SECONDS, require_scope = required\<rparr>"

text \<open>\<open>str::split_once\<close> and \<open>str::parse::<u64>\<close>, which accepts a leading plus sign.\<close>

fun split_once :: "char \<Rightarrow> string \<Rightarrow> (string \<times> string) option" where
  "split_once c [] = None"
| "split_once c (x # xs) =
     (if x = c then Some ([], xs) else map_option (\<lambda>(a, b). (x # a, b)) (split_once c xs))"

definition digit_value :: "char \<Rightarrow> nat option" where
  "digit_value c = (let n = of_char c :: nat in if 48 \<le> n \<and> n \<le> 57 then Some (n - 48) else None)"

fun parse_digits :: "nat \<Rightarrow> string \<Rightarrow> nat option" where
  "parse_digits acc [] = Some acc"
| "parse_digits acc (c # cs) = do {
     d \<leftarrow> digit_value c;
     (if acc * 10 + d < 2 ^ 64 then parse_digits (acc * 10 + d) cs else None)
   }"

definition parse_u64 :: "string \<Rightarrow> u64 option" where
  "parse_u64 s =
     (let digits = (if take 1 s = ''+'' then drop 1 s else s) in
      if digits = [] then None else map_option of_nat (parse_digits 0 digits))"

definition parse_key_id :: "string \<Rightarrow> (string \<times> auth_key_version) option" where
  "parse_key_id key_id = do {
     (tenant, version) \<leftarrow> split_once (CHR '':'') key_id;
     version \<leftarrow> parse_u64 version;
     Some (tenant, AuthKeyVersion version)
   }"

definition token_key_id ::
  "('k, 'v) jwt_lib \<Rightarrow> auth_token \<Rightarrow> validation_error + string \<times> auth_key_version" where
  "token_key_id J token =
     and_then (map_err Jwt (decode_metadata J (expose_token token))) (\<lambda>header.
     ok_or BadKeyId (Option.bind header parse_key_id))"

definition verifying_key_for :: "('k, 'v) jwt_lib \<Rightarrow> auth_key \<Rightarrow> 'v panics" where
  "verifying_key_for J key =
     (case key_algorithm key of
        EdDSA \<Rightarrow> public_from_der J EdDSA (expose_auth_key key)
      | RS256 \<Rightarrow> public_from_der J RS256 (expose_auth_key key)
      | HS256 \<Rightarrow> Some (hs256_verifier J (expose_auth_key key)))"

definition check_lifetime :: "build \<Rightarrow> u64 option \<Rightarrow> jwt_claims \<Rightarrow> (validation_error + unit) panics" where
  "check_lifetime build max_lifetime claims =
     (case max_lifetime of
        None \<Rightarrow> Some (Ok ())
      | Some maximum \<Rightarrow>
          (case (invalid_before claims, expires_at claims) of
             (Some nbf, Some expiry) \<Rightarrow>
               (case checked_minus build expiry nbf of
                  None \<Rightarrow> None
                | Some lifetime \<Rightarrow> Some (if lifetime > maximum then Err LifetimeTooLong else Ok ()))
           | _ \<Rightarrow> Some (Err LifetimeTooLong)))"

fun check_scope :: "scope option \<Rightarrow> require \<Rightarrow> validation_error + unit" where
  "check_scope None (RequireScope _) = Err BadScope"
| "check_scope None (ScopeOrMissing _) = Ok ()"
| "check_scope _ AnyScopeOrMissing = Ok ()"
| "check_scope (Some actual) (RequireScope req) = (if actual \<noteq> req then Err BadScope else Ok ())"
| "check_scope (Some actual) (ScopeOrMissing req) = (if actual \<noteq> req then Err BadScope else Ok ())"

definition parse_scope :: "string option \<Rightarrow> validation_error + scope option" where
  "parse_scope s =
     (case s of
        Some scopes \<Rightarrow> and_then (map_err (\<lambda>_. BadScope) (scope_from_str scopes)) (\<lambda>x. Ok (Some x))
      | None \<Rightarrow> Ok None)"

definition parse_audience :: "hex_codec \<Rightarrow> audiences option \<Rightarrow> validation_error + realm_id" where
  "parse_audience X a =
     (case a of
        Some (AsString audience) \<Rightarrow>
          and_then (ok_or BadAudience (hex_decode X audience)) (\<lambda>v.
          and_then (ok_or BadAudience (array_try_from v)) (\<lambda>i. Ok (RealmId i)))
      | _ \<Rightarrow> Err BadAudience)"

text \<open>The checks after the lifetime, in the order of the code.\<close>

definition check_claims ::
  "('k, 'v) jwt_lib \<Rightarrow> hex_codec \<Rightarrow> validator \<Rightarrow> auth_token \<Rightarrow> jwt_claims \<Rightarrow>
     validation_error + token_claims" where
  "check_claims J X self token claims =
     and_then (ok_or BadIssuer (jwt_issuer claims)) (\<lambda>issuer.
     and_then (ok_or BadSubject (jwt_subject claims)) (\<lambda>subject.
     and_then (token_key_id J token) (\<lambda>(tenant, _).
     if tenant \<noteq> issuer then Err BadKeyId
     else and_then (parse_audience X (jwt_audiences claims)) (\<lambda>audience.
     and_then (parse_scope (custom_scope claims)) (\<lambda>scope.
     and_then (check_scope scope (require_scope self)) (\<lambda>_.
     Ok \<lparr>claim_issuer = issuer, claim_subject = subject, claim_audience = audience,
         claim_scope = scope\<rparr>))))))"

definition validation_options :: "validator \<Rightarrow> verification_options" where
  "validation_options self =
     \<lparr>allowed_audiences = Some [validator_audience self], max_token_length = Some 1000,
      time_tolerance = Some 5\<rparr>"

definition validate ::
  "build \<Rightarrow> ('k, 'v) jwt_lib \<Rightarrow> hex_codec \<Rightarrow> validator \<Rightarrow> auth_token \<Rightarrow> auth_key \<Rightarrow> u64 \<Rightarrow>
     (validation_error + token_claims) panics" where
  "validate build J X self token key now = do {
     verifier \<leftarrow> verifying_key_for J key;
     (case map_err Jwt (verify_token J verifier (expose_token token) (validation_options self) now) of
        Err e \<Rightarrow> Some (Err e)
      | Ok claims \<Rightarrow>
          (case check_lifetime build (max_lifetime_seconds self) claims of
             None \<Rightarrow> None
           | Some (Err e) \<Rightarrow> Some (Err e)
           | Some (Ok _) \<Rightarrow> Some (check_claims J X self token claims)))
   }"

section \<open>What the library does\<close>

text \<open>
  The documented behaviour the code relies on: new claims are valid from now for the given
  time, the setters set one claim, and the key id of a signed token is the key's.
\<close>

definition jwt_laws :: "('k, 'v) jwt_lib \<Rightarrow> bool" where
  "jwt_laws J \<longleftrightarrow>
     (\<forall>custom minutes now. jwt_new_claims J custom minutes now =
        \<lparr>issued_at = Some now, expires_at = Some (now + of_nat (60 * minutes)), invalid_before = Some now,
         jwt_audiences = None, jwt_issuer = None, jwt_subject = None, custom_scope = custom\<rparr>) \<and>
     (\<forall>a c. with_audience J a c = c\<lparr>jwt_audiences := Some (AsString a)\<rparr>) \<and>
     (\<forall>i c. with_issuer J i c = c\<lparr>jwt_issuer := Some i\<rparr>) \<and>
     (\<forall>s c. with_subject J s c = c\<lparr>jwt_subject := Some s\<rparr>) \<and>
     (\<forall>i k c t. jwt_sign J (with_key_id J i k) c = Some t \<longrightarrow> decode_metadata J t = Ok (Some i))"

text \<open>
  \<open>verifies J k v\<close>: tokens signed with \<open>k\<close> verify with \<open>v\<close>, and give back their claims,
  when they are short enough, in their time and for an allowed audience.
\<close>

definition verifies :: "('k, 'v) jwt_lib \<Rightarrow> 'k \<Rightarrow> 'v \<Rightarrow> bool" where
  "verifies J k v \<longleftrightarrow>
     (\<forall>i c t opts now start expiry a. jwt_sign J (with_key_id J i k) c = Some t \<and>
        (\<forall>n. max_token_length opts = Some n \<longrightarrow> length t \<le> n) \<and>
        issued_at c = Some start \<and> invalid_before c = Some start \<and> start \<le> now \<and>
        expires_at c = Some expiry \<and> now < expiry \<and> jwt_audiences c = Some (AsString a) \<and>
        (\<forall>as. allowed_audiences opts = Some as \<longrightarrow> a \<in> set as) \<longrightarrow>
      verify_token J v t opts now = Ok c)"

text \<open>A verified token is for one of the allowed audiences.\<close>

definition checks_audience :: "('k, 'v) jwt_lib \<Rightarrow> bool" where
  "checks_audience J \<longleftrightarrow>
     (\<forall>v t opts now c as a. verify_token J v t opts now = Ok c \<and> allowed_audiences opts = Some as \<and>
        jwt_audiences c = Some (AsString a) \<longrightarrow> a \<in> set as)"

section \<open>Key ids\<close>

lemma digit_value_decimal: "n < 10 \<Longrightarrow> digit_value (decimal_digit n) = Some n"
  by (simp add: digit_value_def decimal_digit_def Let_def)

lemma parse_digits_append:
  "parse_digits acc (xs @ ys) = Option.bind (parse_digits acc xs) (\<lambda>a. parse_digits a ys)"
  by (induction xs arbitrary: acc) (auto split: Option.bind_split)

declare show_nat.simps [simp del]

lemma parse_digits_show: "n < 2 ^ 64 \<Longrightarrow> parse_digits 0 (show_nat n) = Some n"
proof (induction n rule: show_nat.induct)
  case (1 n)
  show ?case
  proof (cases "n < 10")
    case True
    then show ?thesis
      by (simp add: show_nat.simps digit_value_decimal)
  next
    case False
    then have "parse_digits 0 (show_nat (n div 10)) = Some (n div 10)"
      using 1 by simp
    then show ?thesis
      using False 1(2) digit_value_decimal [of "n mod 10"]
      by (subst show_nat.simps) (simp add: parse_digits_append)
  qed
qed

lemma show_nat_first: "\<exists>d ds. show_nat n = decimal_digit d # ds \<and> d < 10"
proof (induction n rule: show_nat.induct)
  case (1 n)
  then show ?case
    by (cases "n < 10") (auto simp: show_nat.simps [of n])
qed

lemma parse_show_u64: "parse_u64 (show_nat (unat (v :: u64))) = Some v"
proof -
  obtain d ds where s: "show_nat (unat v) = decimal_digit d # ds" "d < 10"
    using show_nat_first by blast
  have "decimal_digit d \<noteq> CHR ''+''"
    using digit_value_decimal [OF s(2)] by (auto simp: digit_value_def)
  then show ?thesis
    using parse_digits_show [of "unat v"] s unsigned_less [of v, where ?'a=nat] by (simp add: parse_u64_def)
qed

lemma split_once_append: "c \<notin> set a \<Longrightarrow> split_once c (a @ c # b) = Some (a, b)"
  by (induction a) auto

lemma issuer_no_colon:
  assumes "issuer_regex s"
  shows "CHR '':'' \<notin> set s"
proof -
  have alnum: "CHR '':'' \<notin> set t" if "alphanumerics t" for t
    using that by (auto simp: alphanumerics_def list_all_iff alphanumeric_def dest!: bspec)
  from assms consider "alphanumerics s" | "s = ''test-'' @ drop 5 s" "alphanumerics (drop 5 s)"
    unfolding issuer_regex_def by (metis append_take_drop_id)
  then show "CHR '':'' \<notin> set s"
  proof cases
    case 2
    have "set s = set ''test-'' \<union> set (drop 5 s)"
      by (subst 2(1)) (rule set_append)
    then show ?thesis
      using alnum [OF 2(2)] by simp
  qed (rule alnum)
qed

lemma parse_key_id_of: "issuer_regex issuer \<Longrightarrow> parse_key_id (key_id_of issuer v) = Some (issuer, v)"
  using split_once_append [OF issuer_no_colon, of issuer "show_nat (unat (key_version v))"]
  by (simp add: parse_key_id_def key_id_of_def parse_show_u64)

section \<open>Scopes and claims\<close>

lemma scope_roundtrip [simp]: "scope_from_str (scope_as_str s) = Ok s"
  by (cases s) (simp_all add: scope_from_str_def trim_def is_whitespace_def)

lemma parse_scope_of [simp]: "parse_scope (map_option scope_as_str s) = Ok s"
  by (cases s) (simp_all add: parse_scope_def)

lemma parse_audience_of: "hex_laws X \<Longrightarrow>
    parse_audience X (Some (AsString (hex_encode X (bytes_of (id_bytes i))))) = Ok i"
  by (simp add: parse_audience_def hex_laws_def)

lemma parse_audience_Ok:
  "parse_audience X x = Ok i \<longleftrightarrow>
     (\<exists>a. x = Some (AsString a) \<and> hex_decode X a = Some (bytes_of (id_bytes i)))"
  by (cases i) (auto simp: parse_audience_def and_then_def ok_or_def array_try_from_Some
      split: option.splits audiences.splits sum.splits)

lemma create_token_Some:
  assumes laws: "jwt_laws J" and create: "create_token J X claims key version now = Some token"
    and k: "signing_key J key = Some k"
  shows "issuer_regex (claim_issuer claims)"
    and "jwt_sign J (with_key_id J (key_id_of (claim_issuer claims) version) k)
      \<lparr>issued_at = Some now, expires_at = Some (now + 600), invalid_before = Some now,
       jwt_audiences = Some (AsString (hex_encode X (bytes_of (id_bytes (claim_audience claims))))),
       jwt_issuer = Some (claim_issuer claims), jwt_subject = Some (claim_subject claims),
       custom_scope = map_option scope_as_str (claim_scope claims)\<rparr> = Some (expose_token token)"
  using create laws k
  by (auto simp: create_token_def jwt_laws_def Let_def expose_token_def bind_eq_Some_conv split: if_splits)

lemma check_lifetime_Ok:
  "check_lifetime build (Some m) c = Some (Ok ()) \<longleftrightarrow>
     (\<exists>nbf expiry. invalid_before c = Some nbf \<and> expires_at c = Some expiry \<and>
        (build = Debug \<longrightarrow> nbf \<le> expiry) \<and> expiry - nbf \<le> m)"
  by (cases build) (auto simp: check_lifetime_def checked_minus_def not_less split: option.splits if_splits)

lemma check_claims_Ok:
  "check_claims J X self token c = Ok claims \<longleftrightarrow>
     jwt_issuer c = Some (claim_issuer claims) \<and> jwt_subject c = Some (claim_subject claims) \<and>
     (\<exists>version. token_key_id J token = Ok (claim_issuer claims, version)) \<and>
     parse_audience X (jwt_audiences c) = Ok (claim_audience claims) \<and>
     parse_scope (custom_scope c) = Ok (claim_scope claims) \<and>
     check_scope (claim_scope claims) (require_scope self) = Ok ()"
  by (cases claims) (auto simp: check_claims_def and_then_def ok_or_def split: sum.splits option.splits if_splits)

lemma validate_Ok:
  assumes "validate build J X self token key now = Some (Ok claims)"
  obtains v c where "verifying_key_for J key = Some v"
    and "verify_token J v (expose_token token) (validation_options self) now = Ok c"
    and "check_lifetime build (max_lifetime_seconds self) c = Some (Ok ())"
    and "check_claims J X self token c = Ok claims"
proof -
  obtain v where v: "verifying_key_for J key = Some v"
    using assms by (auto simp: validate_def bind_eq_Some_conv)
  obtain c where c: "verify_token J v (expose_token token) (validation_options self) now = Ok c"
    using assms v
    by (cases "verify_token J v (expose_token token) (validation_options self) now") (auto simp: validate_def)
  obtain r where r: "check_lifetime build (max_lifetime_seconds self) c = Some r"
    using assms v c by (auto simp: validate_def split: option.splits)
  show thesis
  proof (cases r)
    case (Inr u)
    then show ?thesis
      using that [OF v c] assms v c r by (simp add: validate_def)
  qed (use assms v c r in \<open>simp add: validate_def\<close>)
qed

lemma validate_created:
  assumes "hex_laws X" and laws: "jwt_laws J" and create: "create_token J X claims key version now = Some token"
    and k: "signing_key J key = Some k" and v: "verifying_key_for J public = Some v" "verifies J k v"
    and len: "length (expose_token token) \<le> 1000"
    and time: "now \<le> later" "later < now + 600" "now \<le> now + 600"
    and scope: "check_scope (claim_scope claims) required = Ok ()"
  shows "validate build J X (validator_new X (claim_audience claims) required) token public later = Some (Ok claims) \<and>
    token_key_id J token = Ok (claim_issuer claims, version)"
proof -
  let ?self = "validator_new X (claim_audience claims) required"
  let ?a = "hex_encode X (bytes_of (id_bytes (claim_audience claims)))"
  note made = create_token_Some [OF laws create k]
  define c where "c = \<lparr>issued_at = Some now, expires_at = Some (now + 600), invalid_before = Some now,
       jwt_audiences = Some (AsString ?a), jwt_issuer = Some (claim_issuer claims),
       jwt_subject = Some (claim_subject claims), custom_scope = map_option scope_as_str (claim_scope claims)\<rparr>"
  have "decode_metadata J (expose_token token) = Ok (Some (key_id_of (claim_issuer claims) version))"
    using laws made(2) by (simp add: jwt_laws_def)
  then have kid: "token_key_id J token = Ok (claim_issuer claims, version)"
    by (simp add: token_key_id_def parse_key_id_of [OF made(1)])
  have "verify_token J v (expose_token token) (validation_options ?self) later = Ok c"
    using v(2) [unfolded verifies_def, rule_format, of "key_id_of (claim_issuer claims) version" c
        "expose_token token" "validation_options ?self" now later "now + 600" ?a] made(2) len time
    by (simp add: c_def validation_options_def validator_new_def)
  moreover have "check_lifetime build (max_lifetime_seconds ?self) c = Some (Ok ())"
    using time(3) by (simp add: validator_new_def check_lifetime_Ok c_def MAX_LIFETIME_SECONDS_def)
  moreover have "check_claims J X ?self token c = Ok claims"
    unfolding check_claims_Ok using kid scope parse_audience_of [OF assms(1)]
    by (simp add: c_def validator_new_def)
  ultimately show ?thesis
    using v(1) kid by (simp add: validate_def)
qed

section \<open>Properties\<close>

text \<open>C29. A token of at most 1000 characters that \<open>create_token\<close> makes is accepted: the validator of the claims'
  realm returns the claims unchanged, for the public key that goes with the signing key, during
  the ten minutes of the token's life, when the end of its life does not wrap around and the scope satisfies
  what the validator requires; and its key id names the tenant and the key version.\<close>

theorem created_token_validates:
  assumes "hex_laws X" and "jwt_laws J" and "create_token J X claims key version now = Some token"
    and "signing_key J key = Some k" and "verifying_key_for J public = Some v" and "verifies J k v"
    and "length (expose_token token) \<le> 1000"
    and "now \<le> later" and "later < now + 600" and "now \<le> now + 600"
    and "check_scope (claim_scope claims) required = Ok ()"
  shows "validate build J X (validator_new X (claim_audience claims) required) token public later = Some (Ok claims) \<and>
    token_key_id J token = Ok (claim_issuer claims, version)"
  by (rule validate_created [OF assms])

text \<open>C30. What a realm's validator accepts is what it should: the signature verifies under the key,
  the tenant of the key id is the issuer, the audience is the realm, the token lives at
  most a day, and the scope is one the validator asks for.\<close>

theorem validated_token_sound:
  assumes hex: "hex_laws X" and checks: "checks_audience J"
    and run: "validate build J X (validator_new X realm required) token key now = Some (Ok claims)"
  shows "claim_audience claims = realm \<and> check_scope (claim_scope claims) required = Ok () \<and>
    (\<exists>version. token_key_id J token = Ok (claim_issuer claims, version)) \<and>
    (\<exists>v c nbf expiry. verifying_key_for J key = Some v \<and>
       verify_token J v (expose_token token) (validation_options (validator_new X realm required)) now = Ok c \<and>
       jwt_issuer c = Some (claim_issuer claims) \<and> jwt_subject c = Some (claim_subject claims) \<and>
       invalid_before c = Some nbf \<and> expires_at c = Some expiry \<and> expiry - nbf \<le> 86400 \<and>
       (build = Debug \<longrightarrow> nbf \<le> expiry))"
proof -
  let ?self = "validator_new X realm required"
  obtain v c where v: "verifying_key_for J key = Some v"
      "verify_token J v (expose_token token) (validation_options ?self) now = Ok c"
    and life: "check_lifetime build (max_lifetime_seconds ?self) c = Some (Ok ())"
    and claims: "check_claims J X ?self token c = Ok claims"
    by (rule validate_Ok [OF run])
  obtain a where a: "jwt_audiences c = Some (AsString a)" "hex_decode X a = Some (bytes_of (id_bytes (claim_audience claims)))"
    using claims by (auto simp: check_claims_Ok parse_audience_Ok)
  have "a = hex_encode X (bytes_of (id_bytes realm))"
    using checks [unfolded checks_audience_def, rule_format, of v "expose_token token" "validation_options ?self" now c
        "[validator_audience ?self]" a] v(2) a(1)
    by (simp add: validation_options_def validator_new_def)
  then have "bytes_of (id_bytes (claim_audience claims)) = bytes_of (id_bytes realm)"
    using a(2) hex by (simp add: hex_laws_def)
  then have "claim_audience claims = realm"
    by (simp add: bytes_of_inject realm_id.expand)
  then show ?thesis
    using v life claims by (auto simp: check_claims_Ok check_lifetime_Ok validator_new_def MAX_LIFETIME_SECONDS_def)
qed

end
