(* ===== verification/Demo.thy ===== *)
theory Demo
  imports Vault Reqwest_Client Realm_Auth
begin

text \<open>
  The demo (rust/cli/demo/src/demo.rs): it makes a client from its arguments and puts it through a
  registration with two guesses, recoveries with right and wrong PINs and a deletion. Parsing of
  the arguments is clap's, of JSON serde_json's, of certificates reqwest's; they and the file
  system are a parameter record. The output is the lines of a run that completes.
\<close>

section \<open>The client of the demo\<close>

record demo_args =
  arg_configuration :: string
  arg_auth_tokens :: string
  arg_tls_certificates :: "string list"

text \<open>\<open>json_tokens\<close> parses an object of strings into the entries of a \<open>HashMap\<close>, in its order.\<close>

record ('u, 'c) demo_lib =
  json_configuration :: "string \<Rightarrow> 'u configuration option"
  json_tokens :: "string \<Rightarrow> (string \<times> auth_token) list option"
  fs_read :: "string \<Rightarrow> bytes option"
  certificate_from_der :: "bytes \<Rightarrow> 'c option"
  utf8_lossy :: "bytes \<Rightarrow> string"
  process_id :: nat

definition demo_auth_tokens ::
  "hex_codec \<Rightarrow> (string \<times> auth_token) list \<Rightarrow> (realm_id \<Rightarrow> auth_token option) panics" where
  "demo_auth_tokens X json_auth_tokens = do {
     auth_tokens \<leftarrow> those (map (\<lambda>(id, token). do {
       id \<leftarrow> unwrap (realm_id_from_str X id);
       Some (id, token)
     }) json_auth_tokens);
     Some (fold (\<lambda>(id, token) m. m(id \<mapsto> token)) auth_tokens Map.empty)
   }"

definition demo_certificates :: "('u, 'c) demo_lib \<Rightarrow> string list \<Rightarrow> 'c list panics" where
  "demo_certificates D paths =
     those (map (\<lambda>path. do { der \<leftarrow> fs_read D path; certificate_from_der D der }) paths)"

definition demo_client ::
  "('u, 'c) demo_lib \<Rightarrow> hex_codec \<Rightarrow> header_lib \<Rightarrow> ('c, 'h, 'w, 'e) reqwest_lib \<Rightarrow> (nat \<Rightarrow> 'w \<Rightarrow> 'w) \<Rightarrow>
     demo_args \<Rightarrow> (('w, 'u) client \<times> (realm_id \<Rightarrow> session option option)) panics" where
  "demo_client D X L R tokio_sleep args = do {
     configuration \<leftarrow> json_configuration D (arg_configuration args);
     json_auth_tokens \<leftarrow> json_tokens D (arg_auth_tokens args);
     auth_tokens \<leftarrow> demo_auth_tokens X json_auth_tokens;
     lb_certs \<leftarrow> demo_certificates D (arg_tls_certificates args);
     builder \<leftarrow> with_configuration configuration builder_new;
     builder \<leftarrow> reqwest_with_options L R (client_options_default\<lparr>additional_root_certs := lb_certs\<rparr>)
       (with_auth_token_manager (token_map_get auth_tokens) builder);
     build_client (tokio_sleeper tokio_sleep builder)
   }"

section \<open>The scenario\<close>

definition expect_ok :: "('e + 'a) \<times> 'st \<Rightarrow> ('a \<times> 'st) panics" where
  "expect_ok result = (case result of (r, st) \<Rightarrow> map_option (\<lambda>x. (x, st)) (unwrap r))"

text \<open>The four matches on recoveries that must fail, with the guesses that must remain.\<close>

definition expect_invalid_pin ::
  "u16 \<Rightarrow> (recover_error + user_secret) \<times> 'st \<Rightarrow> (string \<times> 'st) panics" where
  "expect_invalid_pin guesses result =
     (case result of
        (Err (InvalidPin guesses_remaining), st) \<Rightarrow> do {
          assert_that (guesses_remaining = guesses);
          Some (''[Rust] Recover expectedly unsuccessful'', st)
        }
      | _ \<Rightarrow> None)"

definition recovered_secret :: "('u, 'c) demo_lib \<Rightarrow> user_secret \<Rightarrow> string" where
  "recovered_secret D secret = ''[Rust] Recovered secret: '' @ utf8_lossy D (user_secret_bytes secret)"

definition demo_operations ::
  "('w, 'u, 's::field, 'p::ab_group_add, 'ed) env \<Rightarrow> ('u, 'c) demo_lib \<Rightarrow> ('w, 'u) client \<Rightarrow>
     'w client_state \<Rightarrow> (string list \<times> 'w client_state) panics" where
  "demo_operations E D cl st = do {
     teyla \<leftarrow> user_secret_from (ascii ''teyla21'');
     (_, st) \<leftarrow> client_register E cl (Pin (ascii ''1234'')) teyla (UserInfo (ascii ''presso''))
       \<lparr>num_guesses = 2\<rparr> st \<bind> expect_ok;
     (rejected1, st) \<leftarrow> client_recover E cl (Pin (ascii ''1212'')) (UserInfo (ascii ''presso'')) st
       \<bind> expect_invalid_pin 1;
     (secret, st) \<leftarrow> client_recover E cl (Pin (ascii ''1234'')) (UserInfo (ascii ''presso'')) st \<bind> expect_ok;
     (rejected2, st) \<leftarrow> client_recover E cl (Pin (ascii ''1212'')) (UserInfo (ascii ''presso'')) st
       \<bind> expect_invalid_pin 1;
     (rejected3, st) \<leftarrow> client_recover E cl (Pin (ascii ''1212'')) (UserInfo (ascii ''presso'')) st
       \<bind> expect_invalid_pin 0;
     (rejected4, st) \<leftarrow> client_recover E cl (Pin (ascii ''1234'')) (UserInfo (ascii ''presso'')) st
       \<bind> expect_invalid_pin 0;
     presso \<leftarrow> user_secret_from (ascii ''presso42'');
     (_, st) \<leftarrow> client_register E cl (Pin (ascii ''4321'')) presso (UserInfo (ascii ''teyla''))
       \<lparr>num_guesses = 2\<rparr> st \<bind> expect_ok;
     (secret', st) \<leftarrow> client_recover E cl (Pin (ascii ''4321'')) (UserInfo (ascii ''teyla'')) st \<bind> expect_ok;
     (_, st) \<leftarrow> client_delete E cl st \<bind> expect_ok;
     Some ([''[Rust] Starting register (allowing 2 guesses)'', ''[Rust] Register succeeded'',
       ''[Rust] Starting recover with wrong PIN (guess 1)'', rejected1,
       ''[Rust] Starting recover with correct PIN (guess 2)'', recovered_secret D secret,
       ''[Rust] Starting recover with wrong PIN (guess 1)'', rejected2,
       ''[Rust] Starting recover with wrong PIN (guess 2)'', rejected3,
       ''[Rust] Starting recover with correct PIN (guess 3)'', rejected4,
       ''[Rust] Starting register'', ''[Rust] register succeeded'',
       ''[Rust] Starting recover with correct PIN (guess 1)'', recovered_secret D secret',
       ''[Rust] Deleting secret'', ''[Rust] delete succeeded''], st)
   }"

definition demo_main ::
  "('w, 'u, 's::field, 'p::ab_group_add, 'ed) env \<Rightarrow> ('u, 'c) demo_lib \<Rightarrow> hex_codec \<Rightarrow> header_lib \<Rightarrow>
     ('c, 'h, 'w, 'e) reqwest_lib \<Rightarrow> (nat \<Rightarrow> 'w \<Rightarrow> 'w) \<Rightarrow> demo_args \<Rightarrow> 'w \<Rightarrow>
     (string list \<times> 'w client_state) panics" where
  "demo_main E D X L R tokio_sleep args w = do {
     (cl, slots) \<leftarrow> demo_client D X L R tokio_sleep args;
     (ls, st) \<leftarrow> demo_operations E D cl \<lparr>world = w, sessions = slots\<rparr>;
     Some (ls @ [''[Rust] exiting '' @ show_nat (process_id D)], st)
   }"

section \<open>Lemmas\<close>

lemma demo_client_built:
  assumes "demo_client D X L R tokio_sleep args = Some (cl, slots)"
  obtains c where "json_configuration D (arg_configuration args) = Some c"
    and "checked_configuration_from c = Some (client_configuration cl)"
    and "client_previous_configurations cl = []" and "slots = initial_sessions (client_configuration cl)"
  using assms
  by (auto simp: demo_client_def bind_eq_Some_conv with_configuration_def reqwest_with_options_def with_http_def
      with_auth_token_manager_def tokio_sleeper_def with_sleeper_def build_client_def builder_new_def)

definition demo_pins :: "(pin \<times> user_info) set" where
  "demo_pins = {(Pin (ascii ''1234''), UserInfo (ascii ''presso'')),
     (Pin (ascii ''1212''), UserInfo (ascii ''presso'')), (Pin (ascii ''4321''), UserInfo (ascii ''teyla''))}"

text \<open>What the demo does after its first registration, as operations of the vault.\<close>

definition demo_script :: "operation list" where
  "demo_script =
     [Recovering (Pin (ascii ''1212'')) (UserInfo (ascii ''presso'')),
      Recovering (Pin (ascii ''1234'')) (UserInfo (ascii ''presso'')),
      Recovering (Pin (ascii ''1212'')) (UserInfo (ascii ''presso'')),
      Recovering (Pin (ascii ''1212'')) (UserInfo (ascii ''presso'')),
      Recovering (Pin (ascii ''1234'')) (UserInfo (ascii ''presso'')),
      Registering (Pin (ascii ''4321'')) (UserSecret (ascii ''presso42'')) (UserInfo (ascii ''teyla'')) \<lparr>num_guesses = 2\<rparr>,
      Recovering (Pin (ascii ''4321'')) (UserInfo (ascii ''teyla'')), Deleting]"

lemma demo_script_runs:
  "vault_run demo_script (Holding (Pin (ascii ''1234'')) (UserInfo (ascii ''presso'')) (UserSecret (ascii ''teyla21'')) 2 0) =
     ([RecoverOutcome (Err (InvalidPin 1)), RecoverOutcome (Ok (UserSecret (ascii ''teyla21''))),
       RecoverOutcome (Err (InvalidPin 1)), RecoverOutcome (Err (InvalidPin 0)), RecoverOutcome (Err (InvalidPin 0)),
       RegisterOutcome (Ok ()), RecoverOutcome (Ok (UserSecret (ascii ''presso42''))), DeleteOutcome (Ok ())], Vacant)"
  by (simp add: demo_script_def ascii_def)

lemma demo_secrets: "user_secret_from (ascii ''teyla21'') = Some (UserSecret (ascii ''teyla21''))"
  "user_secret_from (ascii ''presso42'') = Some (UserSecret (ascii ''presso42''))"
  by (simp_all add: user_secret_from_Some)

lemma demo_operations_run:
  assumes "client_register E cl (Pin (ascii ''1234'')) (UserSecret (ascii ''teyla21'')) (UserInfo (ascii ''presso''))
      \<lparr>num_guesses = 2\<rparr> st = Some (Ok (), st1)"
    and "client_run E cl demo_script st1 = Some (fst (vault_run demo_script
      (Holding (Pin (ascii ''1234'')) (UserInfo (ascii ''presso'')) (UserSecret (ascii ''teyla21'')) 2 0)), st')"
  shows "demo_operations E D cl st =
    Some ([''[Rust] Starting register (allowing 2 guesses)'', ''[Rust] Register succeeded'',
       ''[Rust] Starting recover with wrong PIN (guess 1)'', ''[Rust] Recover expectedly unsuccessful'',
       ''[Rust] Starting recover with correct PIN (guess 2)'',
       ''[Rust] Recovered secret: '' @ utf8_lossy D (ascii ''teyla21''),
       ''[Rust] Starting recover with wrong PIN (guess 1)'', ''[Rust] Recover expectedly unsuccessful'',
       ''[Rust] Starting recover with wrong PIN (guess 2)'', ''[Rust] Recover expectedly unsuccessful'',
       ''[Rust] Starting recover with correct PIN (guess 3)'', ''[Rust] Recover expectedly unsuccessful'',
       ''[Rust] Starting register'', ''[Rust] register succeeded'',
       ''[Rust] Starting recover with correct PIN (guess 1)'',
       ''[Rust] Recovered secret: '' @ utf8_lossy D (ascii ''presso42''),
       ''[Rust] Deleting secret'', ''[Rust] delete succeeded''], st')"
  using assms(2) unfolding demo_script_runs unfolding demo_script_def
  by (auto simp: demo_operations_def demo_secrets assms(1) bind_eq_Some_conv expect_ok_def expect_invalid_pin_def
      recovered_secret_def assert_that_def unwrap_def)

section \<open>Property\<close>

text \<open>C10. The demo completes: run against realms that all run the whitepaper's machine, whatever they hold
  for the user before, with tokens and a configuration from which it can make its client, the register
  threshold being at least 1 and the demo's PINs told apart by their hashes, no
  \<open>expect\<close>, assertion or \<open>panic!\<close> of the demo fires. (The field tells the indices of the shares apart,
  and random scalars are not zero.) It prints both secrets as they were registered,
  the wrong PIN is rejected with 1, then 1 and 0 guesses remaining, the right PIN is rejected once
  the guesses are used up (26 requests to each realm at most), and at the end no realm holds anything.\<close>

theorem demo_completes:
  fixes E :: "('w, 'u, 's::field, 'p::ab_group_add, 'ed) env"
  assumes "executor_ok E" and "curve_laws (env_curve E)" and "prim_laws (env_prims E)"
    and "demo_client D X L R tokio_sleep args = Some (cl, slots)"
    and "inj_on (scalar_from (env_curve E)) {1..of_nat (length (crealms (client_configuration cl)))}"
    and "\<And>w. fst (env_random_scalar E w) \<noteq> 0"
    and "hosts (client_env E cl) (set (crealms (client_configuration cl))) (set (crealms (client_configuration cl))) I"
    and "0 < register_threshold (the_configuration (client_configuration cl))"
    and "separates (client_env E cl) (config_pin_hashing_mode (the_configuration (client_configuration cl))) demo_pins"
    and "I (n + 26 * length (crealms (client_configuration cl))) S \<lparr>world = w, sessions = slots\<rparr>"
  shows "\<exists>S' st'. demo_main E D X L R tokio_sleep args w = Some (
      [''[Rust] Starting register (allowing 2 guesses)'', ''[Rust] Register succeeded'',
       ''[Rust] Starting recover with wrong PIN (guess 1)'', ''[Rust] Recover expectedly unsuccessful'',
       ''[Rust] Starting recover with correct PIN (guess 2)'',
       ''[Rust] Recovered secret: '' @ utf8_lossy D (ascii ''teyla21''),
       ''[Rust] Starting recover with wrong PIN (guess 1)'', ''[Rust] Recover expectedly unsuccessful'',
       ''[Rust] Starting recover with wrong PIN (guess 2)'', ''[Rust] Recover expectedly unsuccessful'',
       ''[Rust] Starting recover with correct PIN (guess 3)'', ''[Rust] Recover expectedly unsuccessful'',
       ''[Rust] Starting register'', ''[Rust] register succeeded'',
       ''[Rust] Starting recover with correct PIN (guess 1)'',
       ''[Rust] Recovered secret: '' @ utf8_lossy D (ascii ''presso42''),
       ''[Rust] Deleting secret'', ''[Rust] delete succeeded'',
       ''[Rust] exiting '' @ show_nat (process_id D)], st') \<and>
    I n S' st' \<and> (\<forall>realm \<in> set (crealms (client_configuration cl)). S' realm = Unregistered)"
proof -
  let ?cfg = "client_configuration cl"
  obtain c where c: "checked_configuration_from c = Some ?cfg" "client_previous_configurations cl = []"
    by (rule demo_client_built [OF assms(4)])
  have thresholds: "unat (recover_threshold (the_configuration ?cfg)) \<le> length (crealms ?cfg)"
      "unat (register_threshold (the_configuration ?cfg)) \<le> length (crealms ?cfg)"
    using checked_configuration_from_ok [OF c(1)] by (auto simp: checked_ok_def configuration_ok_def)
  have vault: "vault_client E cl c (set (crealms ?cfg)) demo_pins I"
    by (rule vault_client.intro [OF assms(1-3) c assms(5-7) _ assms(8) _ assms(9)]) (use thresholds in simp_all)
  let ?v = "Holding (Pin (ascii ''1234'')) (UserInfo (ascii ''presso'')) (UserSecret (ascii ''teyla21'')) 2 0"
  have "operation_ok ?cfg (set (crealms ?cfg)) demo_pins (Registering (Pin (ascii ''1234''))
      (UserSecret (ascii ''teyla21'')) (UserInfo (ascii ''presso'')) \<lparr>num_guesses = 2\<rparr>)"
    using demo_secrets by (auto simp: demo_pins_def)
  moreover have "I (n + 3 * length (crealms ?cfg) * length demo_script + 2 * length (crealms ?cfg)) S
      \<lparr>world = w, sessions = slots\<rparr>"
    using assms(10) by (simp add: demo_script_def add.commute)
  ultimately obtain S1 st1 where
    reg: "client_register E cl (Pin (ascii ''1234'')) (UserSecret (ascii ''teyla21'')) (UserInfo (ascii ''presso''))
      \<lparr>num_guesses = 2\<rparr> \<lparr>world = w, sessions = slots\<rparr> = Some (Ok (), st1)"
    and S1: "I (n + 3 * length (crealms ?cfg) * length demo_script) S1 st1"
      "vault_in (client_env E cl) ?cfg (set (crealms ?cfg)) demo_pins ?v S1"
    using vault_client.register_step [OF vault, where v = Vacant] by fastforce
  have ok: "\<And>op. op \<in> set demo_script \<Longrightarrow> operation_ok ?cfg (set (crealms ?cfg)) demo_pins op"
    using demo_secrets by (auto simp: demo_script_def demo_pins_def)
  have "snd (vault_run demo_script ?v) = Vacant"
    by (simp add: demo_script_runs)
  with vault_client.run [where ops = demo_script, OF vault _ S1] ok obtain S' st' where
    run: "client_run E cl demo_script st1 = Some (fst (vault_run demo_script ?v), st')"
    and S': "I n S' st'" "vault_in (client_env E cl) ?cfg (set (crealms ?cfg)) demo_pins Vacant S'"
    by auto
  show ?thesis
    using S' by (auto simp: demo_main_def assms(4) demo_operations_run [OF reg run] vault_in_def honest_def)
qed

end
