(* ===== verification/Examples.thy ===== *)
theory Examples
  imports Client
begin

text \<open>
  A concrete instance of every parameter of the model: the field of five elements with its
  additive group as the curve, length-preserving stand-ins for the other cryptographic
  crates, hexadecimal coding, codecs, and a transport that logs the requests and answers
  none. The instance satisfies the laws that the theorems assume, so the theorems can be
  applied to it; nothing outside the examples depends on it.
\<close>

unbundle bit_operations_syntax

section \<open>The field of five elements\<close>

datatype gf5 = G0 | G1 | G2 | G3 | G4

fun gf_nat :: "gf5 \<Rightarrow> nat" where
  "gf_nat G0 = 0" | "gf_nat G1 = 1" | "gf_nat G2 = 2" | "gf_nat G3 = 3" | "gf_nat G4 = 4"

definition gf_of :: "nat \<Rightarrow> gf5" where
  "gf_of n = [G0, G1, G2, G3, G4] ! (n mod 5)"

instantiation gf5 :: field
begin

definition zero_gf5 :: gf5 where "zero_gf5 = G0"

definition one_gf5 :: gf5 where "one_gf5 = G1"

definition plus_gf5 :: "gf5 \<Rightarrow> gf5 \<Rightarrow> gf5" where
  "plus_gf5 a b = gf_of (gf_nat a + gf_nat b)"

definition times_gf5 :: "gf5 \<Rightarrow> gf5 \<Rightarrow> gf5" where
  "times_gf5 a b = gf_of (gf_nat a * gf_nat b)"

definition uminus_gf5 :: "gf5 \<Rightarrow> gf5" where
  "uminus_gf5 a = gf_of (5 - gf_nat a)"

definition minus_gf5 :: "gf5 \<Rightarrow> gf5 \<Rightarrow> gf5" where
  "minus_gf5 a b = gf_of (gf_nat a + (5 - gf_nat b))"

definition inverse_gf5 :: "gf5 \<Rightarrow> gf5" where
  "inverse_gf5 a = gf_of (gf_nat a ^ 3)"

definition divide_gf5 :: "gf5 \<Rightarrow> gf5 \<Rightarrow> gf5" where
  "divide_gf5 a b = gf_of (gf_nat a * gf_nat b ^ 3)"

lemmas gf_defs = zero_gf5_def one_gf5_def plus_gf5_def times_gf5_def uminus_gf5_def minus_gf5_def
  inverse_gf5_def divide_gf5_def gf_of_def

instance
proof
  fix a b c :: gf5
  show "a + b + c = a + (b + c)"
    by (cases a; cases b; cases c) (simp_all add: gf_defs)
  show "a * b * c = a * (b * c)"
    by (cases a; cases b; cases c) (simp_all add: gf_defs)
  show "(a + b) * c = a * c + b * c"
    by (cases a; cases b; cases c) (simp_all add: gf_defs)
  show "a + b = b + a" "a * b = b * a" "a - b = a + - b" "a div b = a * inverse b"
    by (cases a; cases b; simp add: gf_defs)+
  show "0 + a = a" "- a + a = 0" "1 * a = a"
    by (cases a; simp add: gf_defs)+
  show "a \<noteq> 0 \<Longrightarrow> inverse a * a = 1"
    by (cases a) (simp_all add: gf_defs)
  show "(0 :: gf5) \<noteq> 1" "inverse (0 :: gf5) = 0"
    by (simp_all add: gf_defs)
qed

end

section \<open>The curve\<close>

text \<open>Arrays of any length from a byte string, by padding with zeros or cutting.\<close>

definition fit :: "bytes \<Rightarrow> 'n::len barray" where
  "fit xs = Barray (take LENGTH('n) (xs @ replicate LENGTH('n) 0))"

lemma bytes_of_fit [simp]: "bytes_of (fit xs :: 'n::len barray) = take LENGTH('n) (xs @ replicate LENGTH('n) 0)"
  by (simp add: fit_def)

lemma fit_single_inject: "(fit [a] :: 'n::len barray) = fit [b] \<longleftrightarrow> a = b"
proof
  assume "(fit [a] :: 'n barray) = fit [b]"
  then have "hd (bytes_of (fit [a] :: 'n barray)) = hd (bytes_of (fit [b] :: 'n barray))"
    by simp
  then show "a = b"
    by (simp add: take_Cons')
qed simp

definition gf_encode :: "gf5 \<Rightarrow> 32 barray" where
  "gf_encode a = fit [of_nat (gf_nat a)]"

definition gf_decode :: "32 barray \<Rightarrow> gf5 option" where
  "gf_decode b = find (\<lambda>a. gf_encode a = b) [G0, G1, G2, G3, G4]"

definition gf_hash :: "bytes \<Rightarrow> gf5" where
  "gf_hash bs = gf_of (sum_list (map unat bs))"

definition example_curve :: "(gf5, gf5) curve" where
  "example_curve = \<lparr>scalar_from = (\<lambda>w. gf_of (unat w)), scalar_bytes = gf_encode,
     scalar_from_canonical_bytes = gf_decode, scalar_from_sha512 = gf_hash,
     point_mul = (*), basepoint = 1, mul_base = (\<lambda>s. s),
     multiscalar_mul = (\<lambda>ss ps. sum_list (map2 (*) ss ps)),
     compress = gf_encode, decompress = gf_decode, point_from_sha512 = gf_hash\<rparr>"

lemma gf_encode_inject: "gf_encode a = gf_encode b \<longleftrightarrow> a = b"
  by (cases a; cases b) (simp_all add: gf_encode_def fit_single_inject)

lemma gf_decode_Some: "gf_decode b = Some a \<longleftrightarrow> gf_encode a = b"
proof
  show "gf_decode b = Some a \<Longrightarrow> gf_encode a = b"
    unfolding gf_decode_def find_Some_iff by blast
next
  show "gf_encode a = b \<Longrightarrow> gf_decode b = Some a"
    by (cases a) (auto simp: gf_decode_def gf_encode_inject)
qed

lemma example_curve_laws: "curve_laws example_curve"
  by (simp add: curve_laws_def example_curve_def gf_decode_Some algebra_simps)

lemma example_curve_inj: "inj_on (scalar_from example_curve) {1..3}"
proof (rule inj_onI)
  fix v w :: u32
  assume vw: "v \<in> {1..3}" "w \<in> {1..3}" "scalar_from example_curve v = scalar_from example_curve w"
  have "unat v \<in> {1, 2, 3}" "unat w \<in> {1, 2, 3}"
    using vw(1,2) by (auto simp: word_le_nat_alt)
  then have "unat v = unat w"
    using vw(3) by (auto simp: example_curve_def gf_of_def)
  then show "v = w"
    by (rule word_unat_eq_iff [THEN iffD2])
qed

section \<open>The other primitives\<close>

definition example_prims :: "32 barray prims" where
  "example_prims = \<lparr>sha512 = fit, blake2s256 = fit, blake2s_mac16 = (\<lambda>k m. fit m),
     blake2s_mac32 = (\<lambda>k m. fit (bytes_of k @ m)), hkdf_blake2s = (\<lambda>salt ikm. Some (fit (ikm @ salt))),
     aead_encrypt = (\<lambda>k n a m. Some (m @ replicate 16 0)),
     aead_decrypt = (\<lambda>k n a c. if 16 \<le> length c then Some (take (length c - 16) c) else None),
     x25519_public = (\<lambda>s. s),
     x25519_dh = (\<lambda>s p. fit (map2 (XOR) (bytes_of s) (bytes_of p))),
     ed25519_public = (\<lambda>s. s), ed25519_sign = (\<lambda>s m. fit (bytes_of s @ m)),
     edwards_decompress = (\<lambda>p. Some p),
     ed25519_verify_strict = (\<lambda>p m s. s = fit (bytes_of p @ m)),
     argon2_params = (\<lambda>m t p. Some (m, t, p)), argon2_min_costs = (8, 1, 1),
     argon2id = (\<lambda>params pin salt. Some (fit (pin @ salt)))\<rparr>"

lemma map2_commute: "(\<And>x y. f x y = f y x) \<Longrightarrow> map2 f xs ys = map2 f ys xs"
  by (induction xs ys rule: list_induct2') auto

lemma example_prim_laws: "prim_laws example_prims"
  by (auto simp: prim_laws_def example_prims_def map2_commute [of "(XOR)"] xor.commute)

section \<open>Codecs\<close>

definition hex_digit :: "nat \<Rightarrow> char" where
  "hex_digit n = ''0123456789abcdef'' ! n"

definition hex_value :: "char \<Rightarrow> nat option" where
  "hex_value c = position (\<lambda>d. d = c) ''0123456789abcdef''"

fun hex_pairs :: "string \<Rightarrow> bytes option" where
  "hex_pairs [] = Some []"
| "hex_pairs [c] = None"
| "hex_pairs (c # d # s) = do {
     hi \<leftarrow> hex_value c;
     lo \<leftarrow> hex_value d;
     bs \<leftarrow> hex_pairs s;
     Some (of_nat (16 * hi + lo) # bs)
   }"

definition example_hex :: hex_codec where
  "example_hex = \<lparr>hex_encode = concat \<circ> map (\<lambda>b. [hex_digit (unat b div 16), hex_digit (unat b mod 16)]),
     hex_decode = hex_pairs\<rparr>"

lemma hex_digit_value:
  assumes "n < 16"
  shows "hex_value (hex_digit n) = Some n" "hex_digit n \<noteq> CHR ''-''"
proof -
  have "list_all (\<lambda>n. hex_value (hex_digit n) = Some n \<and> hex_digit n \<noteq> CHR ''-'') [0..<16]"
    by code_simp
  then show "hex_value (hex_digit n) = Some n" "hex_digit n \<noteq> CHR ''-''"
    using assms by (simp_all add: list_all_iff)
qed

lemma nibbles: "unat b div 16 < 16" "unat b mod 16 < 16" for b :: u8
  using unsigned_less [of b, where ?'a=nat] by (simp_all add: less_mult_imp_div_less)

lemma nibble_sum: "16 * of_nat (unat b div 16) + of_nat (unat b mod 16) = b" for b :: u8
proof -
  have "16 * of_nat (unat b div 16) + of_nat (unat b mod 16) = (of_nat (16 * (unat b div 16) + unat b mod 16) :: u8)"
    by (simp only: of_nat_add of_nat_mult of_nat_numeral)
  also have "\<dots> = b"
    by (simp only: mult_div_mod_eq) simp
  finally show ?thesis .
qed

lemma example_hex_laws: "hex_laws example_hex"
proof -
  have dec: "hex_pairs (concat (map (\<lambda>b. [hex_digit (unat b div 16), hex_digit (unat b mod 16)]) bs)) = Some bs" for bs
    by (induction bs) (simp_all add: hex_digit_value nibbles nibble_sum)
  have dash: "CHR ''-'' \<notin> set (concat (map (\<lambda>b. [hex_digit (unat b div 16), hex_digit (unat b mod 16)]) bs))" for bs :: bytes
  proof (induction bs)
    case (Cons b bs)
    then show ?case
      using hex_digit_value(2) [OF nibbles(1) [of b]] hex_digit_value(2) [OF nibbles(2) [of b]] by auto
  qed simp
  have len: "length (concat (map (\<lambda>b. [hex_digit (unat b div 16), hex_digit (unat b mod 16)]) bs)) = 2 * length bs" for bs :: bytes
    by (induction bs) simp_all
  show ?thesis
    unfolding hex_laws_def example_hex_def using dec dash len by simp
qed

text \<open>A codec for one value, which is all the examples write.\<close>

definition single_cbor :: "'a \<Rightarrow> bytes \<Rightarrow> 'a cbor" where
  "single_cbor x bs = \<lparr>into_writer = (\<lambda>y. if y = x then Ok bs else Err ''unsupported''),
     from_reader = (\<lambda>cs. if cs = bs then Ok x else Err ''unexpected'')\<rparr>"

lemma single_cbor_laws: "cbor_laws (single_cbor x bs)"
  by (simp add: cbor_laws_def single_cbor_def)

section \<open>The environment\<close>

text \<open>
  The world counts the random values drawn and logs the HTTP requests. Every request is lost,
  time stands still, and futures complete in their order.
\<close>

type_synonym example_world = "nat \<times> http_request list"

definition example_net :: "string net_lib" where
  "example_net = \<lparr>url_join = (\<lambda>u p. Some (u @ p)), url_to_string = (\<lambda>u. u),
     status_is_success = (\<lambda>code. if 100 \<le> code \<and> code < 1000 then Some (200 \<le> code \<and> code < 300) else None)\<rparr>"

definition draw :: "(nat \<Rightarrow> 'a) \<Rightarrow> example_world \<Rightarrow> 'a \<times> example_world" where
  "draw f w = (f (fst w), (Suc (fst w), snd w))"

definition write_only :: "'a cbor" where
  "write_only = \<lparr>into_writer = (\<lambda>y. Ok [1]), from_reader = (\<lambda>cs. Err ''unexpected'')\<rparr>"

definition example_env :: "(example_world, string, gf5, gf5, 32 barray) env" where
  "example_env = \<lparr>env_build = Release, env_curve = example_curve, env_prims = example_prims,
     env_net = example_net, env_http = (\<lambda>q (n, l). (None, (n, l @ [q]))),
     env_token = (\<lambda>i w. (Some (AuthToken (SecretString ''token'')), w)), env_sleep = (\<lambda>d w. w),
     env_now = (\<lambda>w. (7, w)), env_random16 = draw (\<lambda>n. fit [of_nat n]),
     env_random32 = draw (\<lambda>n. fit [of_nat n]), env_random_scalar = draw gf_of,
     env_next_u32 = draw of_nat, env_executor = (\<lambda>n w. ([0..<n], w)),
     cbor_client_request = write_only, cbor_client_response = write_only,
     cbor_secrets_request = write_only, cbor_secrets_response = write_only,
     cbor_padded_response = write_only\<rparr>"

lemma example_env_sel [simp]:
  "env_build example_env = Release" "env_curve example_env = example_curve"
  "env_prims example_env = example_prims" "env_net example_env = example_net"
  "env_http example_env q (n, l) = (None, (n, l @ [q]))"
  "env_token example_env i w = (Some (AuthToken (SecretString ''token'')), w)"
  "env_sleep example_env d w = w" "env_now example_env w = (7, w)"
  "env_random16 example_env (n, l) = (fit [of_nat n], (Suc n, l))"
  "env_random32 example_env (n, l) = (fit [of_nat n], (Suc n, l))"
  "env_random_scalar example_env (n, l) = (gf_of n, (Suc n, l))"
  "env_next_u32 example_env (n, l) = (of_nat n, (Suc n, l))"
  "env_executor example_env n w = ([0..<n], w)"
  "into_writer (cbor_client_request example_env) cr = Ok [1]"
  "into_writer (cbor_secrets_request example_env) sq = Ok [1]"
  by (simp_all add: example_env_def draw_def write_only_def)

lemma example_logged: "logged example_env snd"
  by (simp add: logged_def example_env_def draw_def split_beta)

lemma example_executor_ok: "executor_ok example_env"
  by (simp add: executor_ok_def example_env_def)

definition example_realm :: "nat \<Rightarrow> string realm" where
  "example_realm n = \<lparr>realm_id = RealmId (fit [of_nat n]), realm_address = ''https://realm'' @ [char_of (48 + n), CHR ''/''],
     realm_public_key = None\<rparr>"

definition hardware_realm :: "string realm" where
  "hardware_realm = (example_realm 9)\<lparr>realm_public_key := Some (replicate 32 5)\<rparr>"

definition example_configuration :: "string configuration" where
  "example_configuration = \<lparr>realms = map example_realm [1, 2, 3], register_threshold = 3,
     recover_threshold = 2, config_pin_hashing_mode = Standard2019\<rparr>"

definition example_checked :: "string checked_configuration" where
  "example_checked = CheckedConfiguration example_configuration"

definition example_state :: "example_world client_state" where
  "example_state = \<lparr>world = (0, []),
     sessions = (\<lambda>i. if i = realm_id hardware_realm then Some None else None)\<rparr>"

lemma example_checked: "checked_configuration_from example_configuration = Some example_checked"
proof -
  have ids: "realm_id (example_realm m) \<le> realm_id (example_realm n) \<longleftrightarrow> (of_nat m :: u8) \<le> of_nat n"
    "realm_id (example_realm m) = realm_id (example_realm n) \<longleftrightarrow> (of_nat m :: u8) = of_nat n" for m n
    by (simp_all add: example_realm_def fit_single_inject less_eq_realm_id_def less_eq_barray_def take_Cons'
        order.order_iff_strict)
  have "configuration_ok example_configuration"
    by (auto simp: configuration_ok_def example_configuration_def ids example_realm_def fit_single_inject)
  moreover have "sort_key realm_id (realms example_configuration) = realms example_configuration"
    by (simp add: example_configuration_def ids)
  ultimately show ?thesis
    by (simp add: checked_configuration_from_eq example_checked_def)
qed

section \<open>What the environment does with a request\<close>

text \<open>Every send is lost, so it ends in the error of the network and leaves the sessions alone.\<close>

lemma example_send_client:
  "\<exists>w. send_client_request example_env realm cr st = Some (Err request_error.Transient, st\<lparr>world := w\<rparr>)"
  by (cases "world st") (simp add: send_client_request_def send_def send_with_options_def io_map_err_def
      io_world_panics_def example_net_def to_vec_def rpc_response_def split_beta del: split_paired_Ex, blast)

lemma example_send_secrets:
  "\<exists>w. send_secrets_request example_env realm q hs st = Some (Err request_error.Transient, st\<lparr>world := w\<rparr>)"
  by (cases "world st") (simp add: send_secrets_request_def send_with_options_def io_map_err_def
      io_world_panics_def example_net_def to_vec_def rpc_response_def split_beta del: split_paired_Ex, blast)

lemma example_software:
  assumes "realm_public_key realm = None"
  shows "\<exists>st'. make_request example_env realm q st = Some (Err request_error.Transient, st')"
proof -
  have "\<exists>st'. software_attempts example_env realm q hs n st = Some (Err request_error.Transient, st')" for hs n st
  proof (induction n arbitrary: st)
    case (Suc n)
    then show ?case
      using example_send_secrets [of realm q hs st] by (auto simp: io_defs io_sleep_def)
  qed (simp add: io_defs)
  then show ?thesis
    using assms by (simp add: make_request_def make_software_realm_request_def get_token_def io_bind_def Let_def)
qed

lemma example_handshake:
  assumes "length m < 2 ^ 32"
  shows "\<exists>w. make_handshake_request example_env realm (replicate 32 5) m st = Some (Err request_error.Transient, st\<lparr>world := w\<rparr>)"
proof -
  obtain n l where w: "world st = (n, l)"
    by fastforce
  obtain ch req k ck where "client_start_with_secret example_prims (fit [of_nat n])
      (x25519_public example_prims (Barray (replicate 32 5))) [] m = Some (Ok (ch, req))"
    using start_agrees [OF example_prim_laws assms] by metis
  then have "client_start_with_secret example_prims (fit [of_nat n]) (Barray (replicate 32 5)) [] m =
      Some (Ok (ch, req))"
    by (simp add: example_prims_def)
  moreover obtain W where "\<And>cr st. send_client_request example_env realm cr st =
      Some (Err request_error.Transient, st\<lparr>world := W cr st\<rparr>)"
    using example_send_client [of realm] by metis
  ultimately show ?thesis
    using w by (simp add: make_handshake_request_def io_bind_def io_panics_def io_result_def io_world_def
        get_token_def Let_def split_beta del: split_paired_Ex) blast
qed

lemma example_hardware_attempts:
  assumes "length m < 2 ^ 32" and "sessions st (realm_id realm) = Some None"
  shows "\<exists>st'. hardware_attempts example_env realm (replicate 32 5) m nfs as st = Some (Err request_error.Transient, st')"
  using assms(2)
proof (induction as arbitrary: st)
  case (Cons a as)
  let ?st = "st\<lparr>sessions := (sessions st)(realm_id realm \<mapsto> None)\<rparr>"
  have "\<exists>w. try_make_request example_env realm (replicate 32 5) None m nfs ?st =
      Some (Err (RequestError request_error.Transient), ?st\<lparr>world := w\<rparr>)"
    using example_handshake [OF assms(1), of realm ?st] example_handshake [of "[]" realm ?st]
    by (cases nfs) (force simp: try_make_request_def io_bind_def io_map_err_def io_panics_def)+
  then obtain w where "try_make_request example_env realm (replicate 32 5) None m nfs ?st =
      Some (Err (RequestError request_error.Transient), ?st\<lparr>world := w\<rparr>)"
    by blast
  moreover
  obtain st' where "hardware_attempts example_env realm (replicate 32 5) m nfs as (?st\<lparr>world := w\<rparr>) =
      Some (Err request_error.Transient, st')"
    using Cons.IH [of "?st\<lparr>world := w\<rparr>"] by auto
  ultimately show ?case
    using Cons.prems by (simp add: io_bind_def io_match_def take_session_def io_sleep_def Let_def)
qed (simp add: io_defs)

lemma example_hardware:
  "\<exists>st'. make_hardware_realm_request example_env hardware_realm (replicate 32 5) q example_state =
     Some (Err request_error.Transient, st')"
  using example_hardware_attempts [of "[1]" example_state hardware_realm "needs_forward_secrecy q" "[1, 2, 3, 4, 5]"]
  by (simp add: make_hardware_realm_request_def lock_sessions_def to_vec_def io_bind_def io_result_def
      example_state_def del: hardware_attempts.simps)

lemma example_pin_hash:
  "length (user_info_bytes info) < 2 ^ 32 \<Longrightarrow> \<exists>a s. pin_hash example_prims pin mode version info = Some (Some (a, s))"
proof -
  assume "length (user_info_bytes info) < 2 ^ 32"
  then obtain salt where salt: "pin_salt version info = Some salt"
    using framed_Some [of "[bytes_of (expose_version version), user_info_bytes info]"]
    by (auto simp: pin_salt_def simp del: framed.simps)
  obtain params where "pin_params example_prims mode = Some params"
    by (cases mode) (simp_all add: pin_params_def example_prims_def)
  with salt show ?thesis
    by (simp add: pin_hash_def pin_argon2_def Let_def example_prims_def)
qed

lemma example_realms: "realm \<in> set (crealms example_checked) \<Longrightarrow> realm_public_key realm = None"
  by (auto simp: example_checked_def example_configuration_def example_realm_def)

lemma example_make_request:
  "realm \<in> set (crealms example_checked) \<Longrightarrow> make_request example_env realm q st \<noteq> None"
  using example_software [OF example_realms] by fastforce

text \<open>Joining futures that all fail alike.\<close>

lemma join_loop_fails:
  assumes "\<And>f st. f \<in> set fs \<Longrightarrow> \<exists>st'. f st = Some (Err e, st')" and "set errors \<subseteq> {e}"
    and "limit < length errors + length fs" and "length errors \<le> limit"
  shows "\<exists>st'. join_loop limit oks errors fs st = Some (Err e, st')"
  using assms
proof (induction fs arbitrary: errors st)
  case (Cons f fs)
  obtain st' where f: "f st = Some (Err e, st')"
    using Cons.prems(1) [of f st] by auto
  show ?case
  proof (cases "limit < Suc (length errors)")
    case True
    have "set (errors @ [e]) = {e}"
      using Cons.prems(2) by auto
    then have "min_value (errors @ [e]) = Some e"
      using min_value_eq [of "errors @ [e]"] by (simp del: set_append)
    then show ?thesis
      using f True by simp
  next
    case False
    then show ?thesis
      using f Cons.IH [of "errors @ [e]" st'] Cons.prems by simp
  qed
qed simp

lemma example_join_fails:
  assumes "\<And>f st. f \<in> set fs \<Longrightarrow> \<exists>st'. f st = Some (Err e, st')"
    and "0 < unat t" and "unat t \<le> length fs"
  shows "\<exists>st'. join_at_least_threshold example_env fs t st = Some (Err e, st')"
proof -
  have "in_order [0..<length fs] fs = fs"
    by (simp add: in_order_def map_nth)
  moreover have "\<exists>st'. join_loop (length fs - unat t) [] [] fs (st\<lparr>world := world st\<rparr>) = Some (Err e, st')"
    by (rule join_loop_fails) (use assms in auto)
  moreover have "env_executor example_env (length fs) (world st) = ([0..<length fs], world st)"
    by simp
  ultimately show ?thesis
    unfolding join_unfold [OF assms(2,3) \<open>env_executor example_env _ _ = _\<close>] by auto
qed

lemma example_recover_fails:
  "\<exists>st'. perform_recover_with_configuration example_env pin info example_checked st = Some (Err recover_error.Transient, st')"
proof -
  have "\<exists>st'. recover_phase1 example_env example_checked st = Some (Err recover_error.Transient, st')"
  proof -
    have "\<exists>st'. join_at_least_threshold example_env (map (recover1_on_realm example_env) (crealms example_checked))
        (recover_threshold (the_configuration example_checked)) st = Some (Err recover_error.Transient, st')"
    proof (rule example_join_fails)
      fix f and st :: "example_world client_state"
      assume "f \<in> set (map (recover1_on_realm example_env) (crealms example_checked))"
      then obtain realm where "realm \<in> set (crealms example_checked)" "f = recover1_on_realm example_env realm"
        by auto
      then show "\<exists>st'. f st = Some (Err recover_error.Transient, st')"
        using example_software [OF example_realms, of realm Recover1 st]
        by (auto simp: recover1_on_realm_def io_match_def io_err_def)
    qed (simp_all add: example_checked_def example_configuration_def)
    then show ?thesis
      by (auto simp: recover_phase1_def io_bind_def Let_def)
  qed
  then show ?thesis
    by (auto simp: perform_recover_with_configuration_def recover_key_def io_bind_def)
qed

end
