(* ===== verification/Honest_Realms.thy ===== *)
theory Honest_Realms
  imports Examples Vault
begin

text \<open>
  An environment in which realms answer: the transport hands a request to the realm whose
  address the URL has, which decodes it, answers by the machine of \<open>Realm_Spec\<close> from the record
  the world holds for it, and encodes the answer. A realm without a record is unreachable. The
  environment satisfies the hypotheses of the end-to-end properties.
\<close>

section \<open>A wire format\<close>

lemma fit_append [simp]: "(fit (bytes_of b @ rest) :: 'n::len barray) = b"
  by (simp add: fit_def bytes_of_inverse)

lemma fit_bytes_of [simp]: "(fit (bytes_of b) :: 'n::len barray) = b"
  using fit_append [of b "[]"] by simp

lemma decode_gf [simp]: "gf_decode (gf_encode a) = Some a"
  by (simp add: gf_decode_Some)

definition encode_point :: "gf5 precompressed_point \<Rightarrow> bytes" where
  "encode_point p = bytes_of (compressed p) @ bytes_of (gf_encode (uncompressed p))"

definition decode_scalar :: "bytes \<Rightarrow> gf5" where
  "decode_scalar bs = the (gf_decode (fit bs))"

definition decode_point :: "bytes \<Rightarrow> gf5 precompressed_point" where
  "decode_point bs = \<lparr>uncompressed = decode_scalar (drop 32 bs), compressed = fit bs\<rparr>"

definition encode_u16 :: "u16 \<Rightarrow> bytes" where
  "encode_u16 w = [of_nat (unat w div 256), of_nat (unat w mod 256)]"

definition decode_u16 :: "bytes \<Rightarrow> u16" where
  "decode_u16 bs = of_nat (256 * unat (bs ! 0) + unat (bs ! 1))"

definition encode_key :: "oprf_signed_public_key \<Rightarrow> bytes" where
  "encode_key k = bytes_of (public_bytes (signed_public_key k)) @
     bytes_of (verifying_bytes (verifying_key k)) @ bytes_of (signature k)"

definition decode_key :: "bytes \<Rightarrow> oprf_signed_public_key" where
  "decode_key bs = \<lparr>signed_public_key = PublicKey (fit bs),
     verifying_key = OprfVerifyingKey (fit (drop 32 bs)), signature = fit (drop 64 bs)\<rparr>"

fun encode_request :: "(gf5, gf5) secrets_request \<Rightarrow> bytes" where
  "encode_request Recover1 = [0]"
| "encode_request (Recover2 r) =
     1 # bytes_of (version_array (rec2_version r)) @ encode_point (bi_point (rec2_oprf_blinded_input r))"
| "encode_request (Recover3 r) =
     2 # bytes_of (version_array (rec3_version r)) @ bytes_of (tag_array (rec3_unlock_key_tag r))"
| "encode_request Register1 = [3]"
| "encode_request (Register2 r) =
     4 # bytes_of (version_array (r2_version r)) @ bytes_of (gf_encode (private_scalar (r2_oprf_private_key r))) @
     encode_key (r2_oprf_signed_public_key r) @
     bytes_of (unlock_commitment_array (r2_unlock_key_commitment r)) @
     bytes_of (tag_array (r2_unlock_key_tag r)) @
     bytes_of (gf_encode (share_scalar (r2_encryption_key_scalar_share r))) @
     bytes_of (encrypted_array (r2_encrypted_secret r)) @
     bytes_of (secret_commitment_array (r2_encrypted_secret_commitment r)) @
     encode_u16 (num_guesses (r2_policy r))"
| "encode_request Delete = [5]"

definition decode_request :: "bytes \<Rightarrow> (gf5, gf5) secrets_request" where
  "decode_request bs =
     (let version = RegistrationVersion (fit (tl bs)); rest = drop 17 bs in
      if hd bs = 0 then Recover1
      else if hd bs = 1 then
        Recover2 \<lparr>rec2_version = version, rec2_oprf_blinded_input = BlindedInput (decode_point rest)\<rparr>
      else if hd bs = 2 then
        Recover3 \<lparr>rec3_version = version, rec3_unlock_key_tag = UnlockKeyTag (fit rest)\<rparr>
      else if hd bs = 3 then Register1
      else if hd bs = 4 then
        Register2 \<lparr>r2_version = version, r2_oprf_private_key = PrivateKey (decode_scalar rest),
          r2_oprf_signed_public_key = decode_key (drop 32 rest),
          r2_unlock_key_commitment = UnlockKeyCommitment (fit (drop 160 rest)),
          r2_unlock_key_tag = UnlockKeyTag (fit (drop 192 rest)),
          r2_encryption_key_scalar_share = ScalarShare (decode_scalar (drop 208 rest)),
          r2_encrypted_secret = EncryptedUserSecret (fit (drop 240 rest)),
          r2_encrypted_secret_commitment = EncryptedUserSecretCommitment (fit (drop 385 rest)),
          r2_policy = \<lparr>num_guesses = decode_u16 (drop 401 rest)\<rparr>\<rparr>
      else Delete)"

fun encode_answer :: "(gf5, gf5) secrets_response \<Rightarrow> bytes" where
  "encode_answer (Register1Response r) = [0]"
| "encode_answer (Register2Response r) = [1]"
| "encode_answer (DeleteResponse r) = [2]"
| "encode_answer (Recover1Response (Recover1Ok version)) = 3 # bytes_of (version_array version)"
| "encode_answer (Recover1Response Recover1NotRegistered) = [4]"
| "encode_answer (Recover1Response Recover1NoGuesses) = [5]"
| "encode_answer (Recover2Response (Recover2Ok ok)) =
     6 # encode_key (ok_signed_public_key ok) @
     encode_point (bo_point (ok_blinded_result ok)) @ bytes_of (gf_encode (proof_c (ok_proof ok))) @
     bytes_of (gf_encode (proof_beta_z (ok_proof ok))) @
     bytes_of (unlock_commitment_array (ok_unlock_key_commitment ok)) @
     encode_u16 (ok_num_guesses ok) @ encode_u16 (ok_guess_count ok)"
| "encode_answer (Recover2Response Recover2VersionMismatch) = [7]"
| "encode_answer (Recover2Response Recover2NotRegistered) = [8]"
| "encode_answer (Recover2Response Recover2NoGuesses) = [9]"
| "encode_answer (Recover3Response (Recover3Ok share secret commitment)) =
     10 # bytes_of (gf_encode (share_scalar share)) @ bytes_of (encrypted_array secret) @
     bytes_of (secret_commitment_array commitment)"
| "encode_answer (Recover3Response Recover3VersionMismatch) = [11]"
| "encode_answer (Recover3Response Recover3NotRegistered) = [12]"
| "encode_answer (Recover3Response (BadUnlockKeyTag g)) = 13 # encode_u16 g"
| "encode_answer (Recover3Response Recover3NoGuesses) = [14]"

definition decode_recover2 :: "bytes \<Rightarrow> (gf5, gf5) recover2_ok" where
  "decode_recover2 bs =
     \<lparr>ok_signed_public_key = decode_key bs,
      ok_blinded_result = BlindedOutput (decode_point (drop 128 bs)),
      ok_proof = \<lparr>proof_c = decode_scalar (drop 192 bs), proof_beta_z = decode_scalar (drop 224 bs)\<rparr>,
      ok_unlock_key_commitment = UnlockKeyCommitment (fit (drop 256 bs)),
      ok_num_guesses = decode_u16 (drop 288 bs), ok_guess_count = decode_u16 (drop 290 bs)\<rparr>"

definition decode_answer :: "bytes \<Rightarrow> (gf5, gf5) secrets_response" where
  "decode_answer bs =
     (let tag = hd bs; body = tl bs in
      if tag = 0 then Register1Response Register1Ok
      else if tag = 1 then Register2Response Register2Ok
      else if tag = 2 then DeleteResponse DeleteOk
      else if tag = 3 then Recover1Response (Recover1Ok (RegistrationVersion (fit body)))
      else if tag = 4 then Recover1Response Recover1NotRegistered
      else if tag = 5 then Recover1Response Recover1NoGuesses
      else if tag = 6 then Recover2Response (Recover2Ok (decode_recover2 body))
      else if tag = 7 then Recover2Response Recover2VersionMismatch
      else if tag = 8 then Recover2Response Recover2NotRegistered
      else if tag = 9 then Recover2Response Recover2NoGuesses
      else if tag = 10 then
        Recover3Response (Recover3Ok (ScalarShare (decode_scalar body))
          (EncryptedUserSecret (fit (drop 32 body))) (EncryptedUserSecretCommitment (fit (drop 177 body))))
      else if tag = 11 then Recover3Response Recover3VersionMismatch
      else if tag = 12 then Recover3Response Recover3NotRegistered
      else if tag = 13 then Recover3Response (BadUnlockKeyTag (decode_u16 body))
      else Recover3Response Recover3NoGuesses)"

lemma decode_point_encode [simp]: "decode_point (encode_point p @ rest) = p" "decode_point (encode_point p) = p"
  by (simp_all add: decode_point_def encode_point_def decode_scalar_def)

lemma decode_key_encode [simp]: "decode_key (encode_key k @ rest) = k"
  by (simp add: decode_key_def encode_key_def)

lemma length_encode [simp]: "length (encode_point p) = 64" "length (encode_key k) = 128" "length (encode_u16 w) = 2"
  by (simp_all add: encode_point_def encode_key_def encode_u16_def)

lemma decode_scalar_encode [simp]:
  "decode_scalar (bytes_of (gf_encode a) @ rest) = a" "decode_scalar (bytes_of (gf_encode a)) = a"
  by (simp_all add: decode_scalar_def)

lemma decode_u16_encode [simp]: "decode_u16 (encode_u16 w @ rest) = w" "decode_u16 (encode_u16 w) = w"
proof -
  have "unat w < 65536"
    using unat_bound [of w] by simp
  then have "unat (of_nat (unat w div 256) :: u8) = unat w div 256" "unat (of_nat (unat w mod 256) :: u8) = unat w mod 256"
    by (auto simp: unat_of_nat)
  then have "256 * unat (of_nat (unat w div 256) :: u8) + unat (of_nat (unat w mod 256) :: u8) = unat w"
    by simp
  then show "decode_u16 (encode_u16 w @ rest) = w" "decode_u16 (encode_u16 w) = w"
    by (simp_all add: decode_u16_def encode_u16_def)
qed

lemma decode_encode_request: "decode_request (encode_request request) = request"
  by (cases request) (simp_all add: decode_request_def)

lemma decode_encode_recover2:
  "decode_recover2 (encode_key (ok_signed_public_key ok) @
     encode_point (bo_point (ok_blinded_result ok)) @ bytes_of (gf_encode (proof_c (ok_proof ok))) @
     bytes_of (gf_encode (proof_beta_z (ok_proof ok))) @
     bytes_of (unlock_commitment_array (ok_unlock_key_commitment ok)) @
     encode_u16 (ok_num_guesses ok) @ encode_u16 (ok_guess_count ok)) = ok"
  by (simp add: decode_recover2_def)

lemma decode_encode_answer: "decode_answer (encode_answer resp) = resp"
proof (cases resp rule: encode_answer.cases)
  case (1 r) then show ?thesis
    by (cases r) (simp add: decode_answer_def)
next
  case (2 r) then show ?thesis
    by (cases r) (simp add: decode_answer_def)
next
  case (3 r) then show ?thesis
    by (cases r) (simp add: decode_answer_def)
qed (auto simp: decode_answer_def decode_encode_recover2)

section \<open>The environment\<close>

text \<open>The world counts the random values and holds the records by URL.\<close>

type_synonym realm_world = "nat \<times> (string \<Rightarrow> gf5 record_state option)"

definition answer_random :: "unit \<Rightarrow> gf5 \<times> unit" where
  "answer_random u = (G2, ())"

definition realm_http :: "realm_world http_client" where
  "realm_http q w =
     (case snd w (http_url q) of
        None \<Rightarrow> (None, w)
      | Some s \<Rightarrow>
          (let (resp, s) = realm_step example_curve answer_random s (decode_request (the (http_body q)))
           in (Some \<lparr>response_status = 200, response_headers = [], response_body = encode_answer resp\<rparr>,
               (fst w, (snd w)(http_url q := Some s)))))"

definition take_count :: "(nat \<Rightarrow> 'a) \<Rightarrow> realm_world \<Rightarrow> 'a \<times> realm_world" where
  "take_count f w = (f (fst w), (Suc (fst w), snd w))"

definition nonzero :: "nat \<Rightarrow> gf5" where
  "nonzero n = (if gf_of n = 0 then 1 else gf_of n)"

definition realm_env :: "(realm_world, string, gf5, gf5, 32 barray) env" where
  "realm_env = \<lparr>env_build = Release, env_curve = example_curve, env_prims = example_prims,
     env_net = example_net, env_http = realm_http,
     env_token = (\<lambda>i w. (Some (AuthToken (SecretString ''token'')), w)), env_sleep = (\<lambda>d w. w),
     env_now = (\<lambda>w. (7, w)), env_random16 = take_count (\<lambda>n. fit [of_nat n]),
     env_random32 = take_count (\<lambda>n. fit [of_nat n]), env_random_scalar = take_count nonzero,
     env_next_u32 = take_count of_nat, env_executor = (\<lambda>n w. (rev [0..<n], w)),
     cbor_client_request = write_only, cbor_client_response = write_only,
     cbor_secrets_request = \<lparr>into_writer = (\<lambda>q. Ok (encode_request q)), from_reader = (\<lambda>bs. Ok (decode_request bs))\<rparr>,
     cbor_secrets_response = \<lparr>into_writer = (\<lambda>q. Ok (encode_answer q)), from_reader = (\<lambda>bs. Ok (decode_answer bs))\<rparr>,
     cbor_padded_response = write_only\<rparr>"

lemma realm_env_sel [simp]:
  "env_build realm_env = Release" "env_curve realm_env = example_curve"
  "env_prims realm_env = example_prims" "env_net realm_env = example_net"
  "env_http realm_env = realm_http"
  "env_token realm_env i w = (Some (AuthToken (SecretString ''token'')), w)"
  "env_sleep realm_env d w = w"
  "env_random_scalar realm_env = take_count nonzero"
  "env_executor realm_env n w = (rev [0..<n], w)"
  "into_writer (cbor_secrets_request realm_env) q = Ok (encode_request q)"
  "from_reader (cbor_secrets_response realm_env) bs = Ok (decode_answer bs)"
  by (simp_all add: realm_env_def)

lemma realm_env_executor: "executor_ok realm_env"
  by (simp add: executor_ok_def)

lemma realm_env_nonzero: "fst (env_random_scalar realm_env w) \<noteq> 0"
  by (simp add: take_count_def nonzero_def)

text \<open>A manager that has a token for every realm serves as well as the one of \<open>realm_env\<close>.\<close>

definition tokens_for :: "string realm set \<Rightarrow> (realm_id \<Rightarrow> realm_world \<Rightarrow> auth_token option \<times> realm_world) \<Rightarrow> bool" where
  "tokens_for R tokens \<longleftrightarrow> (\<forall>realm \<in> R. \<forall>w. \<exists>t. tokens (realm_id realm) w = (Some t, w))"

lemma realm_env_update_sel [simp]:
  fixes tokens
  defines "E \<equiv> realm_env\<lparr>env_token := tokens\<rparr>"
  shows "env_build E = Release" "env_curve E = example_curve" "env_prims E = example_prims"
    "env_net E = example_net" "env_http E = realm_http" "env_token E = tokens" "env_sleep E d w = w"
    "env_executor E n w = (rev [0..<n], w)"
    "into_writer (cbor_secrets_request E) q = Ok (encode_request q)"
    "from_reader (cbor_secrets_response E) bs = Ok (decode_answer bs)"
  by (simp_all add: E_def)

lemma realm_request:
  assumes "realm_public_key realm = None" and "realm \<in> R" and "tokens_for R tokens"
  shows "make_request (realm_env\<lparr>env_token := tokens\<rparr>) realm request st =
     Some (case snd (world st) (realm_address realm @ ''req'') of
         None \<Rightarrow> (Err request_error.Transient, st)
       | Some s \<Rightarrow>
           (let (resp, s) = realm_step example_curve answer_random s request in
            (Ok resp, st\<lparr>world := (fst (world st), (snd (world st))(realm_address realm @ ''req'' := Some s))\<rparr>)))"
proof -
  let ?E = "realm_env\<lparr>env_token := tokens\<rparr>"
  obtain t where token: "tokens (realm_id realm) w = (Some (t w), w)" for w
    using assms(2,3) unfolding tokens_for_def by metis
  have send: "send_secrets_request ?E realm request hs st =
     Some (case snd (world st) (realm_address realm @ ''req'') of
         None \<Rightarrow> (Err request_error.Transient, st)
       | Some s \<Rightarrow>
           (let (resp, s) = realm_step example_curve answer_random s request in
            (Ok resp, st\<lparr>world := (fst (world st), (snd (world st))(realm_address realm @ ''req'' := Some s))\<rparr>)))" for hs st
    by (cases st) (simp add: send_secrets_request_def send_with_options_def io_map_err_def RPC_PATH_def
      io_world_panics_def example_net_def to_vec_def from_slice_def rpc_response_def realm_http_def
      decode_encode_request decode_encode_answer Let_def split_beta split: option.split)
  show ?thesis
    using assms(1)
    by (cases st) (simp add: make_request_def make_software_realm_request_def get_token_def io_bind_def io_match_def
      numeral_2_eq_2 send token io_sleep_def io_err_def io_return_def Let_def split_beta split: option.split)
qed

section \<open>The realms of the example\<close>

lemma example_crealms: "crealms example_checked = map example_realm [1, 2, 3]"
  by (simp add: example_checked_def example_configuration_def)

lemma example_realm_inject: "m < 200 \<Longrightarrow> n < 200 \<Longrightarrow> example_realm m = example_realm n \<longleftrightarrow> m = n"
  by (auto simp: example_realm_def fit_single_inject of_nat_inverse dest!: arg_cong [where f = "unat :: u8 \<Rightarrow> nat"])

lemma example_address: "realm_address (example_realm n) = ''https://realm'' @ [char_of (48 + n), CHR ''/'']"
  by (simp add: example_realm_def)

text \<open>The realms of \<open>H\<close> are up and have the records \<open>S\<close>, the others are down.\<close>

definition records ::
  "string realm set \<Rightarrow> (string realm \<Rightarrow> gf5 record_state) \<Rightarrow> realm_world client_state \<Rightarrow> bool" where
  "records H S st \<longleftrightarrow>
     (\<forall>realm \<in> set (crealms example_checked). snd (world st) (realm_address realm @ ''req'') =
        (if realm \<in> H then Some (S realm) else None))"

lemma example_addresses_differ:
  "realm \<in> set (crealms example_checked) \<Longrightarrow> r \<in> set (crealms example_checked) \<Longrightarrow>
     realm_address realm = realm_address r \<longleftrightarrow> realm = r"
  by (auto simp: example_crealms example_address char_of_eq_iff)

lemma realm_hosts_with:
  assumes tokens: "tokens_for (set (crealms example_checked)) tokens"
  shows "hosts (realm_env\<lparr>env_token := tokens\<rparr>) (set (crealms example_checked)) H (\<lambda>n. records H)"
  unfolding hosts_def
proof (intro conjI ballI allI impI)
  fix realm S st request
  assume realm: "realm \<in> set (crealms example_checked)" and S: "records H S st"
  have "realm_public_key realm = None"
    by (rule example_realms [OF realm])
  note run = realm_request [OF this realm tokens, of request st]
  obtain resp s where step: "realm_step example_curve answer_random (S realm) request = (resp, s)"
    by fastforce
  have url: "snd (world st) (realm_address realm @ ''req'') = (if realm \<in> H then Some (S realm) else None)"
    using S realm by (simp add: records_def)
  show "\<exists>r st'. make_request (realm_env\<lparr>env_token := tokens\<rparr>) realm request st = Some (r, st') \<and>
      (if realm \<in> H
       then \<exists>random resp s. realm_step (env_curve (realm_env\<lparr>env_token := tokens\<rparr>)) random (S realm) request = (resp, s) \<and>
         r = Ok resp \<and> records H (S(realm := s)) st'
       else \<exists>e. r = Err e \<and> records H S st')"
  proof (cases "realm \<in> H")
    case True
    have "records H (S(realm := s))
        (st\<lparr>world := (fst (world st), (snd (world st))(realm_address realm @ ''req'' := Some s))\<rparr>)"
      using S realm True example_addresses_differ by (auto simp: records_def)
    with True run url step show ?thesis
      by (auto simp del: fun_upd_apply)
  next
    case False
    with run url S show ?thesis
      by simp
  qed
qed (simp_all add: records_def take_count_def realm_env_def)

lemma realm_hosts: "hosts realm_env (set (crealms example_checked)) H (\<lambda>n. records H)"
  using realm_hosts_with [of "env_token realm_env" H] by (simp add: tokens_for_def)

definition realms_up :: "string realm set" where
  "realms_up = {example_realm 1, example_realm 2}"

text \<open>A registration whose third realm is down.\<close>

definition realm_state :: "(string realm \<times> gf5 register2_request) list \<Rightarrow> realm_world client_state" where
  "realm_state requests =
     \<lparr>world = (0, map_of (map (\<lambda>(realm, q). (realm_address realm @ ''req'', Registered q 0)) (take 2 requests))),
      sessions = (\<lambda>i. None)\<rparr>"

lemma realm_state_records:
  assumes "map fst requests = crealms example_checked"
  shows "\<exists>S. records realms_up S (realm_state requests) \<and> recovering realms_up requests 0 {} {} S"
proof -
  obtain q1 q2 q3 where q: "requests = [(example_realm 1, q1), (example_realm 2, q2), (example_realm 3, q3)]"
    using assms by (auto simp: example_crealms map_eq_Cons_conv)
  show ?thesis
    by (rule exI [of _ "\<lambda>realm. if realm = example_realm 1 then Registered q1 0 else Registered q2 0"])
      (simp add: q records_def recovering_def realm_state_def realms_up_def example_crealms example_realm_inject
        example_address char_of_eq_iff)
qed

lemma realm_env_registers:
  obtains requests st where "prepare_registration realm_env example_checked (Pin [1, 2]) (UserSecret [1, 2, 3])
     (UserInfo [3]) \<lparr>num_guesses = 5\<rparr> (realm_state []) = Some (Ok requests, st)"
proof -
  have pin: "\<exists>a s. pin_hash (env_prims realm_env) (Pin [1, 2])
      (config_pin_hashing_mode (the_configuration example_checked)) version (UserInfo [3]) = Some (Some (a, s))" for version
    using example_pin_hash by simp
  have "prim_laws (env_prims realm_env)" "user_secret_from [1, 2, 3] = Some (UserSecret [1, 2, 3])"
    using example_prim_laws by (simp_all add: user_secret_from_Some)
  then obtain requests st where "prepare_registration realm_env example_checked (Pin [1, 2]) (UserSecret [1, 2, 3])
     (UserInfo [3]) \<lparr>num_guesses = 5\<rparr> (realm_state []) = Some (Ok requests, st)"
    using prepare_registration_runs [OF _ checked_configuration_from_ok [OF example_checked] _ pin] by metis
  then show thesis
    by (rule that)
qed

text \<open>The hash of the examples keeps the first bytes of the PIN, and so does the commitment.\<close>

lemma pin_hash_byte:
  assumes "pin_hash example_prims (Pin pin) mode version info = Some (Some (a, s))"
    and "j < length pin" "j < 32"
  shows "bytes_of (expose_access_key a) ! j = pin ! j"
proof -
  obtain params where "pin_params example_prims mode = Some params"
    by (cases mode) (simp_all add: pin_params_def example_prims_def)
  then show ?thesis
    using assms by (auto simp: pin_hash_def pin_argon2_def Let_def bind_eq_Some_conv example_prims_def
        access_key_from_def expose_access_key_def Barray_inverse nth_append)
qed

lemma commitment_byte:
  assumes "length inp = 32" and "j < 11"
  shows "bytes_of (unlock_commitment_array (snd (derive_unlock_key_and_commitment example_prims
    (unoblivious_evaluate example_curve example_prims k inp)))) ! (21 + j) = inp ! j"
  using assms
  by (simp add: derive_unlock_key_and_commitment_def unoblivious_evaluate_def hash_to_output_def Let_def
      example_prims_def Barray_inverse ascii_def nth_append)

lemma example_separates:
  assumes "\<And>p i. (p, i) \<in> P \<Longrightarrow> length (user_info_bytes i) < 2 ^ 32"
    and "\<And>p i p' i'. (p, i) \<in> P \<Longrightarrow> (p', i') \<in> P \<Longrightarrow> (p', i') \<noteq> (p, i) \<Longrightarrow>
      \<exists>j < 11. j < length (pin_bytes p) \<and> j < length (pin_bytes p') \<and> pin_bytes p ! j \<noteq> pin_bytes p' ! j"
  shows "separates realm_env mode P"
proof -
  have differ: "commitment_of realm_env root ak' \<noteq> commitment_of realm_env root ak"
    if P: "(p, i) \<in> P" "(p', i') \<in> P" "(p', i') \<noteq> (p, i)"
      and hash: "pin_hash example_prims p mode version i = Some (Some (ak, seed))"
        "pin_hash example_prims p' mode version i' = Some (Some (ak', seed'))"
    for p i p' i' version ak seed ak' seed' root
  proof -
    obtain j where j: "j < 11" "j < length (pin_bytes p)" "j < length (pin_bytes p')" "pin_bytes p ! j \<noteq> pin_bytes p' ! j"
      using assms(2) [OF P] by blast
    have "bytes_of (expose_access_key ak) ! j \<noteq> bytes_of (expose_access_key ak') ! j"
      using pin_hash_byte [of "pin_bytes p" mode version i ak seed j] pin_hash_byte [of "pin_bytes p'" mode version i' ak' seed' j]
        hash j by simp
    then show ?thesis
      using commitment_byte [OF _ j(1), of "bytes_of (expose_access_key ak)" "PrivateKey root"]
        commitment_byte [OF _ j(1), of "bytes_of (expose_access_key ak')" "PrivateKey root"]
      by (auto simp: commitment_of_def)
  qed
  show ?thesis
    unfolding separates_def realm_env_sel
  proof (intro allI ballI)
    fix version pi assume pi: "pi \<in> P"
    obtain p i where eq: "pi = (p, i)"
      by fastforce
    obtain ak seed where hash: "pin_hash example_prims p mode version i = Some (Some (ak, seed))"
      using example_pin_hash assms(1) pi eq by blast
    show "case pi of (p, i) \<Rightarrow> \<exists>ak seed. pin_hash example_prims p mode version i = Some (Some (ak, seed)) \<and>
        (\<forall>root. \<forall>(p', i') \<in> P. \<forall>ak' seed'. (p', i') \<noteq> (p, i) \<longrightarrow>
           pin_hash example_prims p' mode version i' = Some (Some (ak', seed')) \<longrightarrow>
           commitment_of realm_env root ak' \<noteq> commitment_of realm_env root ak)"
      using hash differ [of p i] pi unfolding eq by blast
  qed
qed

end
