(* ===== verification/Client_Auth.thy ===== *)
theory Client_Auth
  imports Realm_Auth
begin

text \<open>
  The token generator of the SDK (rust/sdk/src/client_auth.rs): ids of secrets with their textual
  form, tokens made on the device when the tenant has no backend, and the hexadecimal form
  of its key in JSON. Reading and writing JSON itself is left to serde_json.
\<close>

section \<open>Secret ids\<close>

datatype secret_id = SecretId (secret_id_bytes: "16 barray")

definition secret_id_new_random :: "('r \<Rightarrow> 16 barray \<times> 'r) \<Rightarrow> 'r \<Rightarrow> secret_id \<times> 'r" where
  "secret_id_new_random generate rng = (let (i, rng') = generate rng in (SecretId i, rng'))"

text \<open>The format \<open>{byte:02x}\<close>.\<close>

definition hex_char :: "nat \<Rightarrow> char" where
  "hex_char n = (if n < 10 then char_of (48 + n) else char_of (87 + n))"

definition hex_byte :: "u8 \<Rightarrow> string" where
  "hex_byte b = [hex_char (unat b div 16), hex_char (unat b mod 16)]"

definition secret_id_debug :: "secret_id \<Rightarrow> string" where
  "secret_id_debug i = concat (map hex_byte (bytes_of (secret_id_bytes i)))"

definition secret_id_from_str :: "hex_codec \<Rightarrow> string \<Rightarrow> string + secret_id" where
  "secret_id_from_str X s =
     and_then (ok_or ''failed to decode hex id'' (hex_decode X s)) (\<lambda>v.
     and_then (ok_or ''invalid id length'' (array_try_from v)) (\<lambda>i. Ok (SecretId i)))"

section \<open>The generator\<close>

record auth_token_generator =
  generator_key :: auth_key
  generator_tenant :: string
  generator_version :: auth_key_version

definition vend ::
  "('k, 'v) jwt_lib \<Rightarrow> hex_codec \<Rightarrow> auth_token_generator \<Rightarrow> realm_id \<Rightarrow> secret_id \<Rightarrow> u64 \<Rightarrow>
     auth_token panics" where
  "vend J X self realm_id secret_id now =
     create_token J X
       \<lparr>claim_issuer = generator_tenant self,
        claim_subject = hex_encode X (bytes_of (secret_id_bytes secret_id)),
        claim_audience = realm_id, claim_scope = Some User\<rparr>
       (generator_key self) (generator_version self) now"

text \<open>
  The key of a generator is read as an EdDSA key whatever it was written as; \<open>hex_error\<close> is the
  text of the crate's error for a string it rejects.
\<close>

definition deserialize_auth_key ::
  "hex_codec \<Rightarrow> (string \<Rightarrow> string) \<Rightarrow> de_error + string \<Rightarrow> de_error + auth_key" where
  "deserialize_auth_key X hex_error inp =
     and_then inp (\<lambda>s.
     and_then (ok_or (De_custom (hex_error s)) (hex_decode X s)) (\<lambda>bs.
     Ok \<lparr>key_data = SecretBytesVec bs, key_algorithm = EdDSA\<rparr>))"

definition serialize_auth_key :: "hex_codec \<Rightarrow> auth_key \<Rightarrow> string" where
  "serialize_auth_key X key = hex_encode X (expose_auth_key key)"

section \<open>Lemmas\<close>

lemma deserialize_serialize_auth_key:
  "hex_laws X \<Longrightarrow> deserialize_auth_key X hex_error (Ok (serialize_auth_key X key)) = Ok (key\<lparr>key_algorithm := EdDSA\<rparr>)"
  by (cases key) (simp add: deserialize_auth_key_def serialize_auth_key_def hex_laws_def expose_auth_key_def)

text \<open>Printing a secret id agrees with the crate \<open>hex\<close> when that prints lower-case pairs, so it can be parsed.\<close>

lemma secret_id_roundtrip:
  assumes "hex_laws X" and "\<And>bs. hex_encode X bs = concat (map hex_byte bs)"
  shows "secret_id_from_str X (secret_id_debug i) = Ok i"
proof -
  have "hex_decode X (secret_id_debug i) = Some (bytes_of (secret_id_bytes i))"
    unfolding secret_id_debug_def using assms by (metis hex_laws_def)
  then show ?thesis
    by (simp add: secret_id_from_str_def)
qed

lemma vend_panics:
  "vend J X self realm_id secret_id now = None \<longleftrightarrow>
     \<not> issuer_regex (generator_tenant self) \<or>
     (case signing_key J (generator_key self) of
        None \<Rightarrow> True
      | Some k \<Rightarrow> jwt_sign J (with_key_id J (key_id_of (generator_tenant self) (generator_version self)) k)
          (with_subject J (hex_encode X (bytes_of (secret_id_bytes secret_id)))
            (with_issuer J (generator_tenant self)
              (with_audience J (hex_encode X (bytes_of (id_bytes realm_id)))
                (jwt_new_claims J (Some ''user'') 10 now)))) = None)"
  by (auto simp: vend_def create_token_def Let_def assert_that_def bind_eq_None_conv split: option.splits)

lemma vended_accepted:
  assumes "hex_laws X" and "jwt_laws J"
    and "deserialize_auth_key X hex_error (Ok text) = Ok (generator_key self)"
    and "vend J X self realm secret now = Some token"
    and "private_from_der J EdDSA (expose_auth_key (generator_key self)) = Some k"
    and "key_algorithm public = EdDSA" and "public_from_der J EdDSA (expose_auth_key public) = Some v"
    and "verifies J k v" and "length (expose_token token) \<le> 1000"
    and "now \<le> later" and "later < now + 600" and "now \<le> now + 600"
  shows "\<exists>claims. validate build J X (validator_new X realm (RequireScope User)) token public later = Some (Ok claims) \<and>
    claim_issuer claims = generator_tenant self \<and> claim_audience claims = realm \<and>
    secret_id_from_str X (claim_subject claims) = Ok secret \<and>
    token_key_id J token = Ok (generator_tenant self, generator_version self)"
proof -
  have "key_algorithm (generator_key self) = EdDSA"
    using assms(3) by (cases "generator_key self")
      (auto simp: deserialize_auth_key_def and_then_def ok_or_def split: option.splits)
  then have k: "signing_key J (generator_key self) = Some k" and v: "verifying_key_for J public = Some v"
    using assms(5-7) by (simp_all add: signing_key_def verifying_key_for_def)
  from validate_created [OF assms(1,2) assms(4) [unfolded vend_def] k v assms(8-12), of "RequireScope User" build]
  show ?thesis
    using assms(1) by (auto simp: secret_id_from_str_def hex_laws_def)
qed

section \<open>Properties\<close>

text \<open>Tokens vended on the device work: for a generator whose key was read from JSON, the token for
  a realm and a secret id is accepted by that realm when it holds the public key and
  requires the user scope; it names the tenant and the key version, and its subject
  is the secret id, from which the id can be read back.\<close>

lemma vended_token_accepted:
  assumes "hex_laws X" and "jwt_laws J"
    and "deserialize_auth_key X hex_error (Ok text) = Ok (generator_key self)"
    and "vend J X self realm secret now = Some token"
    and "private_from_der J EdDSA (expose_auth_key (generator_key self)) = Some k"
    and "key_algorithm public = EdDSA" and "public_from_der J EdDSA (expose_auth_key public) = Some v"
    and "verifies J k v" and "length (expose_token token) \<le> 1000"
    and "now \<le> later" and "later < now + 600" and "now \<le> now + 600"
  shows "\<exists>claims. validate build J X (validator_new X realm (RequireScope User)) token public later = Some (Ok claims) \<and>
    claim_issuer claims = generator_tenant self \<and> claim_audience claims = realm \<and>
    secret_id_from_str X (claim_subject claims) = Ok secret \<and>
    token_key_id J token = Ok (generator_tenant self, generator_version self)"
  by (rule vended_accepted [OF assms])

end
