(* ===== verification/Bridge.thy ===== *)
theory Bridge
  imports Client
begin

text \<open>
  The foreign interfaces (rust/sdk/bridge): the errors and enumerations that cross them, arrays
  with an owner on the other side, and the calls that Rust makes into foreign code and that
  complete by a callback: HTTP requests and requests for tokens. A pointer that may be null
  is an option; strings that come from C hold what \<open>CStr::to_str\<close> reads, \<open>None\<close> when that is
  not UTF-8. That foreign code frees what it is told to free is not modelled.
\<close>

section \<open>Enumerations (bridge/src/lib.rs)\<close>

datatype bridge_register_error =
    RegisterInvalidAuth
  | RegisterUpgradeRequired
  | RegisterRateLimitExceeded
  | RegisterAssertion
  | RegisterTransient

fun bridge_register_error_from :: "register_error \<Rightarrow> bridge_register_error" where
  "bridge_register_error_from register_error.InvalidAuth = RegisterInvalidAuth"
| "bridge_register_error_from register_error.UpgradeRequired = RegisterUpgradeRequired"
| "bridge_register_error_from register_error.Assertion = RegisterAssertion"
| "bridge_register_error_from register_error.Transient = RegisterTransient"
| "bridge_register_error_from register_error.RateLimitExceeded = RegisterRateLimitExceeded"

datatype recover_error_reason =
    InvalidPinReason
  | NotRegisteredReason
  | InvalidAuthReason
  | UpgradeRequiredReason
  | RateLimitExceededReason
  | AssertionReason
  | TransientReason

record bridge_recover_error =
  reason :: recover_error_reason
  guesses_remaining :: "u16 option"

fun bridge_recover_error_from :: "recover_error \<Rightarrow> bridge_recover_error" where
  "bridge_recover_error_from (recover_error.InvalidPin guesses) =
     \<lparr>reason = InvalidPinReason, guesses_remaining = Some guesses\<rparr>"
| "bridge_recover_error_from recover_error.NotRegistered =
     \<lparr>reason = NotRegisteredReason, guesses_remaining = None\<rparr>"
| "bridge_recover_error_from recover_error.InvalidAuth =
     \<lparr>reason = InvalidAuthReason, guesses_remaining = None\<rparr>"
| "bridge_recover_error_from recover_error.UpgradeRequired =
     \<lparr>reason = UpgradeRequiredReason, guesses_remaining = None\<rparr>"
| "bridge_recover_error_from recover_error.Assertion =
     \<lparr>reason = AssertionReason, guesses_remaining = None\<rparr>"
| "bridge_recover_error_from recover_error.Transient =
     \<lparr>reason = TransientReason, guesses_remaining = None\<rparr>"
| "bridge_recover_error_from recover_error.RateLimitExceeded =
     \<lparr>reason = RateLimitExceededReason, guesses_remaining = None\<rparr>"

datatype bridge_delete_error =
    DeleteInvalidAuth
  | DeleteUpgradeRequired
  | DeleteRateLimitExceeded
  | DeleteAssertion
  | DeleteTransient

fun bridge_delete_error_from :: "delete_error \<Rightarrow> bridge_delete_error" where
  "bridge_delete_error_from delete_error.InvalidAuth = DeleteInvalidAuth"
| "bridge_delete_error_from delete_error.UpgradeRequired = DeleteUpgradeRequired"
| "bridge_delete_error_from delete_error.Assertion = DeleteAssertion"
| "bridge_delete_error_from delete_error.Transient = DeleteTransient"
| "bridge_delete_error_from delete_error.RateLimitExceeded = DeleteRateLimitExceeded"

datatype bridge_pin_hashing_mode = BridgeStandard2019 | BridgeFastInsecure

text \<open>\<open>as u8\<close>: the declared discriminants.\<close>

fun bridge_pin_hashing_mode_code :: "bridge_pin_hashing_mode \<Rightarrow> u8" where
  "bridge_pin_hashing_mode_code BridgeStandard2019 = 0"
| "bridge_pin_hashing_mode_code BridgeFastInsecure = 1"

lemma bridge_pin_hashing_mode_total:
  "pin_hashing_mode_from (bridge_pin_hashing_mode_code m) =
     Some (case m of BridgeStandard2019 \<Rightarrow> Standard2019 | BridgeFastInsecure \<Rightarrow> FastInsecure)"
  by (cases m) (simp_all add: pin_hashing_mode_from_def)

section \<open>Arrays (ffi/src/array.rs)\<close>

text \<open>A managed array is a vector; an unmanaged one is a pointer with a length, null or to elements.\<close>

datatype 'a managed_array = ManagedArray (managed: "'a list")
datatype 'a unmanaged_array = UnmanagedArray (unmanaged: "'a list option")

definition to_unmanaged :: "'a managed_array \<Rightarrow> 'a unmanaged_array" where
  "to_unmanaged self = UnmanagedArray (Some (managed self))"

definition unmanaged_borrow :: "'a managed_array \<Rightarrow> 'a unmanaged_array" where
  "unmanaged_borrow self = UnmanagedArray (Some (managed self))"

definition unmanaged_is_null :: "'a unmanaged_array \<Rightarrow> bool" where
  "unmanaged_is_null self \<longleftrightarrow> unmanaged self = None"

definition unmanaged_null :: "'a unmanaged_array" where
  "unmanaged_null = UnmanagedArray None"

definition to_managed :: "'a unmanaged_array \<Rightarrow> 'a managed_array panics" where
  "to_managed self = map_option ManagedArray (unmanaged self)"

definition as_slice :: "'a unmanaged_array \<Rightarrow> 'a list panics" where
  "as_slice self = unmanaged self"

definition unmanaged_to_vec :: "'a unmanaged_array \<Rightarrow> 'a list panics" where
  "unmanaged_to_vec self = as_slice self"

section \<open>HTTP messages (ffi/src/http.rs)\<close>

datatype ffi_method = FfiGet | FfiPut | FfiPost | FfiDelete

fun ffi_method_from :: "http_method \<Rightarrow> ffi_method" where
  "ffi_method_from Get = FfiGet"
| "ffi_method_from DeleteMethod = FfiDelete"
| "ffi_method_from Post = FfiPost"
| "ffi_method_from Put = FfiPut"

record ffi_header =
  header_name_ptr :: "string option"
  header_value_ptr :: "string option"

record ffi_request =
  ffi_request_id :: "16 barray"
  ffi_request_method :: ffi_method
  ffi_request_url :: string
  ffi_request_headers :: "ffi_header unmanaged_array"
  ffi_request_body :: "u8 unmanaged_array"

record ffi_response =
  ffi_response_id :: "16 barray"
  ffi_status_code :: u16
  ffi_response_headers :: "ffi_header unmanaged_array"
  ffi_response_body :: "u8 unmanaged_array"

text \<open>\<open>CString::new(s).unwrap()\<close> panics on a NUL.\<close>

definition cstring_new :: "string \<Rightarrow> string panics" where
  "cstring_new s = (if CHR 0x00 \<in> set s then None else Some s)"

definition ffi_headers_from :: "headers \<Rightarrow> ffi_header managed_array panics" where
  "ffi_headers_from hs =
     map_option ManagedArray (those (map (\<lambda>(name, v). do {
       name_cstr \<leftarrow> cstring_new name;
       value_cstr \<leftarrow> cstring_new v;
       Some \<lparr>header_name_ptr = Some name_cstr, header_value_ptr = Some value_cstr\<rparr>
     }) hs))"

definition ffi_request_from :: "http_request \<Rightarrow> 16 barray \<Rightarrow> ffi_request panics" where
  "ffi_request_from request i = do {
     url \<leftarrow> cstring_new (http_url request);
     let body = (case http_body request of
       Some body \<Rightarrow> to_unmanaged (ManagedArray body) | None \<Rightarrow> unmanaged_null);
     hs \<leftarrow> ffi_headers_from (http_headers request);
     Some \<lparr>ffi_request_id = i, ffi_request_method = ffi_method_from (http_method request),
           ffi_request_url = url, ffi_request_headers = to_unmanaged hs, ffi_request_body = body\<rparr>
   }"

text \<open>The pairs whose name and value are UTF-8, collected into a map.\<close>

fun collect_headers :: "headers \<Rightarrow> ffi_header list \<Rightarrow> headers" where
  "collect_headers m [] = m"
| "collect_headers m (h # rest) =
     (case (header_name_ptr h, header_value_ptr h) of
        (Some name, Some v) \<Rightarrow> collect_headers (AList.update name v m) rest
      | _ \<Rightarrow> collect_headers m rest)"

definition http_response_from :: "ffi_response \<Rightarrow> http_response panics" where
  "http_response_from ffi = do {
     body \<leftarrow> unmanaged_to_vec (ffi_response_body ffi);
     hs \<leftarrow> as_slice (ffi_response_headers ffi);
     Some \<lparr>response_status = ffi_status_code ffi, response_headers = collect_headers [] hs,
           response_body = body\<rparr>
   }"

section \<open>Calls that complete by a callback\<close>

text \<open>
  A call makes a oneshot channel, files its sender under an id in a map, and waits on the
  receiver. A channel holds nothing yet, or the value sent, or is closed because its sender
  was dropped without sending. Calls are numbered in the order in which they are made.
\<close>

datatype 'a channel = Waiting | Sent 'a | Closed

record ('k, 'a) calls =
  pending :: "'k \<Rightarrow> nat option"
  channels :: "'a channel list"

definition no_calls :: "('k, 'a) calls" where
  "no_calls = \<lparr>pending = (\<lambda>k. None), channels = []\<rparr>"

text \<open>\<open>map.insert(id, tx)\<close> drops the sender that was under the id before.\<close>

definition open_call :: "'k \<Rightarrow> ('k, 'a) calls \<Rightarrow> ('k, 'a) calls" where
  "open_call k st =
     \<lparr>pending = (pending st)(k \<mapsto> length (channels st)),
      channels = (case pending st k of None \<Rightarrow> channels st | Some n \<Rightarrow> (channels st)[n := Closed]) @ [Waiting]\<rparr>"

text \<open>\<open>if let Some(tx) = map.remove(&id) { let _ = tx.send(response); }\<close>\<close>

definition receive_call :: "'k \<Rightarrow> 'a \<Rightarrow> ('k, 'a) calls \<Rightarrow> ('k, 'a) calls" where
  "receive_call k x st =
     (case pending st k of
        None \<Rightarrow> st
      | Some n \<Rightarrow> st\<lparr>pending := (pending st)(k := None), channels := (channels st)[n := Sent x]\<rparr>)"

text \<open>\<open>rx.await.unwrap()\<close>: not ready, a panic, or the value.\<close>

fun poll_unwrap :: "'a channel \<Rightarrow> 'a panics option" where
  "poll_unwrap Waiting = None"
| "poll_unwrap (Sent x) = Some (Some x)"
| "poll_unwrap Closed = Some None"

text \<open>
  The JNI client also removes a call whose request could not be handed over, and
  \<open>rx.await.unwrap_or(None)\<close> turns a closed channel into a failed request.
\<close>

definition jni_remove :: "'k \<Rightarrow> ('k, 'a) calls \<Rightarrow> ('k, 'a) calls" where
  "jni_remove k st =
     (case pending st k of
        None \<Rightarrow> st
      | Some n \<Rightarrow> st\<lparr>pending := (pending st)(k := None), channels := (channels st)[n := Closed]\<rparr>)"

fun poll_unwrap_or_none :: "'a option channel \<Rightarrow> 'a option option" where
  "poll_unwrap_or_none Waiting = None"
| "poll_unwrap_or_none (Sent x) = Some x"
| "poll_unwrap_or_none Closed = Some None"

subsection \<open>HTTP (ffi/src/http.rs)\<close>

type_synonym http_calls = "(16 barray, http_response option) calls"

text \<open>
  The client's state is behind an \<open>Arc\<close>: \<open>strong_count\<close> is its number of owners. The \<open>HttpClient\<close> is
  one of them, each context handed to foreign code by \<open>Arc::into_raw\<close> another. When the last owner
  is dropped the state is freed and the senders in its map with it; using the state
  afterwards is undefined behaviour, which is no result here, like a panic.
\<close>

record http_client_state =
  strong_count :: nat
  request_map :: http_calls

definition http_client_new :: http_client_state where
  "http_client_new = \<lparr>strong_count = 1, request_map = no_calls\<rparr>"

text \<open>All senders that have not sent are in the map: dropping the map closes what still waits.\<close>

fun hang_up :: "'a channel \<Rightarrow> 'a channel" where
  "hang_up Waiting = Closed"
| "hang_up (Sent x) = Sent x"
| "hang_up Closed = Closed"

lemma hang_up_not_waiting [simp]: "hang_up c \<noteq> Waiting" "Waiting \<noteq> hang_up c"
  by (cases c; simp)+

definition drop_calls :: "('k, 'a) calls \<Rightarrow> ('k, 'a) calls" where
  "drop_calls st = \<lparr>pending = (\<lambda>k. None), channels = map hang_up (channels st)\<rparr>"

definition drop_arc :: "http_client_state \<Rightarrow> http_client_state panics" where
  "drop_arc st =
     (case strong_count st of
        0 \<Rightarrow> None
      | Suc 0 \<Rightarrow> Some \<lparr>strong_count = 0, request_map = drop_calls (request_map st)\<rparr>
      | Suc n \<Rightarrow> Some (st\<lparr>strong_count := n\<rparr>))"

text \<open>
  \<open>HttpClient::send\<close> up to the wait: the \<open>Arc\<close> cloned, the request converted, its channel filed, and
  the foreign function called with it and with the clone as its context.
\<close>

definition ffi_http_send ::
  "http_request \<Rightarrow> 16 barray \<Rightarrow> http_client_state \<Rightarrow> (ffi_request \<times> http_client_state) panics" where
  "ffi_http_send request i st = do {
     assert_that (0 < strong_count st);
     request_ffi \<leftarrow> ffi_request_from request i;
     Some (request_ffi, st\<lparr>strong_count := strong_count st + 1,
       request_map := open_call (ffi_request_id request_ffi) (request_map st)\<rparr>)
   }"

text \<open>The callback: \<open>Arc::from_raw(context)\<close> is an owner until the end of its statement.\<close>

definition ffi_http_receive :: "bool \<Rightarrow> ffi_response option \<Rightarrow> http_client_state \<Rightarrow> http_client_state panics" where
  "ffi_http_receive context_null response_ffi st =
     (case response_ffi of
        None \<Rightarrow> Some st
      | Some ffi \<Rightarrow>
          if context_null then Some st
          else do {
            response \<leftarrow> http_response_from ffi;
            assert_that (0 < strong_count st);
            drop_arc (st\<lparr>request_map := receive_call (ffi_response_id ffi) (Some response) (request_map st)\<rparr>)
          })"

subsection \<open>Tokens (ffi/src/auth.rs)\<close>

record token_manager =
  next_await_id :: u64
  await_get_map :: "(u64, auth_token option) calls"

definition token_manager_new :: token_manager where
  "token_manager_new = \<lparr>next_await_id = 0, await_get_map = no_calls\<rparr>"

text \<open>\<open>fetch_add\<close> wraps around.\<close>

definition ffi_token_get :: "token_manager \<Rightarrow> token_manager" where
  "ffi_token_get st =
     \<lparr>next_await_id = next_await_id st + 1,
      await_get_map = open_call (next_await_id st) (await_get_map st)\<rparr>"

definition ffi_get_callback :: "bool \<Rightarrow> u64 \<Rightarrow> auth_token option \<Rightarrow> token_manager \<Rightarrow> token_manager" where
  "ffi_get_callback context_null context_id token st =
     (if context_null then st
      else st\<lparr>await_get_map := receive_call context_id token (await_get_map st)\<rparr>)"

section \<open>What calls should do\<close>

text \<open>
  The specification: the outcome of a call is the value of the first completion under its id
  after it was opened, nothing before that, and a closed channel if it was cancelled first, or
  if a completion of another call was the last thing that happened to the system.
\<close>

datatype ('k, 'a) call_event = Open 'k | Complete 'k 'a | CompleteLast 'k 'a | Cancel 'k | Ignored

fun apply_event :: "('k, 'a) call_event \<Rightarrow> ('k, 'a) calls \<Rightarrow> ('k, 'a) calls" where
  "apply_event (Open k) st = open_call k st"
| "apply_event (Complete k x) st = receive_call k x st"
| "apply_event (CompleteLast k x) st = drop_calls (receive_call k x st)"
| "apply_event (Cancel k) st = jni_remove k st"
| "apply_event Ignored st = st"

fun opened :: "('k, 'a) call_event list \<Rightarrow> 'k list" where
  "opened [] = []"
| "opened (Open k # es) = k # opened es"
| "opened (_ # es) = opened es"

fun first_completion :: "'k \<Rightarrow> ('k, 'a) call_event list \<Rightarrow> 'a channel" where
  "first_completion k [] = Waiting"
| "first_completion k (Complete j x # es) = (if j = k then Sent x else first_completion k es)"
| "first_completion k (CompleteLast j x # es) = (if j = k then Sent x else Closed)"
| "first_completion k (Cancel j # es) = (if j = k then Closed else first_completion k es)"
| "first_completion k (_ # es) = first_completion k es"

fun outcomes :: "('k, 'a) call_event list \<Rightarrow> 'a channel list" where
  "outcomes [] = []"
| "outcomes (Open k # es) = first_completion k es # outcomes es"
| "outcomes (_ # es) = outcomes es"

text \<open>Runs of a system with operations that may panic; each step is seen as an event on its calls.\<close>

inductive runs :: "('st \<Rightarrow> 'op \<Rightarrow> 'st panics) \<Rightarrow> ('st \<Rightarrow> 'op \<Rightarrow> 'ev) \<Rightarrow> 'st \<Rightarrow> 'ev list \<Rightarrow> 'st \<Rightarrow> bool"
  for step event where
  runs_nil: "runs step event st [] st"
| runs_snoc: "runs step event st es st' \<Longrightarrow> step st' x = Some st'' \<Longrightarrow>
    runs step event st (es @ [event st' x]) st''"

lemma opened_append [simp]: "opened (xs @ ys) = opened xs @ opened ys"
  by (induction xs rule: opened.induct) simp_all

lemma length_outcomes [simp]: "length (outcomes es) = length (opened es)"
  by (induction es rule: outcomes.induct) simp_all

lemma first_completion_append:
  "first_completion k (xs @ ys) =
     (case first_completion k xs of Waiting \<Rightarrow> first_completion k ys | c \<Rightarrow> c)"
  by (induction k xs rule: first_completion.induct) simp_all

definition cancels :: "('k, 'a) call_event \<Rightarrow> bool" where
  "cancels e \<longleftrightarrow> (\<exists>k. e = Cancel k) \<or> (\<exists>k x. e = CompleteLast k x)"

lemma first_completion_open: "\<forall>e \<in> set es. \<not> cancels e \<Longrightarrow> first_completion k es \<noteq> Closed"
  by (induction k es rule: first_completion.induct) (auto simp: cancels_def)

lemma outcomes_open:
  assumes "\<forall>e \<in> set es. \<not> cancels e" and "c \<in> set (outcomes es)"
  shows "poll_unwrap c \<noteq> Some None"
proof -
  have "c \<noteq> Closed"
    using assms by (induction es rule: outcomes.induct) (auto simp: first_completion_open [symmetric])
  then show ?thesis
    by (cases c) auto
qed

text \<open>What an event that ends the call \<open>k\<close> with the outcome \<open>o\<close> does to the outcome of the call \<open>j\<close>.\<close>

definition settle :: "'k \<Rightarrow> 'a channel \<Rightarrow> 'k \<Rightarrow> 'a channel \<Rightarrow> 'a channel" where
  "settle k x j c = (if c = Waiting \<and> j = k then x else c)"

definition end_call :: "'k \<Rightarrow> 'a channel \<Rightarrow> ('k, 'a) calls \<Rightarrow> ('k, 'a) calls" where
  "end_call k x st =
     (case pending st k of
        None \<Rightarrow> st
      | Some n \<Rightarrow> st\<lparr>pending := (pending st)(k := None), channels := (channels st)[n := x]\<rparr>)"

lemma end_call_eq: "receive_call k x = end_call k (Sent x)" "jni_remove k = end_call k Closed"
  by (auto simp: fun_eq_iff receive_call_def jni_remove_def end_call_def)

lemma outcomes_append:
  "outcomes (es @ [Open k]) = outcomes es @ [Waiting]"
  "outcomes (es @ [Ignored]) = outcomes es"
  "outcomes (es @ [Complete k x]) = map2 (settle k (Sent x)) (opened es) (outcomes es)"
  "outcomes (es @ [Cancel k]) = map2 (settle k Closed) (opened es) (outcomes es)"
  "outcomes (es @ [CompleteLast k x]) = map hang_up (map2 (settle k (Sent x)) (opened es) (outcomes es))"
  by (induction es rule: outcomes.induct)
    (auto simp: first_completion_append settle_def split: channel.split)

text \<open>With distinct ids, the map holds exactly the calls that wait.\<close>

definition tracks :: "('k, 'a) call_event list \<Rightarrow> ('k, 'a) calls \<Rightarrow> bool" where
  "tracks es st \<longleftrightarrow> channels st = outcomes es \<and>
     (\<forall>k n. pending st k = Some n \<longleftrightarrow> n < length (opened es) \<and> opened es ! n = k \<and> outcomes es ! n = Waiting)"

lemma tracks_no_calls: "tracks [] no_calls"
  by (simp add: tracks_def no_calls_def)

lemma tracks_open:
  assumes t: "tracks es st" and fresh: "k \<notin> set (opened es)"
  shows "tracks (es @ [Open k]) (open_call k st)"
proof -
  have "pending st k = None"
    using t fresh by (cases "pending st k") (auto simp: tracks_def)
  moreover have "length (channels st) = length (opened es)"
    using t by (simp add: tracks_def)
  ultimately show ?thesis
    using t fresh
    by (auto simp: tracks_def open_call_def outcomes_append nth_append less_Suc_eq split: if_splits)
qed

lemma settle_one:
  assumes d: "distinct ks" and len: "length cs = length ks" and n: "n < length ks" "ks ! n = k" "cs ! n = Waiting"
  shows "map2 (settle k x) ks cs = cs[n := x]"
proof (rule nth_equalityI)
  fix m assume "m < length (map2 (settle k x) ks cs)"
  then have m: "m < length ks"
    by simp
  then have "ks ! m = k \<longleftrightarrow> m = n"
    using nth_eq_iff_index_eq [OF d m n(1)] n(2) by simp
  then show "map2 (settle k x) ks cs ! m = cs[n := x] ! m"
    using m n len by (cases "m = n") (simp_all add: settle_def)
qed (simp add: len)

lemma tracks_end:
  assumes t: "tracks es st" and d: "distinct (opened es)" and x: "x \<noteq> Waiting"
    and e: "opened (es @ [e]) = opened es" "outcomes (es @ [e]) = map2 (settle k x) (opened es) (outcomes es)"
  shows "tracks (es @ [e]) (end_call k x st)"
proof (cases "pending st k")
  case None
  have "outcomes es ! n \<noteq> Waiting" if "n < length (opened es)" "opened es ! n = k" for n
    using t None that unfolding tracks_def by (metis option.distinct(1))
  then have "map2 (settle k x) (opened es) (outcomes es) = outcomes es"
    by (intro nth_equalityI) (auto simp: settle_def)
  then show ?thesis
    using t None e by (simp add: tracks_def end_call_def)
next
  case (Some n)
  then have n: "n < length (opened es)" "opened es ! n = k" "outcomes es ! n = Waiting"
    using t by (auto simp: tracks_def)
  have only: "m = n" if "m < length (opened es)" "opened es ! m = k" for m
    using nth_eq_iff_index_eq [OF d that(1) n(1)] that(2) n(2) by simp
  have settled: "map2 (settle k x) (opened es) (outcomes es) = (outcomes es)[n := x]"
    by (rule settle_one [OF d _ n]) simp
  have pend: "((pending st)(k := None)) j = Some m \<longleftrightarrow>
      m < length (opened es) \<and> opened es ! m = j \<and> (outcomes es)[n := x] ! m = Waiting" for j m
  proof -
    have "pending st j = Some m \<longleftrightarrow> m < length (opened es) \<and> opened es ! m = j \<and> outcomes es ! m = Waiting"
      using t unfolding tracks_def by blast
    moreover have "j \<noteq> k" if "m < length (opened es)" "opened es ! m = j" "m \<noteq> n"
      using only [OF that(1)] that(2,3) by blast
    ultimately show ?thesis
      using n x by (cases "m = n") auto
  qed
  have "end_call k x st = st\<lparr>pending := (pending st)(k := None), channels := (outcomes es)[n := x]\<rparr>"
    using Some conjunct1 [OF t [unfolded tracks_def]] by (simp add: end_call_def)
  then show ?thesis
    using e by (simp add: tracks_def settled pend del: fun_upd_apply opened_append)
qed

lemma tracks_complete:
  assumes "tracks es st" and "distinct (opened es)"
  shows "tracks (es @ [Complete k x]) (receive_call k x st)"
  using assms tracks_end [of es st "Sent x" "Complete k x" k] by (simp add: outcomes_append end_call_eq)

lemma tracks_last:
  assumes "tracks es st" and "distinct (opened es)"
  shows "tracks (es @ [CompleteLast k x]) (drop_calls (receive_call k x st))"
  using tracks_complete [OF assms, of k x] by (simp add: tracks_def drop_calls_def outcomes_append del: map_map)

lemma tracks_apply:
  assumes "tracks es st" and "distinct (opened (es @ [e]))"
  shows "tracks (es @ [e]) (apply_event e st)"
proof (cases e)
  case (Open k)
  then show ?thesis
    using assms tracks_open [of es st] by simp
next
  case (Complete k x)
  then show ?thesis
    using assms tracks_complete [of es st k x] by simp
next
  case (CompleteLast k x)
  then show ?thesis
    using assms tracks_last [of es st k x] by simp
next
  case (Cancel k)
  then show ?thesis
    using assms tracks_end [of es st Closed e k] by (simp add: outcomes_append end_call_eq)
next
  case Ignored
  then show ?thesis
    using assms by (simp add: tracks_def outcomes_append)
qed

text \<open>Every system whose steps act on its calls as their events say.\<close>

locale call_system =
  fixes step :: "'st \<Rightarrow> 'op \<Rightarrow> 'st panics" and event :: "'st \<Rightarrow> 'op \<Rightarrow> ('k, 'a) call_event"
    and the_calls :: "'st \<Rightarrow> ('k, 'a) calls"
  assumes refines: "step st x = Some st' \<Longrightarrow> the_calls st' = apply_event (event st x) (the_calls st)"
begin

lemma runs_track:
  assumes "runs step event st es st'" and "the_calls st = no_calls" and "distinct (opened es)"
  shows "tracks es (the_calls st')"
  using assms
proof (induction rule: runs.induct)
  case (runs_snoc st es st' x st'')
  then show ?case
    using refines [OF runs_snoc.hyps(2)] tracks_apply [of es "the_calls st'"] by simp
qed (simp add: tracks_no_calls)

lemma answered:
  assumes "runs step event st es st'" and "the_calls st = no_calls" and "distinct (opened es)"
  shows "channels (the_calls st') = outcomes es"
  using runs_track [OF assms] by (simp add: tracks_def)

text \<open>When no event cancels a call, no call ends in a closed channel.\<close>

lemma open_unless_cancelled:
  assumes "runs step event st es st'" and "the_calls st = no_calls" and "distinct (opened es)"
    and "\<forall>e \<in> set es. \<not> cancels e" and "c \<in> set (channels (the_calls st'))"
  shows "poll_unwrap c \<noteq> Some None"
  using answered [OF assms(1-3)] outcomes_open assms(4,5) by simp

end

locale reliable_calls = call_system +
  assumes never_cancels: "\<not> cancels (event st x)"
begin

lemma no_panic:
  assumes "runs step event st es st'" and "the_calls st = no_calls" and "distinct (opened es)"
    and "c \<in> set (channels (the_calls st'))"
  shows "poll_unwrap c \<noteq> Some None"
proof -
  have "\<forall>e \<in> set es. \<not> cancels e"
    using assms(1) by (induction rule: runs.induct) (auto simp: never_cancels)
  then show ?thesis
    using open_unless_cancelled [OF assms(1-3) _ assms(4)] by blast
qed

end

section \<open>The two systems\<close>

datatype http_op = HttpSend http_request "16 barray" | HttpReceive bool "ffi_response option"

fun http_step :: "http_client_state \<Rightarrow> http_op \<Rightarrow> http_client_state panics" where
  "http_step st (HttpSend request i) = map_option snd (ffi_http_send request i st)"
| "http_step st (HttpReceive context_null response) = ffi_http_receive context_null response st"

text \<open>
  A callback with a response completes its call, and ends all the others when it drops the last owner of
  the state; a callback without a response completes nothing.
\<close>

fun http_event :: "http_client_state \<Rightarrow> http_op \<Rightarrow> (16 barray, http_response option) call_event" where
  "http_event st (HttpSend request i) = Open i"
| "http_event st (HttpReceive False (Some ffi)) =
     (if strong_count st = 1 then CompleteLast else Complete) (ffi_response_id ffi) (Some (the (http_response_from ffi)))"
| "http_event st (HttpReceive _ _) = Ignored"

lemma drop_arc_Some:
  "drop_arc st = Some st' \<longleftrightarrow> Suc (strong_count st') = strong_count st \<and>
     request_map st' = (if strong_count st = 1 then drop_calls (request_map st) else request_map st)"
  by (cases st; cases st') (auto simp: drop_arc_def split: nat.splits)

interpretation http: call_system http_step http_event request_map
proof
  fix st x st'
  show "http_step st x = Some st' \<Longrightarrow> request_map st' = apply_event (http_event st x) (request_map st)"
    by (cases "(st, x)" rule: http_event.cases)
      (auto simp: ffi_http_send_def ffi_http_receive_def ffi_request_from_def drop_arc_Some bind_eq_Some_conv Let_def
        split: option.splits if_splits)
qed

text \<open>Every callback with a response uses up an owner of the state, every request adds one.\<close>

fun callbacks :: "('k, 'a) call_event list \<Rightarrow> nat" where
  "callbacks [] = 0"
| "callbacks (Complete k x # es) = Suc (callbacks es)"
| "callbacks (CompleteLast k x # es) = Suc (callbacks es)"
| "callbacks (_ # es) = callbacks es"

lemma callbacks_append [simp]: "callbacks (xs @ ys) = callbacks xs + callbacks ys"
  by (induction xs rule: callbacks.induct) simp_all

lemma http_owners:
  assumes "runs http_step http_event http_client_new es st"
  shows "strong_count st + callbacks es = Suc (length (opened es)) \<and>
    (0 < strong_count st \<longrightarrow> (\<forall>e \<in> set es. \<not> cancels e))"
  using assms
proof (induction http_client_new es st rule: runs.induct)
  case runs_nil
  then show ?case
    by (simp add: http_client_new_def)
next
  case (runs_snoc es st' x st'')
  then show ?case
    by (cases "(st', x)" rule: http_event.cases)
      (auto simp: ffi_http_send_def ffi_http_receive_def drop_arc_Some bind_eq_Some_conv cancels_def
        split: option.splits if_splits)
qed

datatype token_op = TokenGet | TokenCallback bool u64 "auth_token option"

fun token_step :: "token_manager \<Rightarrow> token_op \<Rightarrow> token_manager panics" where
  "token_step st TokenGet = Some (ffi_token_get st)"
| "token_step st (TokenCallback context_null i token) = Some (ffi_get_callback context_null i token st)"

fun token_event :: "token_manager \<Rightarrow> token_op \<Rightarrow> (u64, auth_token option) call_event" where
  "token_event st TokenGet = Open (next_await_id st)"
| "token_event st (TokenCallback True i token) = Ignored"
| "token_event st (TokenCallback False i token) = Complete i token"

interpretation tokens: reliable_calls token_step token_event await_get_map
proof
  fix st x st'
  show "token_step st x = Some st' \<Longrightarrow> await_get_map st' = apply_event (token_event st x) (await_get_map st)"
    by (cases "(st, x)" rule: token_event.cases) (auto simp: ffi_token_get_def ffi_get_callback_def)
  show "\<not> cancels (token_event st x)"
    by (cases "(st, x)" rule: token_event.cases) (simp_all add: cancels_def)
qed

lemma token_ids:
  assumes "runs token_step token_event token_manager_new es st"
  shows "opened es = map of_nat [0..<length (opened es)] \<and> next_await_id st = of_nat (length (opened es))"
  using assms
proof (induction token_manager_new es st rule: runs.induct)
  case runs_nil
  then show ?case
    by (simp add: token_manager_new_def)
next
  case (runs_snoc es st' x st'')
  then show ?case
    by (cases "(st', x)" rule: token_event.cases) (auto simp: ffi_token_get_def ffi_get_callback_def)
qed

lemma token_ids_distinct:
  assumes "runs token_step token_event token_manager_new es st" and "length (opened es) \<le> 2 ^ 64"
  shows "distinct (opened es)"
proof -
  have inv: "unat (of_nat m :: u64) = m" if "m < length (opened es)" for m
    by (rule of_nat_inverse [OF refl]) (use that assms(2) in simp)
  have "inj_on (of_nat :: nat \<Rightarrow> u64) {..<length (opened es)}"
    by (rule inj_on_inverseI [where g = unat]) (simp add: inv)
  then have "distinct (map (of_nat :: nat \<Rightarrow> u64) [0..<length (opened es)])"
    by (simp add: distinct_map atLeast0LessThan)
  then show ?thesis
    using token_ids [OF assms(1)] by metis
qed

section \<open>Properties\<close>

text \<open>C31. HTTP requests across the C interface, while their \<open>HttpClient\<close> lives: the state is owned by it and
  by one context for each request that no callback with a response has used up. Whatever the order of
  requests and callbacks, when the random ids differ and there were no more callbacks
  with a response and a context than requests, the state is not freed, every request waits until the first
  callback with its id and a response, gets exactly that response and keeps it whatever callbacks
  follow, and no request panics. A callback with a null response completes nothing and leaves the
  owners as they were.\<close>

theorem http_requests_answered:
  assumes "runs http_step http_event http_client_new es st" and "distinct (opened es)"
    and "callbacks es \<le> length (opened es)"
  shows "strong_count st = 1 + (length (opened es) - callbacks es) \<and>
    channels (request_map st) = outcomes es \<and>
    (\<forall>c \<in> set (channels (request_map st)). poll_unwrap c \<noteq> Some None) \<and>
    http_step st (HttpReceive False None) = Some st"
proof -
  have new: "request_map http_client_new = no_calls"
    by (simp add: http_client_new_def)
  have "strong_count st = 1 + (length (opened es) - callbacks es)" "\<forall>e \<in> set es. \<not> cancels e"
    using http_owners [OF assms(1)] assms(3) by auto
  with http.answered [OF assms(1) new assms(2)] http.open_unless_cancelled [OF assms(1) new assms(2)]
  show ?thesis
    by (auto simp: ffi_http_receive_def)
qed

text \<open>
  One callback more than there were requests drops the owner that is the \<open>HttpClient\<close> itself: the state is
  freed under it, the requests that still wait end in a panic, and nothing can be done with the
  client any more, not even a further request.
\<close>

lemma callback_too_many:
  assumes "runs http_step http_event http_client_new es st" and "callbacks es = length (opened es)"
    and "http_response_from ffi \<noteq> None"
  shows "\<exists>st'. http_step st (HttpReceive False (Some ffi)) = Some st' \<and> strong_count st' = 0 \<and>
    Waiting \<notin> set (channels (request_map st')) \<and> http_step st' (HttpSend request i) = None"
proof -
  have one: "strong_count st = 1"
    using http_owners [OF assms(1)] assms(2) by simp
  from assms(3) obtain response where response: "http_response_from ffi = Some response"
    by blast
  then show ?thesis
    using one by (auto simp: ffi_http_receive_def ffi_http_send_def drop_arc_def drop_calls_def)
qed

text \<open>C32. Requests for tokens across the C interface: the counter gives different ids for the first
  \<open>2 ^ 64\<close> requests, so each of them waits until the first callback with its id and gets
  what that callback brings, a token or none.\<close>

theorem token_requests_answered:
  assumes "runs token_step token_event token_manager_new es st" and "length (opened es) \<le> 2 ^ 64"
  shows "channels (await_get_map st) = outcomes es \<and> opened es = map of_nat [0..<length (opened es)] \<and>
    (\<forall>c \<in> set (channels (await_get_map st)). poll_unwrap c \<noteq> Some None)"
proof -
  have "await_get_map token_manager_new = no_calls"
    by (simp add: token_manager_new_def)
  from tokens.answered [OF assms(1) this token_ids_distinct [OF assms]] token_ids [OF assms(1)]
    tokens.no_panic [OF assms(1) this token_ids_distinct [OF assms]]
  show ?thesis
    by blast
qed

text \<open>A request whose callback carries a null response, as the Swift client makes it when a
  connection fails, waits for ever.\<close>

lemma null_response_waits:
  assumes "ffi_http_receive False None st = Some st'"
  shows "st' = st"
  using assms by (simp add: ffi_http_receive_def)

end
