(* ===== verification/Witnesses.thy ===== *)
theory Witnesses
  imports Honest_Realms Client_Auth Bridge
begin

text \<open>
  Every property that assumes something, applied to the instance of the theory \<open>Examples\<close>:
  its hypotheses hold there, so none of the properties is vacuous.
\<close>

section \<open>Cryptography\<close>

text \<open>Two of three shares of the scalar 2, with the polynomial \<open>2 + x\<close>.\<close>

definition draw_gf :: "nat \<Rightarrow> gf5 \<times> nat" where
  "draw_gf n = (gf_of n, Suc n)"

definition example_shares :: "gf5 share list" where
  "example_shares = [\<lparr>share_idx = Index 1, share_secret = G3\<rparr>,
     \<lparr>share_idx = Index 2, share_secret = G4\<rparr>, \<lparr>share_idx = Index 3, share_secret = G0\<rparr>]"

lemma example_shares_created:
  "create_shares (scalar_from example_curve) (*) draw_gf G2 2 3 1 = Some (example_shares, 2)"
  by code_simp

lemma example_points_created:
  "create_shares (scalar_from example_curve) (point_mul example_curve) draw_gf G2 2 3 1 = Some (example_shares, 2)"
  using example_shares_created by (simp add: example_curve_def)

theorem shamir_recovers_scalar_witness:
  "recover_secret (scalar_from example_curve) (*) [example_shares ! 2, example_shares ! 0] = Ok G2 \<and>
   recover_secret (scalar_from example_curve) (*) [example_shares ! 2, example_shares ! 2] = Err DuplicateShares"
  using shamir_recovers_scalar [OF example_shares_created example_curve_inj,
      of "[example_shares ! 2, example_shares ! 0]"]
    shamir_recovers_scalar [OF example_shares_created example_curve_inj,
      of "[example_shares ! 2, example_shares ! 2]"]
  by (simp add: example_shares_def)

theorem shares_hide_secret_witness:
  "\<exists>!cs. length cs = 1 \<and>
    (\<exists>shares'. create_shares (scalar_from example_curve) (*) next_coefficient G4 2 3 cs = Some (shares', []) \<and>
       example_shares ! 1 \<in> set shares')"
proof -
  have "unat v \<in> {1, 2, 3}" if "v \<in> {1..3}" for v :: u32
    using that by (auto simp: word_le_nat_alt)
  then have "0 \<notin> scalar_from example_curve ` {1..3}"
    by (fastforce simp: example_curve_def gf_of_def gf_defs)
  then show ?thesis
    using shares_hide_secret [OF example_shares_created example_curve_inj, of "[example_shares ! 1]" G4]
    by (simp add: example_shares_def)
qed

definition example_input :: "gf5 blinded_input" where
  "example_input = BlindedInput (precompressed_from example_curve G1)"

lemma example_blinded:
  "oprf_start example_curve [1, 2] draw_gf 2 = ((BlindingFactor G2, example_input), 3)"
  by (simp add: oprf_start_def example_input_def draw_gf_def example_curve_def gf_hash_def gf_defs)

theorem threshold_oprf_witness:
  "\<exists>P. recover_secret (scalar_from example_curve) (point_mul example_curve)
      (map (evaluated_share example_curve example_input) [example_shares ! 2, example_shares ! 0]) = Ok P \<and>
    oprf_finalize example_curve example_prims [1, 2] (BlindingFactor G2) (blinded_output_from example_curve P) =
      unoblivious_evaluate example_curve example_prims (PrivateKey G2) [1, 2]"
  by (rule threshold_oprf [OF example_curve_laws example_shares_created example_curve_inj _ _ _ example_blinded])
    (simp_all add: example_shares_def zero_gf5_def)

theorem oprf_proof_complete_witness:
  "oprf_verify_proof Debug example_curve example_input
     (blind_evaluate example_curve (PrivateKey G3) example_input)
     (to_public_key example_curve (PrivateKey G3))
     (snd (fst (blind_verifiable_evaluate example_curve (PrivateKey G3)
        (to_public_key example_curve (PrivateKey G3)) example_input draw_gf 4))) = Some (Ok ())"
  by (rule oprf_proof_complete [OF example_curve_laws example_blinded])
    (simp add: blind_verifiable_evaluate_def split_beta Let_def)

theorem dleq_special_soundness_witness:
  "\<exists>beta. G2 = mul_base example_curve beta \<and> G1 = point_mul example_curve G3 beta"
proof -
  let ?u = "precompressed_from example_curve G3" and ?v = "precompressed_from example_curve G2"
    and ?w = "precompressed_from example_curve G1"
  let ?q = "verifier_query example_curve ?u ?v ?w"
  have same: "?q \<lparr>proof_c = c, proof_beta_z = c * G2\<rparr> = ?q \<lparr>proof_c = 0, proof_beta_z = 0\<rparr>" for c
    by (cases c) (simp_all add: verifier_query_def dleq_commitments_def example_curve_def precompressed_from_def gf_defs)
  obtain c where c: "c = gf_hash (?q \<lparr>proof_c = 0, proof_beta_z = 0\<rparr>)"
    by blast
  have first: "dleq_verify_proof Release example_curve ?u ?v ?w \<lparr>proof_c = c, proof_beta_z = c * G2\<rparr> = Some (Ok ())"
    using same [of c] by (simp add: dleq_verify_proof_total [OF example_curve_laws] hash_to_challenge_def
        verifier_query_def Let_def split_beta c) (simp add: example_curve_def)
  have second: "dleq_verify_proof Release (example_curve\<lparr>scalar_from_sha512 := (\<lambda>bs. c + 1)\<rparr>) ?u ?v ?w
      \<lparr>proof_c = c + 1, proof_beta_z = (c + 1) * G2\<rparr> = Some (Ok ())"
    using example_curve_laws by (simp add: dleq_verify_proof_total hash_to_challenge_def curve_laws_def)
  have "scalar_from_sha512 example_curve (?q \<lparr>proof_c = c, proof_beta_z = c * G2\<rparr>) \<noteq> c + 1"
    using same [of c] by (simp add: example_curve_def c)
  from dleq_special_soundness [OF example_curve_laws first second _ this] same [of c] same [of "c + 1"]
  show ?thesis
    by (simp add: precompressed_from_def)
qed

theorem mac_inputs_separate_witness:
  "unlock_key_tag_input (RealmId zero_array) \<noteq>
     secret_commitment_input example_curve (RealmId zero_array) (ScalarShare G1) (EncryptedUserSecret zero_array) \<and>
   secret_commitment_input example_curve (RealmId zero_array) (ScalarShare G1) (EncryptedUserSecret zero_array) \<noteq>
     secret_commitment_input example_curve (RealmId zero_array) (ScalarShare G2) (EncryptedUserSecret zero_array)"
  using mac_inputs_separate [OF example_curve_laws, of example_prims _ "RealmId zero_array" "ScalarShare G1"
      "EncryptedUserSecret zero_array" "RealmId zero_array" "ScalarShare G2" "EncryptedUserSecret zero_array"]
    mac_inputs_separate [OF example_curve_laws, of example_prims _ "RealmId zero_array" "ScalarShare G1"
      "EncryptedUserSecret zero_array" "RealmId zero_array" "ScalarShare G1" "EncryptedUserSecret zero_array"]
  by simp

section \<open>Noise\<close>

theorem handshake_agreement_witness:
  "\<exists>ch req sh resp ct st.
    client_start_with_secret example_prims (fit [1]) (x25519_public example_prims (fit [2])) [] [1, 2, 3] =
      Some (Ok (ch, req)) \<and>
    server_start_with_secret example_prims (fit [3]) (fit [2], x25519_public example_prims (fit [2])) [] req =
      Some (Ok (sh, [1, 2, 3])) \<and>
    server_finish example_prims sh [4] = Some (Ok (st, resp)) \<and>
    client_finish example_prims ch resp = Some (Ok (ct, [4])) \<and> transport_paired example_prims ct st"
  by (rule handshake_agreement [OF example_prim_laws]) simp_all

definition example_transport :: "nat \<Rightarrow> nat \<Rightarrow> transport" where
  "example_transport k l = \<lparr>inbound = cipher_state_new (fit [of_nat k]), outbound = cipher_state_new (fit [of_nat l])\<rparr>"

theorem nonces_distinct_witness:
  "\<exists>ns. nonces_used 3 (cipher_state_new zero_array) = Some ns \<and> distinct ns \<and> nonce_bytes (- 1) \<notin> set ns"
proof -
  obtain ns where "nonces_used 3 (cipher_state_new zero_array) = Some ns"
    by (simp add: numeral_3_eq_3 next_nonce_def cipher_state_new_def)
  then show ?thesis
    using nonces_distinct [of 3 "cipher_state_new zero_array"] by blast
qed

section \<open>Configuration, transport, joins\<close>

theorem checked_configuration_spec_witness:
  "length (realms example_configuration) < 2 * unat (recover_threshold example_configuration) \<and>
   mset (crealms example_checked) = mset (realms example_configuration) \<and>
   sorted_wrt (<) (map realm_id (crealms example_checked))"
  using checked_configuration_spec [of example_configuration] example_checked by blast

definition lost :: "http_request \<Rightarrow> nat \<Rightarrow> http_response option \<times> nat" where
  "lost q n = (Some \<lparr>response_status = 503, response_headers = [], response_body = [7]\<rparr>, Suc n)"

definition three_futures :: "(example_world client_state, bool, nat) step list" where
  "three_futures = [io_return 4, io_err True, io_return 5]"

theorem join_at_least_threshold_spec_witness:
  "join_at_least_threshold example_env three_futures 2 example_state = Some (Ok [4, 5], example_state) \<and>
   (\<exists>rs. run_all (in_order [0, 1, 2] three_futures) example_state = Some (rs, example_state) \<and> [4, 5] = oks_of rs)"
proof -
  have run: "join_at_least_threshold example_env three_futures 2 example_state = Some (Ok [4, 5], example_state)"
    by (simp add: join_at_least_threshold_def three_futures_def io_defs io_world_def in_order_def upt_rec Let_def)
  have "run_all (in_order [0, 1, 2] three_futures) (example_state\<lparr>world := world example_state\<rparr>) \<noteq> None"
    by (simp add: three_futures_def in_order_def io_return_def io_err_def)
  moreover have "env_executor example_env (length three_futures) (world example_state) = ([0, 1, 2], world example_state)"
    by (simp add: three_futures_def upt_rec)
  ultimately show ?thesis
    using join_at_least_threshold_spec [OF example_executor_ok, of three_futures example_state "[0, 1, 2]"
      "world example_state" 2] run by simp
qed

section \<open>Requests\<close>

theorem forward_secrecy_witness:
  "\<exists>qs. list_all (\<lambda>q. \<exists>cr. carries example_env cr q \<and>
      (handshake_for example_env (replicate 32 5) [] cr \<or> transport_for cr)) qs \<and> length qs \<le> 10 \<and>
    map_option (\<lambda>x. snd (world (snd x))) (make_hardware_realm_request example_env hardware_realm (replicate 32 5)
      (Recover3 \<lparr>rec3_version = RegistrationVersion zero_array, rec3_unlock_key_tag = UnlockKeyTag zero_array\<rparr>)
      example_state) = Some qs"
proof -
  let ?q = "Recover3 \<lparr>rec3_version = RegistrationVersion zero_array, rec3_unlock_key_tag = UnlockKeyTag zero_array\<rparr>"
  obtain st' where run: "make_hardware_realm_request example_env hardware_realm (replicate 32 5) ?q example_state =
      Some (Err request_error.Transient, st')"
    using example_hardware by blast
  have "needs_forward_secrecy (?q :: (gf5, gf5) secrets_request)"
    by simp
  from forward_secrecy [OF example_logged this run] run show ?thesis
    by (auto simp: example_state_def)
qed

theorem request_bounds_witness:
  "\<exists>r st' qs. make_request example_env (example_realm 1) Delete example_state = Some (r, st') \<and>
     snd (world st') = qs \<and> length qs \<le> 2 \<and> list_all posts qs"
proof -
  obtain st' where run: "make_request example_env (example_realm 1) Delete example_state =
      Some (Err request_error.Transient, st')"
    using example_software [of "example_realm 1"] by (auto simp: example_realm_def)
  from request_bounds [OF example_logged run] run show ?thesis
    by (auto simp: example_state_def example_realm_def)
qed

theorem session_isolation_witness:
  "\<exists>r st'. make_request example_env (example_realm 1) Delete example_state = Some (r, st') \<and>
     sessions st' = sessions example_state"
proof -
  obtain st' where run: "make_request example_env (example_realm 1) Delete example_state =
      Some (Err request_error.Transient, st')"
    using example_software [of "example_realm 1"] by (auto simp: example_realm_def)
  from session_isolation [OF run] run show ?thesis
    by (auto simp: example_realm_def)
qed

definition live_session :: session where
  "live_session = \<lparr>session_session_id = SessionId 1, session_transport = example_transport 1 2,
     session_lifetime = 5, session_last_used = 4\<rparr>"

definition live_state :: "example_world client_state" where
  "live_state = example_state\<lparr>sessions := (sessions example_state)(realm_id hardware_realm \<mapsto> Some live_session)\<rparr>"

theorem session_lifetime_respected_witness:
  "\<exists>st1 st2. take_session example_env (realm_id hardware_realm) live_state =
        Some (Ok (Some live_session) :: request_error + session option, st1) \<and>
      sessions st1 (realm_id hardware_realm) = Some None \<and>
      fst (env_now example_env (world live_state)) - session_last_used live_session < session_lifetime live_session \<and>
    hardware_attempts example_env hardware_realm (replicate 32 5) [] False [1, 2] example_state =
      Some (Err request_error.Transient, st2) \<and> sessions st2 (realm_id hardware_realm) = Some None"
proof -
  obtain st1 where take: "take_session example_env (realm_id hardware_realm) live_state =
      Some (Ok (Some live_session) :: request_error + session option, st1)"
    by (simp add: take_session_def live_state_def live_session_def Let_def)
  obtain st2 where run: "hardware_attempts example_env hardware_realm (replicate 32 5) [] False [1, 2] example_state =
      Some (Err request_error.Transient, st2)"
    using example_hardware_attempts [of "[]" example_state hardware_realm False "[1, 2]"]
    by (auto simp: example_state_def simp del: hardware_attempts.simps)
  show ?thesis
    using session_lifetime_respected [of example_env "realm_id hardware_realm" live_state live_session st1]
      session_lifetime_respected [of example_env _ example_state _ _ hardware_realm "replicate 32 5" "[]" False 1 "[2]" st2]
      take run
    by (simp del: hardware_attempts.simps) blast
qed

section \<open>Recovery\<close>

theorem consensus_unique_witness:
  "consensus 2 [(True, 1), (False, 2), (True, 3 :: nat)] = Some (Some (True, [1, 3]))"
proof -
  obtain r where c: "consensus 2 [(True, 1), (False, 2), (True, 3 :: nat)] = Some r"
    and r: "\<And>k vs. r = Some (k, vs) \<longleftrightarrow> unat (2 :: u32) \<le> length vs \<and>
      vs = values_of k [(True, 1), (False, 2), (True, 3)]"
    using consensus_unique [of "[(True, 1), (False, 2), (True, 3 :: nat)]" 2] by auto
  have "r = Some (True, [1, 3])"
    unfolding r by (simp add: values_of_def)
  with c show ?thesis
    by simp
qed

theorem previous_configurations_fallback_witness:
  "\<exists>k st1 st'. k \<le> 1 \<and>
    run_all (map (perform_recover_with_configuration example_env (Pin [1]) (UserInfo [])) (take k [example_checked, example_checked]))
      example_state = Some (replicate k (Err NotRegistered), st1) \<and>
    perform_recover_with_configuration example_env (Pin [1]) (UserInfo []) ([example_checked, example_checked] ! k) st1 =
      Some (Err recover_error.Transient, st')"
proof -
  obtain st' where "perform_recover example_env (Pin [1]) (UserInfo []) example_checked [example_checked] example_state =
      Some (Err recover_error.Transient, st')"
    using example_recover_fails [of "Pin [1]" "UserInfo []" example_state]
    by (auto simp: perform_recover_def io_match_def io_err_def)
  from previous_configurations_fallback [OF this] show ?thesis
    by auto
qed

section \<open>Registration, deletion, the client\<close>

lemma example_secret: "user_secret_from [1, 2, 3] = Some (UserSecret [1, 2, 3])"
  by (simp add: user_secret_from_Some)

lemma example_pin: "\<exists>a s. pin_hash (env_prims example_env) (Pin [1, 2])
    (config_pin_hashing_mode (the_configuration example_checked)) version (UserInfo [3]) = Some (Some (a, s))"
  using example_pin_hash by simp

theorem registration_recoverable_witness:
  "\<exists>requests st' root scl. prepare_registration example_env example_checked (Pin [1, 2]) (UserSecret [1, 2, 3])
      (UserInfo [3]) \<lparr>num_guesses = 5\<rparr> example_state = Some (Ok requests, st') \<and>
    map fst requests = crealms example_checked \<and>
    recover_secret (scalar_from example_curve) (*) (map (\<lambda>i. \<lparr>share_idx = Index (of_nat (Suc i)),
      share_secret = private_scalar (r2_oprf_private_key (snd (requests ! i)))\<rparr>) [2, 0]) = Ok root \<and>
    recover_secret (scalar_from example_curve) (*) (map (\<lambda>i. \<lparr>share_idx = Index (of_nat (Suc i)),
      share_secret = share_scalar (r2_encryption_key_scalar_share (snd (requests ! i)))\<rparr>) [2, 0]) = Ok scl"
proof -
  obtain requests st' where run: "prepare_registration example_env example_checked (Pin [1, 2])
      (UserSecret [1, 2, 3]) (UserInfo [3]) \<lparr>num_guesses = 5\<rparr> example_state = Some (Ok requests, st')"
    by (rule prepare_registration_runs [of example_env example_checked, OF _ _ example_secret example_pin])
      (use checked_configuration_from_ok [OF example_checked] example_prim_laws in simp_all)
  have inj: "inj_on (scalar_from (env_curve example_env)) {1..of_nat (length (crealms example_checked))}"
    using example_curve_inj by (simp add: example_checked_def example_configuration_def)
  have "curve_laws (env_curve example_env)" "prim_laws (env_prims example_env)"
    using example_curve_laws example_prim_laws by simp_all
  from registration_recoverable [OF this example_checked inj example_secret run]
  obtain root scl where fst: "map fst requests = crealms example_checked"
    and rec: "\<And>I. set I \<subseteq> {..<length requests} \<and> distinct I \<and>
        unat (recover_threshold (the_configuration example_checked)) \<le> length I \<Longrightarrow>
      recover_secret (scalar_from (env_curve example_env)) (*)
        (map (\<lambda>i. \<lparr>share_idx = Index (of_nat (Suc i)),
          share_secret = private_scalar (r2_oprf_private_key (snd (requests ! i)))\<rparr>) I) = Ok root \<and>
      recover_secret (scalar_from (env_curve example_env)) (*)
        (map (\<lambda>i. \<lparr>share_idx = Index (of_nat (Suc i)),
          share_secret = share_scalar (r2_encryption_key_scalar_share (snd (requests ! i)))\<rparr>) I) = Ok scl"
    by blast
  have "length requests = 3"
    using arg_cong [OF fst, of length] by (simp add: example_checked_def example_configuration_def)
  with rec [of "[2, 0]"] run fst show ?thesis
    by (simp add: example_checked_def example_configuration_def)
qed

theorem delete_all_realms_witness:
  "\<exists>st'. perform_delete example_env example_checked example_state = Some (Err delete_error.Transient, st')"
proof -
  let ?fs = "map (delete_on_realm example_env) (crealms example_checked)"
  have one: "\<exists>st'. delete_on_realm example_env (example_realm n) st = Some (Err delete_error.Transient, st')" for n st
    using example_software [of "example_realm n" Delete st]
    by (auto simp: delete_on_realm_def io_match_def io_err_def example_realm_def)
  have fs: "?fs = map (\<lambda>n. delete_on_realm example_env (example_realm n)) [1, 2, 3]"
    "in_order [0, 1, 2] ?fs = ?fs"
    by (simp_all add: example_checked_def example_configuration_def in_order_def)
  obtain st1 where s1: "delete_on_realm example_env (example_realm 1) example_state =
      Some (Err delete_error.Transient, st1)"
    using one by blast
  obtain st2 where s2: "delete_on_realm example_env (example_realm 2) st1 = Some (Err delete_error.Transient, st2)"
    using one by blast
  obtain st3 where s3: "delete_on_realm example_env (example_realm 3) st2 = Some (Err delete_error.Transient, st3)"
    using one by blast
  have run: "run_all (in_order [0, 1, 2] ?fs) (example_state\<lparr>world := world example_state\<rparr>) =
      Some ([Err delete_error.Transient, Err delete_error.Transient, Err delete_error.Transient], st3)"
    unfolding fs(2) unfolding fs(1) using s1 s2 s3 by simp
  have order: "env_executor example_env (length (crealms example_checked)) (world example_state) =
      ([0, 1, 2], world example_state)"
    by (simp add: example_checked_def example_configuration_def upt_rec)
  have three: "length (crealms example_checked) = 3"
    by (simp add: example_checked_def example_configuration_def)
  obtain r rs where r: "perform_delete example_env example_checked example_state = Some (r, st3)"
    and len: "length rs = 3"
    and nth: "\<forall>k < 3. rs ! ([0, 1, 2] ! k) = [Err delete_error.Transient, Err delete_error.Transient,
      Err delete_error.Transient] ! k"
    and err: "\<And>e. r = Err e \<longleftrightarrow> (\<exists>i < length rs. rs ! i = Err e \<and> (\<forall>j < i. rs ! j = Ok ()))"
    using delete_all_realms [OF example_executor_ok order run] unfolding three by blast
  have "rs ! 0 = Err delete_error.Transient"
    using nth by (auto dest: spec [of _ 0])
  then have "r = Err delete_error.Transient"
    unfolding err using len by (intro exI [of _ 0]) simp
  with r show ?thesis
    by blast
qed

theorem sessions_of_current_configuration_witness:
  "\<exists>client slots. build_client \<lparr>builder_configuration = Some example_checked, builder_previous_configurations = [],
      builder_auth_token_manager = Some (env_token example_env), builder_http = Some (env_http example_env),
      builder_sleeper = Some (env_sleep example_env)\<rparr> = Some (client, slots) \<and>
    make_request (client_env example_env client) hardware_realm Delete (example_state\<lparr>sessions := slots\<rparr>) = None"
proof -
  let ?b = "\<lparr>builder_configuration = Some example_checked, builder_previous_configurations = [],
      builder_auth_token_manager = Some (env_token example_env), builder_http = Some (env_http example_env),
      builder_sleeper = Some (env_sleep example_env)\<rparr>"
  obtain client slots where b: "build_client ?b = Some (client, slots)"
    and c: "client_configuration client = example_checked"
    by (simp add: build_client_def)
  have key: "realm_public_key hardware_realm = Some (replicate 32 5)"
    by (simp add: hardware_realm_def)
  have absent: "realm_id hardware_realm \<notin> realm_id ` set (crealms (client_configuration client))"
    by (simp add: c example_checked_def example_configuration_def hardware_realm_def example_realm_def
        fit_single_inject)
  have "make_request (client_env example_env client) hardware_realm Delete (example_state\<lparr>sessions := slots\<rparr>) = None"
    by (rule sessions_of_current_configuration [OF b key absent, where bs="[1]", THEN conjunct2]) simp_all
  with b show ?thesis
    by blast
qed

section \<open>Registration and recovery together\<close>

lemma example_inj: "inj_on (scalar_from (env_curve realm_env)) {1..of_nat (length (crealms example_checked))}"
  using example_curve_inj by (simp add: example_crealms)

lemma example_many: "unat (recover_threshold (the_configuration example_checked)) \<le>
    length (filter (\<lambda>r. r \<in> realms_up) (crealms example_checked))"
  by (simp add: example_checked_def example_configuration_def realms_up_def)

lemma example_facts: "length (crealms example_checked) = 3" "of_nat 3 = (3 :: u32)"
  "recover_threshold (the_configuration example_checked) = 2"
  "config_pin_hashing_mode (the_configuration example_checked) = Standard2019"
  by (simp_all add: example_checked_def example_configuration_def)

lemma realm_env_laws: "curve_laws (env_curve realm_env)" "prim_laws (env_prims realm_env)"
  using example_curve_laws example_prim_laws by simp_all

text \<open>The realms of the example serve what was registered with five guesses.\<close>

lemma example_registered:
  assumes "prepare_registration realm_env example_checked (Pin pin) (UserSecret [1, 2, 3]) (UserInfo info)
      \<lparr>num_guesses = 5\<rparr> st = Some (Ok requests, st1)"
  shows "map fst requests = crealms example_checked"
    and "serves realm_env realms_up (\<lambda>_. 5 - of_nat (Suc 0))
      (\<lambda>n T U st. \<exists>S. records realms_up S st \<and> recovering realms_up requests 0 T U S) requests"
    and "\<exists>S. records realms_up S (realm_state requests) \<and> recovering realms_up requests 0 {} {} S"
proof -
  have b: "user_secret_from [1, 2, 3] = Some (UserSecret [1, 2, 3])"
    by (simp add: user_secret_from_Some)
  note cfg = checked_configuration_from_ok [OF example_checked]
  show fst: "map fst requests = crealms example_checked"
    by (rule registration_stored [OF cfg realm_env_laws(2) b assms])
  have dom: "fst ` set requests = set (crealms example_checked)"
    using fst by (metis list.set_map)
  have policy: "r2_policy (snd (requests ! i)) = \<lparr>num_guesses = 5\<rparr>" if "i < length (crealms example_checked)" for i
    by (rule registration_stored [OF cfg realm_env_laws(2) b assms]) (simp add: that)
  have left: "num_guesses (r2_policy q) = 5" if q: "q \<in> snd ` set requests" for q
  proof -
    obtain i where "i < length requests" "q = snd (requests ! i)"
      using q by (auto simp: in_set_conv_nth)
    then show ?thesis
      using policy [of i] arg_cong [OF fst, of length] by simp
  qed
  show "serves realm_env realms_up (\<lambda>_. 5 - of_nat (Suc 0))
      (\<lambda>n T U st. \<exists>S. records realms_up S st \<and> recovering realms_up requests 0 T U S) requests"
    by (rule hosts_serves [OF realm_hosts]) (use checked_ok_facts(1) [OF cfg] fst dom left in simp_all)
  show "\<exists>S. records realms_up S (realm_state requests) \<and> recovering realms_up requests 0 {} {} S"
    by (rule realm_state_records [OF fst])
qed

theorem recover_registered_witness:
  "\<exists>requests st st'. prepare_registration realm_env example_checked (Pin [1, 2]) (UserSecret [1, 2, 3])
      (UserInfo [3]) \<lparr>num_guesses = 5\<rparr> (realm_state []) = Some (Ok requests, st) \<and>
    perform_recover_with_configuration realm_env (Pin [1, 2]) (UserInfo [3]) example_checked
      (realm_state requests) = Some (Ok (UserSecret [1, 2, 3]), st')"
proof -
  obtain requests st where run: "prepare_registration realm_env example_checked (Pin [1, 2]) (UserSecret [1, 2, 3])
      (UserInfo [3]) \<lparr>num_guesses = 5\<rparr> (realm_state []) = Some (Ok requests, st)"
    by (rule realm_env_registers)
  have secret: "user_secret_from [1, 2, 3] = Some (UserSecret [1, 2, 3])"
    by (simp add: user_secret_from_Some)
  from recover_registered [OF realm_env_executor realm_env_laws example_checked example_inj realm_env_nonzero
      secret run example_registered(2) [OF run] example_many example_registered(3) [OF run]]
  show ?thesis
    using run by blast
qed

theorem wrong_pin_rejected_witness:
  "\<exists>requests st guesses st'. prepare_registration realm_env example_checked (Pin [1, 2]) (UserSecret [1, 2, 3])
      (UserInfo [3]) \<lparr>num_guesses = 5\<rparr> (realm_state []) = Some (Ok requests, st) \<and>
    perform_recover_with_configuration realm_env (Pin [9]) (UserInfo [3]) example_checked
      (realm_state requests) = Some (Err (InvalidPin guesses), st')"
proof -
  obtain requests st where run: "prepare_registration realm_env example_checked (Pin [1, 2]) (UserSecret [1, 2, 3])
      (UserInfo [3]) \<lparr>num_guesses = 5\<rparr> (realm_state []) = Some (Ok requests, st)"
    by (rule realm_env_registers)
  have secret: "user_secret_from [1, 2, 3] = Some (UserSecret [1, 2, 3])"
    by (simp add: user_secret_from_Some)
  note stored = registration_stored [OF checked_configuration_from_ok [OF example_checked] realm_env_laws(2) secret run]
  have fst: "map fst requests = crealms example_checked"
    by (rule example_registered [OF run])
  let ?q = "snd (requests ! 0)"
  have mem: "(crealms example_checked ! 0, ?q) \<in> set requests"
    by (rule request_member [OF fst]) (simp add: example_crealms)
  have len: "length requests = 3"
    using fst by (metis example_crealms length_map length_Cons list.size(3) numeral_3_eq_3)
  obtain version ak0 seed0 ks ss root scl r1 r1' r2 r2' key vk enc unlock_key commitment where
    hash0: "pin_hash example_prims (Pin [1, 2]) Standard2019 version (UserInfo [3]) = Some (Some (ak0, seed0))"
    and ks: "create_shares (scalar_from example_curve) (*) (take_count nonzero) root 2 3 r1 = Some (ks, r1')"
    and "create_shares (scalar_from example_curve) (*) (take_count nonzero) scl 2 3 r2 = Some (ss, r2')"
    and ud: "derive_unlock_key_and_commitment example_prims
      (unoblivious_evaluate example_curve example_prims (PrivateKey root) (bytes_of (expose_access_key ak0))) =
      (unlock_key, commitment)"
    and st: "\<And>i. i < 3 \<Longrightarrow> stored realm_env version unlock_key commitment vk enc (share_secret (ks ! i))
      (share_secret (ss ! i)) (realm_id (crealms example_checked ! i)) (snd (requests ! i))"
    by (rule stored [unfolded example_facts realm_env_sel]) (rule that)
  have "r2_unlock_key_commitment ?q = commitment"
    using st [of 0] by (simp add: stored_def)
  then have keys: "bytes_of (unlock_commitment_array (r2_unlock_key_commitment ?q)) ! 21 = 1"
    using pin_hash_byte [OF hash0, of 0] ud
      commitment_byte [of "bytes_of (expose_access_key ak0)" 0 "PrivateKey root"] by simp
  have root: "recover_secret (scalar_from (env_curve realm_env)) (*)
      (map (\<lambda>i. \<lparr>share_idx = Index (of_nat (Suc i)),
        share_secret = private_scalar (r2_oprf_private_key (snd (requests ! i)))\<rparr>) [0..<length requests]) = Ok root"
    unfolding realm_env_sel
    by (rule stored_root [OF checked_configuration_from_ok [OF example_checked] example_inj,
          unfolded example_facts realm_env_sel, OF ks len st])
  obtain ak seed where hash: "pin_hash (env_prims realm_env) (Pin [9])
      (config_pin_hashing_mode (the_configuration example_checked)) (r2_version ?q) (UserInfo [3]) = Some (Some (ak, seed))"
    using example_pin_hash by fastforce
  have differ: "snd (derive_unlock_key_and_commitment (env_prims realm_env)
      (unoblivious_evaluate (env_curve realm_env) (env_prims realm_env)
      (PrivateKey root) (bytes_of (expose_access_key ak)))) \<noteq> r2_unlock_key_commitment ?q"
    using keys pin_hash_byte [of "[9]" _ _ _ _ _ 0] hash
      commitment_byte [of "bytes_of (expose_access_key ak)" 0 "PrivateKey root"] by auto
  from wrong_pin_rejected [OF realm_env_executor realm_env_laws example_checked example_inj realm_env_nonzero
      secret run example_registered(2) [OF run] example_many example_registered(3) [OF run] mem root hash differ]
  show ?thesis
    using run by blast
qed

section \<open>Tokens\<close>

text \<open>A library that signs one set of claims; a token is its key id.\<close>

definition example_claims :: token_claims where
  "example_claims = \<lparr>claim_issuer = ''tenant'', claim_subject = hex_encode example_hex (bytes_of (fit [9] :: 16 barray)),
     claim_audience = realm_id (example_realm 1), claim_scope = Some User\<rparr>"

definition example_audience :: string where
  "example_audience = hex_encode example_hex (bytes_of (id_bytes (realm_id (example_realm 1))))"

definition example_jwt_claims :: jwt_claims where
  "example_jwt_claims = \<lparr>issued_at = Some 100, expires_at = Some 700, invalid_before = Some 100,
     jwt_audiences = Some (AsString example_audience), jwt_issuer = Some ''tenant'',
     jwt_subject = Some (claim_subject example_claims), custom_scope = Some ''user''\<rparr>"

definition example_jwt :: "(string, unit) jwt_lib" where
  "example_jwt = \<lparr>jwt_new_claims = (\<lambda>custom minutes now. \<lparr>issued_at = Some now,
       expires_at = Some (now + of_nat (60 * minutes)), invalid_before = Some now, jwt_audiences = None,
       jwt_issuer = None, jwt_subject = None, custom_scope = custom\<rparr>),
     with_audience = (\<lambda>a c. c\<lparr>jwt_audiences := Some (AsString a)\<rparr>),
     with_issuer = (\<lambda>i c. c\<lparr>jwt_issuer := Some i\<rparr>), with_subject = (\<lambda>s c. c\<lparr>jwt_subject := Some s\<rparr>),
     private_from_der = (\<lambda>a bs. Some ''''), hs256_from_bytes = (\<lambda>bs. ''''), with_key_id = (\<lambda>i k. i),
     jwt_sign = (\<lambda>k c. if c = example_jwt_claims then Some k else None),
     public_from_der = (\<lambda>a bs. Some ()), hs256_verifier = (\<lambda>bs. ()),
     verify_token = (\<lambda>v t opts now. case allowed_audiences opts of
         Some as \<Rightarrow> if example_audience \<in> set as then Ok example_jwt_claims else Err ''audience''
       | None \<Rightarrow> Ok example_jwt_claims),
     decode_metadata = (\<lambda>t. Ok (Some t))\<rparr>"

definition example_key :: auth_key where
  "example_key = \<lparr>key_data = SecretBytesVec [1, 2, 3], key_algorithm = EdDSA\<rparr>"

definition example_token :: auth_token where
  "example_token = AuthToken (SecretString ''tenant:32'')"

lemma example_jwt_laws: "jwt_laws example_jwt"
  by (simp add: jwt_laws_def example_jwt_def)

lemma example_verifies: "verifies example_jwt k ()"
  by (auto simp: verifies_def example_jwt_def example_jwt_claims_def split: option.splits if_splits)

lemma example_checks_audience: "checks_audience example_jwt"
  by (auto simp: checks_audience_def example_jwt_def example_jwt_claims_def split: option.splits if_splits)

lemma example_create:
  "create_token example_jwt example_hex example_claims example_key (AuthKeyVersion 32) 100 = Some example_token"
  by (simp add: create_token_def example_jwt_def example_jwt_claims_def example_claims_def example_audience_def
      signing_key_def example_key_def issuer_regex_def alphanumerics_def alphanumeric_def Let_def assert_that_def
      key_id_of_def show_nat.simps decimal_digit_def example_token_def char_of_eq_iff)

lemma example_signing: "signing_key example_jwt example_key = Some ''''" "verifying_key_for example_jwt example_key = Some ()"
  by (simp_all add: signing_key_def verifying_key_for_def example_key_def example_jwt_def)

lemma example_token_length: "length (expose_token example_token) \<le> 1000"
  by (simp add: example_token_def expose_token_def)

theorem created_token_validates_witness:
  "validate Debug example_jwt example_hex (validator_new example_hex (realm_id (example_realm 1)) (RequireScope User))
     example_token example_key 200 = Some (Ok example_claims)"
  using created_token_validates [OF example_hex_laws example_jwt_laws example_create example_signing example_verifies
      example_token_length, of 200 "RequireScope User" Debug]
  by (simp add: example_claims_def)

theorem validated_token_sound_witness:
  "validate Release example_jwt example_hex (validator_new example_hex (realm_id (example_realm 1)) AnyScopeOrMissing)
     example_token example_key 200 = Some (Ok example_claims) \<and>
   (\<exists>version. token_key_id example_jwt example_token = Ok (''tenant'', version))"
proof -
  have "validate Release example_jwt example_hex (validator_new example_hex (realm_id (example_realm 1)) AnyScopeOrMissing)
     example_token example_key 200 = Some (Ok example_claims)"
    using validate_created [OF example_hex_laws example_jwt_laws example_create example_signing example_verifies
      example_token_length, of 200 AnyScopeOrMissing Release]
    by (simp add: example_claims_def)
  from validated_token_sound [OF example_hex_laws example_checks_audience this] this show ?thesis
    by (simp add: example_claims_def)
qed

definition example_generator :: auth_token_generator where
  "example_generator = \<lparr>generator_key = example_key, generator_tenant = ''tenant'', generator_version = AuthKeyVersion 32\<rparr>"

section \<open>Calls across the C interface\<close>

definition ffi_example_request :: http_request where
  "ffi_example_request = \<lparr>http_method = Post, http_url = ''u'', http_headers = [], http_body = Some [1], http_timeout = None\<rparr>"

definition ffi_example_response :: "u8 \<Rightarrow> ffi_response" where
  "ffi_example_response b = \<lparr>ffi_response_id = fit [b], ffi_status_code = 200,
     ffi_response_headers = UnmanagedArray (Some []), ffi_response_body = UnmanagedArray (Some [b])\<rparr>"

lemma ffi_example_send:
  "http_step \<lparr>strong_count = Suc n, request_map = m\<rparr> (HttpSend ffi_example_request i) =
     Some \<lparr>strong_count = Suc (Suc n), request_map = open_call i m\<rparr>"
  by (simp add: ffi_http_send_def ffi_request_from_def ffi_headers_from_def cstring_new_def ffi_example_request_def)

lemma ffi_example_receive:
  "http_response_from (ffi_example_response b) = Some \<lparr>response_status = 200, response_headers = [], response_body = [b]\<rparr>"
  "http_step \<lparr>strong_count = Suc (Suc n), request_map = m\<rparr> (HttpReceive False (Some (ffi_example_response b))) =
     Some \<lparr>strong_count = Suc n, request_map =
       receive_call (fit [b]) (Some \<lparr>response_status = 200, response_headers = [], response_body = [b]\<rparr>) m\<rparr>"
  by (simp_all add: http_response_from_def unmanaged_to_vec_def as_slice_def ffi_example_response_def ffi_http_receive_def
      drop_arc_def)

lemma runs_step:
  "runs step event st es st' \<Longrightarrow> step st' x = Some st'' \<Longrightarrow> es' = es @ [event st' x] \<Longrightarrow> runs step event st es' st''"
  using runs_snoc by metis

text \<open>Two requests answered in the other order, with a null response in between.\<close>

theorem http_requests_answered_witness:
  "\<exists>st. runs http_step http_event http_client_new
      [Open (fit [1]), Open (fit [2]), Complete (fit [2]) (Some \<lparr>response_status = 200, response_headers = [], response_body = [2]\<rparr>),
       Ignored] st \<and>
    strong_count st = 2 \<and>
    channels (request_map st) = [Waiting, Sent (Some \<lparr>response_status = 200, response_headers = [], response_body = [2]\<rparr>)]"
proof -
  let ?r = "Some \<lparr>response_status = 200, response_headers = [], response_body = [2 :: u8]\<rparr>"
  let ?es = "[Open (fit [1] :: 16 barray), Open (fit [2]), Complete (fit [2]) ?r, Ignored]"
  have ev: "http_event \<lparr>strong_count = Suc (Suc n), request_map = m\<rparr> (HttpReceive False (Some (ffi_example_response 2))) =
      Complete (fit [2]) ?r" for n m
    by (simp add: ffi_example_receive) (simp add: ffi_example_response_def)
  note step = runs_step [where step = http_step and event = http_event and st = http_client_new]
  have new: "runs http_step http_event http_client_new [] \<lparr>strong_count = Suc 0, request_map = no_calls\<rparr>"
    using runs_nil [of http_step http_event http_client_new] by (simp add: http_client_new_def)
  let ?m = "open_call (fit [2]) (open_call (fit [1]) no_calls)"
  have "runs http_step http_event http_client_new [Open (fit [1])]
      \<lparr>strong_count = Suc (Suc 0), request_map = open_call (fit [1]) no_calls\<rparr>"
    by (rule step [OF new ffi_example_send]) simp
  then have "runs http_step http_event http_client_new [Open (fit [1]), Open (fit [2])]
      \<lparr>strong_count = Suc (Suc (Suc 0)), request_map = ?m\<rparr>"
    by (rule step [OF _ ffi_example_send]) simp
  then obtain s3 where "runs http_step http_event http_client_new [Open (fit [1]), Open (fit [2]), Complete (fit [2]) ?r] s3"
    using step [OF _ ffi_example_receive(2) [of _ _ 2]] ev by (metis append_Cons append_Nil)
  then have run: "runs http_step http_event http_client_new ?es s3"
    by (rule step [where x = "HttpReceive False None"]) (simp_all add: ffi_http_receive_def)
  have "distinct (opened ?es)" "callbacks ?es \<le> length (opened ?es)"
    by (simp_all add: fit_single_inject)
  from http_requests_answered [OF run this] run show ?thesis
    by (auto simp: fit_single_inject)
qed

theorem token_requests_answered_witness:
  "\<exists>st. runs token_step token_event token_manager_new [Open 0, Open 1, Complete 1 None] st \<and>
    channels (await_get_map st) = [Waiting, Sent None]"
proof -
  note step = runs_step [where step = token_step and event = token_event and st = token_manager_new]
  have "runs token_step token_event token_manager_new [Open 0] (ffi_token_get token_manager_new)"
    by (rule step [OF runs_nil, where x = TokenGet]) (simp_all add: token_manager_new_def)
  then have "runs token_step token_event token_manager_new [Open 0, Open 1] (ffi_token_get (ffi_token_get token_manager_new))"
    by (rule step [where x = TokenGet]) (simp_all add: ffi_token_get_def token_manager_new_def)
  then have run: "runs token_step token_event token_manager_new [Open 0, Open 1, Complete 1 None]
      (ffi_get_callback False 1 None (ffi_token_get (ffi_token_get token_manager_new)))"
    by (rule step [where x = "TokenCallback False 1 None"]) simp_all
  from token_requests_answered [OF run] run show ?thesis
    by auto
qed

end
