(* ===== verification/Vault_Witnesses.thy ===== *)
theory Vault_Witnesses
  imports Demo Witnesses
begin

text \<open>
  The demo on the realms of \<open>Honest_Realms\<close>, all of them up: its client is built from arguments
  and talks to them through reqwest.
\<close>

section \<open>The client\<close>

text \<open>A reqwest whose requests reach the realms.\<close>

definition example_execute :: "unit \<Rightarrow> built_request \<Rightarrow> realm_world \<Rightarrow> (unit + unit reqwest_response) \<times> realm_world" where
  "example_execute h q w =
     (case realm_http \<lparr>http_method = built_method q, http_url = built_url q, http_headers = built_headers q,
        http_body = built_body q, http_timeout = built_timeout q\<rparr> w of
        (None, w) \<Rightarrow> (Err (), w)
      | (Some r, w) \<Rightarrow> (Ok \<lparr>reqwest_status = response_status r, reqwest_headers = [],
          reqwest_body = Ok (response_body r)\<rparr>, w))"

definition example_reqwest :: "(unit, unit, realm_world, unit) reqwest_lib" where
  "example_reqwest = \<lparr>reqwest_build = (\<lambda>s. Ok ()), reqwest_execute = example_execute\<rparr>"

definition any_header :: header_lib where
  "any_header = \<lparr>header_name = Some, header_value = Some\<rparr>"

definition example_json_tokens :: "(string \<times> auth_token) list" where
  "example_json_tokens = map (\<lambda>realm. (hex_encode example_hex (bytes_of (id_bytes (realm_id realm))),
     AuthToken (SecretString ''token''))) (crealms example_checked)"

definition example_demo :: "(string, unit) demo_lib" where
  "example_demo = \<lparr>json_configuration = (\<lambda>s. Some example_configuration),
     json_tokens = (\<lambda>s. Some example_json_tokens), fs_read = (\<lambda>p. None),
     certificate_from_der = (\<lambda>d. None), utf8_lossy = map (\<lambda>b. char_of (unat b)), process_id = 42\<rparr>"

definition example_args :: demo_args where
  "example_args = \<lparr>arg_configuration = '''', arg_auth_tokens = '''', arg_tls_certificates = []\<rparr>"

lemma example_execute_send: "reqwest_send any_header (example_execute h) = realm_http"
  by (intro ext) (simp add: reqwest_send_def example_execute_def to_reqwest_def to_response_def realm_http_def
      Let_def split_beta split: option.split)

lemma example_auth_tokens:
  "\<exists>m. demo_auth_tokens example_hex example_json_tokens = Some m \<and>
    tokens_for (set (crealms example_checked)) (token_map_get m)"
proof -
  have dashes: "filter (\<lambda>c. c \<noteq> CHR ''-'') xs = xs" if "CHR ''-'' \<notin> set xs" for xs
    using that by (induction xs) auto
  have id: "realm_id_from_str example_hex (hex_encode example_hex (bytes_of (id_bytes i))) = Ok i" for i
    using example_hex_laws dashes by (simp add: realm_id_from_str_def hex_laws_def)
  show ?thesis
    by (simp add: demo_auth_tokens_def example_json_tokens_def example_crealms id unwrap_def tokens_for_def token_map_get_def)
qed

definition realm_tokens :: "realm_id \<Rightarrow> auth_token option" where
  "realm_tokens = the (demo_auth_tokens example_hex example_json_tokens)"

lemma realm_tokens:
  "demo_auth_tokens example_hex example_json_tokens = Some realm_tokens"
  "tokens_for (set (crealms example_checked)) (token_map_get realm_tokens)"
  using example_auth_tokens by (auto simp: realm_tokens_def)

definition realm_client :: "(realm_world, string) client" where
  "realm_client = \<lparr>client_configuration = example_checked, client_previous_configurations = [],
     client_auth_token_manager = token_map_get realm_tokens, client_http = realm_http, client_sleeper = (\<lambda>d w. w)\<rparr>"

lemma realm_client_sel [simp]:
  "client_configuration realm_client = example_checked" "client_previous_configurations realm_client = []"
  by (simp_all add: realm_client_def)

lemma realm_client_env: "client_env realm_env realm_client = realm_env\<lparr>env_token := token_map_get realm_tokens\<rparr>"
  by (simp add: client_env_def realm_client_def realm_env_def)

lemma example_demo_client:
  "demo_client example_demo example_hex any_header example_reqwest (\<lambda>d w. w) example_args =
     Some (realm_client, initial_sessions example_checked)"
  by (simp add: demo_client_def example_demo_def example_args_def demo_certificates_def realm_tokens(1)
      with_configuration_def example_checked builder_new_def reqwest_with_options_def reqwest_client_new_def
      example_reqwest_def unwrap_def with_auth_token_manager_def with_http_def example_execute_send tokio_sleeper_def
      with_sleeper_def build_client_def realm_client_def)

section \<open>The hypotheses\<close>

definition empty_world :: realm_world where
  "empty_world = (0, \<lambda>url. Some Unregistered)"

abbreviation all_realms :: "string realm set" where
  "all_realms \<equiv> set (crealms example_checked)"

lemma empty_records: "records all_realms (\<lambda>_. Unregistered) \<lparr>world = empty_world, sessions = slots\<rparr>"
  by (simp add: records_def empty_world_def)

lemma demo_pin_bytes:
  "ascii ''1234'' = [49, 50, 51, 52]" "ascii ''1212'' = [49, 50, 49, 50]" "ascii ''4321'' = [52, 51, 50, 49]"
  by (simp_all add: ascii_def)

lemma demo_pins_differ:
  assumes "(p, i) \<in> demo_pins" "(p', i') \<in> demo_pins" "(p', i') \<noteq> (p, i)"
  shows "pin_bytes p ! 2 \<noteq> pin_bytes p' ! 2 \<and> 2 < length (pin_bytes p) \<and> 2 < length (pin_bytes p')"
  using assms unfolding demo_pins_def demo_pin_bytes by auto

lemma demo_pins_separate: "separates (client_env realm_env cl) mode demo_pins"
proof -
  have "separates realm_env mode demo_pins"
  proof (rule example_separates)
    fix p i assume "(p, i) \<in> demo_pins"
    then have "i = UserInfo (ascii ''presso'') \<or> i = UserInfo (ascii ''teyla'')"
      by (auto simp: demo_pins_def)
    then show "length (user_info_bytes i) < 2 ^ 32"
      by auto
  next
    fix p i p' i' assume "(p, i) \<in> demo_pins" "(p', i') \<in> demo_pins" "(p', i') \<noteq> (p, i)"
    then show "\<exists>j < 11. j < length (pin_bytes p) \<and> j < length (pin_bytes p') \<and> pin_bytes p ! j \<noteq> pin_bytes p' ! j"
      using demo_pins_differ by (intro exI [of _ 2]) auto
  qed
  then show ?thesis
    by (simp add: separates_def commitment_of_def)
qed

lemma example_thresholds:
  "recover_threshold (the_configuration example_checked) = 2"
  "register_threshold (the_configuration example_checked) = 3"
  by (simp_all add: example_checked_def example_configuration_def)

lemma example_demo_prints:
  "utf8_lossy example_demo (ascii ''teyla21'') = ''teyla21''"
  "utf8_lossy example_demo (ascii ''presso42'') = ''presso42''"
  "show_nat (process_id example_demo) = ''42''"
  unfolding example_demo_def by code_simp+

lemma example_hosted: "hosts (client_env realm_env realm_client) all_realms all_realms (\<lambda>n. records all_realms)"
  unfolding realm_client_env by (rule realm_hosts_with [OF realm_tokens(2)])

lemma example_many_registered:
  "unat (recover_threshold (the_configuration example_checked)) \<le> length (filter (\<lambda>r. r \<in> all_realms) (crealms example_checked))"
  "0 < register_threshold (the_configuration example_checked)"
  "unat (register_threshold (the_configuration example_checked)) \<le> length (filter (\<lambda>r. r \<in> all_realms) (crealms example_checked))"
  by (simp_all add: example_thresholds) (simp_all add: example_crealms)

interpretation demo_vault: vault_client realm_env realm_client example_configuration all_realms demo_pins "\<lambda>n. records all_realms"
  by (rule vault_client.intro; (unfold realm_client_sel)?)
    (rule realm_env_executor realm_env_laws example_checked refl example_inj realm_env_nonzero example_hosted
      example_many_registered demo_pins_separate)+

section \<open>The properties\<close>

theorem demo_completes_witness:
  "\<exists>st. demo_main realm_env example_demo example_hex any_header example_reqwest (\<lambda>d w. w) example_args empty_world = Some (
      [''[Rust] Starting register (allowing 2 guesses)'', ''[Rust] Register succeeded'',
       ''[Rust] Starting recover with wrong PIN (guess 1)'', ''[Rust] Recover expectedly unsuccessful'',
       ''[Rust] Starting recover with correct PIN (guess 2)'', ''[Rust] Recovered secret: teyla21'',
       ''[Rust] Starting recover with wrong PIN (guess 1)'', ''[Rust] Recover expectedly unsuccessful'',
       ''[Rust] Starting recover with wrong PIN (guess 2)'', ''[Rust] Recover expectedly unsuccessful'',
       ''[Rust] Starting recover with correct PIN (guess 3)'', ''[Rust] Recover expectedly unsuccessful'',
       ''[Rust] Starting register'', ''[Rust] register succeeded'',
       ''[Rust] Starting recover with correct PIN (guess 1)'', ''[Rust] Recovered secret: presso42'',
       ''[Rust] Deleting secret'', ''[Rust] delete succeeded'', ''[Rust] exiting 42''], st)"
proof -
  note demo_completes [OF realm_env_executor realm_env_laws example_demo_client, unfolded realm_client_sel, OF
      example_inj realm_env_nonzero example_hosted example_many_registered(2) demo_pins_separate empty_records]
  then show ?thesis
    by (auto simp: example_demo_prints)
qed

theorem client_refines_vault_witness:
  "\<exists>cl slots st. demo_client example_demo example_hex any_header example_reqwest (\<lambda>d w. w) example_args = Some (cl, slots) \<and>
    client_run realm_env cl (Recovering (Pin (ascii ''1234'')) (UserInfo (ascii ''presso'')) #
        Registering (Pin (ascii ''1234'')) (UserSecret (ascii ''teyla21'')) (UserInfo (ascii ''presso'')) \<lparr>num_guesses = 2\<rparr> #
        demo_script) \<lparr>world = empty_world, sessions = slots\<rparr> =
      Some ([RecoverOutcome (Err recover_error.NotRegistered), RegisterOutcome (Ok ()),
        RecoverOutcome (Err (InvalidPin 1)), RecoverOutcome (Ok (UserSecret (ascii ''teyla21''))),
        RecoverOutcome (Err (InvalidPin 1)), RecoverOutcome (Err (InvalidPin 0)), RecoverOutcome (Err (InvalidPin 0)),
        RegisterOutcome (Ok ()), RecoverOutcome (Ok (UserSecret (ascii ''presso42''))), DeleteOutcome (Ok ())], st)"
proof -
  let ?ops = "Recovering (Pin (ascii ''1234'')) (UserInfo (ascii ''presso'')) #
        Registering (Pin (ascii ''1234'')) (UserSecret (ascii ''teyla21'')) (UserInfo (ascii ''presso'')) \<lparr>num_guesses = 2\<rparr> #
        demo_script"
  let ?st = "\<lparr>world = empty_world, sessions = initial_sessions example_checked\<rparr>"
  have ok: "\<And>op. op \<in> set ?ops \<Longrightarrow> operation_ok example_checked all_realms demo_pins op"
    using demo_secrets by (auto simp: demo_script_def demo_pins_def)
  have v: "vault_in (client_env realm_env realm_client) example_checked all_realms demo_pins Vacant (\<lambda>_. Unregistered)"
    by (simp add: vault_in_def)
  have "\<exists>S' st'. client_run realm_env realm_client ?ops ?st = Some (fst (vault_run ?ops Vacant), st') \<and> records all_realms S' st' \<and>
    vault_in (client_env realm_env realm_client) example_checked all_realms demo_pins (snd (vault_run ?ops Vacant)) S'"
    by (rule client_refines_vault [OF realm_env_executor realm_env_laws, of example_configuration realm_client, unfolded
          realm_client_sel, OF example_checked refl example_inj realm_env_nonzero example_hosted
          example_many_registered demo_pins_separate ok empty_records v])
  moreover have "fst (vault_run ?ops Vacant) = [RecoverOutcome (Err recover_error.NotRegistered), RegisterOutcome (Ok ()),
        RecoverOutcome (Err (InvalidPin 1)), RecoverOutcome (Ok (UserSecret (ascii ''teyla21''))),
        RecoverOutcome (Err (InvalidPin 1)), RecoverOutcome (Err (InvalidPin 0)), RecoverOutcome (Err (InvalidPin 0)),
        RegisterOutcome (Ok ()), RecoverOutcome (Ok (UserSecret (ascii ''presso42''))), DeleteOutcome (Ok ())]"
    using demo_script_runs by (simp add: Let_def split_beta)
  ultimately show ?thesis
    using example_demo_client by auto
qed

end
