(* ===== verification/Hardware_Witness.thy ===== *)
theory Hardware_Witness
  imports Hardware_Vault Vault_Witnesses
begin

text \<open>
  A world with enclaves behind their wire formats: it satisfies the hypotheses on hardware realms,
  although its enclaves lose all their sessions whenever the client starts a join.
\<close>

section \<open>Wire formats\<close>

text \<open>Each byte behind a one, and a zero at the end.\<close>

definition frame :: "bytes \<Rightarrow> bytes" where
  "frame bs = concat (map (\<lambda>b. [1, b]) bs) @ [0]"

fun unframe :: "bytes \<Rightarrow> bytes \<times> bytes" where
  "unframe (x # b # rest) = (if x = 1 then (case unframe rest of (bs, rest) \<Rightarrow> (b # bs, rest)) else ([], b # rest))"
| "unframe _ = ([], [])"

lemma unframe_frame [simp]: "unframe (frame bs @ rest) = (bs, rest)" "unframe (frame bs) = (bs, [])"
proof -
  have "unframe (frame bs @ rest) = (bs, rest)" for rest
  proof (induction bs)
    case Nil
    show ?case
      by (cases rest) (simp_all add: frame_def)
  next
    case (Cons b bs)
    then show ?case
      by (simp add: frame_def)
  qed
  from this [of rest] this [of "[]"] show "unframe (frame bs @ rest) = (bs, rest)" "unframe (frame bs) = (bs, [])"
    by simp_all
qed

definition frame_nat :: "nat \<Rightarrow> bytes" where
  "frame_nat n = frame (replicate n 0)"

definition unframe_nat :: "bytes \<Rightarrow> nat" where
  "unframe_nat bs = length (fst (unframe bs))"

lemma unframe_nat_frame [simp]: "unframe_nat (frame_nat n) = n" "unframe_nat (frame_nat n @ rest) = n"
  by (simp_all add: unframe_nat_def frame_nat_def)

text \<open>What the enclave reads of a client request: neither the realm nor the token.\<close>

fun encode_noise_request :: "noise_request \<Rightarrow> bytes" where
  "encode_noise_request (HandshakeRequest hr) = 0 # frame (client_ephemeral_public hr) @ frame (request_ciphertext hr)"
| "encode_noise_request (TransportRequest c) = 1 # c"

definition decode_noise_request :: "bytes \<Rightarrow> noise_request" where
  "decode_noise_request bs =
     (if hd bs = 0 then
        (case unframe (tl bs) of (p, rest) \<Rightarrow>
           HandshakeRequest \<lparr>client_ephemeral_public = p, request_ciphertext = fst (unframe rest)\<rparr>)
      else TransportRequest (tl bs))"

lemma decode_noise_request [simp]: "decode_noise_request (encode_noise_request r) = r"
  by (cases r) (simp_all add: decode_noise_request_def)

definition encode_call :: "client_request \<Rightarrow> bytes" where
  "encode_call cr = frame_nat (unat (session_number (request_session_id cr))) @
     (if request_kind cr = HandshakeOnly then [0] else [1]) @ encode_noise_request (request_encrypted cr)"

definition decode_call :: "bytes \<Rightarrow> client_request" where
  "decode_call bs =
     (let rest = snd (unframe bs) in
      \<lparr>request_realm = RealmId (fit []), request_auth_token = AuthToken (SecretString ''''),
       request_session_id = SessionId (of_nat (unframe_nat bs)),
       request_kind = (if hd rest = 0 then HandshakeOnly else SecretsRequestKind),
       request_encrypted = decode_noise_request (tl rest)\<rparr>)"

lemma decode_encode_call:
  "request_session_id (decode_call (encode_call cr)) = request_session_id cr"
  "request_kind (decode_call (encode_call cr)) = request_kind cr"
  "request_encrypted (decode_call (encode_call cr)) = request_encrypted cr"
proof -
  have "snd (unframe (frame_nat n @ rest)) = rest" for n rest
    by (simp add: frame_nat_def)
  then show "request_session_id (decode_call (encode_call cr)) = request_session_id cr"
    "request_kind (decode_call (encode_call cr)) = request_kind cr"
    "request_encrypted (decode_call (encode_call cr)) = request_encrypted cr"
    by (cases "request_session_id cr"; cases "request_kind cr"; simp add: decode_call_def encode_call_def)+
qed

fun encode_reply :: "client_response \<Rightarrow> bytes" where
  "encode_reply (ResponseOk (HandshakeResponse hr lifetime)) =
     0 # frame (server_ephemeral_public hr) @ frame (response_ciphertext hr) @ frame_nat lifetime"
| "encode_reply (ResponseOk (TransportResponse c)) = 1 # c"
| "encode_reply Unavailable = [2]"
| "encode_reply InvalidAuthResponse = [3]"
| "encode_reply MissingSession = [4]"
| "encode_reply SessionError = [5]"
| "encode_reply DecodingError = [6]"
| "encode_reply PayloadTooLarge = [7]"
| "encode_reply ResponseRateLimitExceeded = [8]"

definition decode_reply :: "bytes \<Rightarrow> client_response" where
  "decode_reply bs =
     (if hd bs = 0 then
        (case unframe (tl bs) of (p, rest) \<Rightarrow> (case unframe rest of (c, rest) \<Rightarrow>
           ResponseOk (HandshakeResponse \<lparr>server_ephemeral_public = p, response_ciphertext = c\<rparr> (unframe_nat rest))))
      else if hd bs = 1 then ResponseOk (TransportResponse (tl bs))
      else [Unavailable, InvalidAuthResponse, MissingSession, SessionError, DecodingError, PayloadTooLarge,
        ResponseRateLimitExceeded] ! (unat (hd bs) - 2))"

lemma decode_reply [simp]: "decode_reply (encode_reply r) = r"
  by (cases r rule: encode_reply.cases) (simp_all add: decode_reply_def)

definition encode_padded :: "padded_secrets_response \<Rightarrow> bytes" where
  "encode_padded p = encode_u16 (unpadded_length p) @ bytes_of (padded_bytes p)"

definition decode_padded :: "bytes \<Rightarrow> padded_secrets_response" where
  "decode_padded bs = \<lparr>unpadded_length = decode_u16 bs, padded_bytes = fit (drop 2 bs)\<rparr>"

lemma decode_padded [simp]: "decode_padded (encode_padded p) = p"
  by (simp add: decode_padded_def encode_padded_def)

section \<open>The environment\<close>

text \<open>The world counts the random values and holds the enclaves by URL.\<close>

type_synonym enclave_world = "nat \<times> (string \<Rightarrow> gf5 enclave)"

definition example_static :: "32 barray" where
  "example_static = fit (replicate 32 5)"

definition counted :: "(nat \<Rightarrow> 'a) \<Rightarrow> enclave_world \<Rightarrow> 'a \<times> enclave_world" where
  "counted f w = (f (fst w), (Suc (fst w), snd w))"

definition forget_sessions :: "gf5 enclave \<Rightarrow> gf5 enclave" where
  "forget_sessions e = e\<lparr>enclave_sessions := (\<lambda>i. None)\<rparr>"

definition enclave_formats :: "(enclave_world, string, gf5, gf5, 32 barray) env" where
  "enclave_formats = \<lparr>env_build = Release, env_curve = example_curve, env_prims = example_prims,
     env_net = example_net, env_http = (\<lambda>q w. (None, w)),
     env_token = (\<lambda>i w. (Some (AuthToken (SecretString ''token'')), w)), env_sleep = (\<lambda>d w. w),
     env_now = (\<lambda>w. (7, w)), env_random16 = counted (\<lambda>n. fit [of_nat n]),
     env_random32 = counted (\<lambda>n. fit [of_nat n]), env_random_scalar = counted nonzero,
     env_next_u32 = counted of_nat, env_executor = (\<lambda>n w. ([0..<n], (fst w, forget_sessions \<circ> snd w))),
     cbor_client_request = \<lparr>into_writer = (\<lambda>q. Ok (encode_call q)), from_reader = (\<lambda>bs. Ok (decode_call bs))\<rparr>,
     cbor_client_response = \<lparr>into_writer = (\<lambda>q. Ok (encode_reply q)), from_reader = (\<lambda>bs. Ok (decode_reply bs))\<rparr>,
     cbor_secrets_request = \<lparr>into_writer = (\<lambda>q. Ok (encode_request q)), from_reader = (\<lambda>bs. Ok (decode_request bs))\<rparr>,
     cbor_secrets_response = \<lparr>into_writer = (\<lambda>q. Ok (encode_answer q)), from_reader = (\<lambda>bs. Ok (decode_answer bs))\<rparr>,
     cbor_padded_response = \<lparr>into_writer = (\<lambda>q. Ok (encode_padded q)), 
       from_reader = (\<lambda>bs. if length bs = 438 then Ok (decode_padded bs) else Err ''length'')\<rparr>\<rparr>"

definition enclave_http :: "enclave_world http_client" where
  "enclave_http q w =
     (let (resp, e) = enclave_step enclave_formats example_static (fit [of_nat (fst w)]) 10 answer_random
        (decode_call (the (http_body q))) (snd w (http_url q))
      in (Some \<lparr>response_status = 200, response_headers = [], response_body = encode_reply resp\<rparr>,
          (fst w, (snd w)(http_url q := e))))"

definition enclave_env :: "(enclave_world, string, gf5, gf5, 32 barray) env" where
  "enclave_env = enclave_formats\<lparr>env_http := enclave_http\<rparr>"

lemma enclave_env_step:
  "enclave_step enclave_env static ephemeral lifetime random cr = enclave_step enclave_formats static ephemeral lifetime random cr"
proof -
  have parts: "env_prims enclave_env = env_prims enclave_formats" "env_curve enclave_env = env_curve enclave_formats"
    "cbor_secrets_request enclave_env = cbor_secrets_request enclave_formats"
    "cbor_secrets_response enclave_env = cbor_secrets_response enclave_formats"
    "cbor_padded_response enclave_env = cbor_padded_response enclave_formats"
    by (simp_all add: enclave_env_def)
  show ?thesis
    by (intro ext) (simp only: enclave_step_def serve_handshake_def serve_payload_def parts)
qed

lemma enclave_step_decoded:
  "enclave_step E static ephemeral lifetime random (decode_call (encode_call cr)) = enclave_step E static ephemeral lifetime random cr"
  by (intro ext) (simp only: enclave_step_def decode_encode_call)

lemma length_encode_request: "length (encode_request q) < 2 ^ 32" "encode_request q \<noteq> []"
  by (cases q rule: encode_request.cases; simp)+

lemma length_encode_answer: "length (encode_answer r) \<le> 436"
  by (cases r rule: encode_answer.cases) simp_all

lemma length_encode_padded: "length (encode_padded p) = 438"
  by (simp add: encode_padded_def)

lemma enclave_codecs: "realm_codecs enclave_env"
proof -
  have parts: "cbor_secrets_request enclave_env = \<lparr>into_writer = (\<lambda>q. Ok (encode_request q)), from_reader = (\<lambda>bs. Ok (decode_request bs))\<rparr>"
    "cbor_secrets_response enclave_env = \<lparr>into_writer = (\<lambda>q. Ok (encode_answer q)), from_reader = (\<lambda>bs. Ok (decode_answer bs))\<rparr>"
    "cbor_padded_response enclave_env = \<lparr>into_writer = (\<lambda>q. Ok (encode_padded q)),
       from_reader = (\<lambda>bs. if length bs = 438 then Ok (decode_padded bs) else Err ''length'')\<rparr>"
    by (simp_all add: enclave_env_def enclave_formats_def)
  show ?thesis
    unfolding realm_codecs_def cbor_laws_def parts
    using length_encode_request length_encode_answer
    by (simp add: decode_encode_request decode_encode_answer length_encode_padded)
qed

lemma enclave_send:
  assumes "enclave_step enclave_env example_static (fit [of_nat (fst w)]) 10 answer_random cr (snd w (url @ ''req'')) = (resp, e)"
  shows "send (env_net enclave_env) (cbor_client_request enclave_env) (cbor_client_response enclave_env)
    (env_http enclave_env) url cr w = Some (Ok resp, (fst w, (snd w)(url @ ''req'' := e)))"
proof -
  have parts: "env_net enclave_env = example_net" "env_http enclave_env = enclave_http"
    "cbor_client_request enclave_env = \<lparr>into_writer = (\<lambda>q. Ok (encode_call q)), from_reader = (\<lambda>bs. Ok (decode_call bs))\<rparr>"
    "cbor_client_response enclave_env = \<lparr>into_writer = (\<lambda>q. Ok (encode_reply q)), from_reader = (\<lambda>bs. Ok (decode_reply bs))\<rparr>"
    by (simp_all add: enclave_env_def enclave_formats_def)
  have "enclave_http \<lparr>http_method = Post, http_url = url @ ''req'', http_headers = hs, http_body = Some (encode_call cr),
        http_timeout = t\<rparr> w =
      (Some \<lparr>response_status = 200, response_headers = [], response_body = encode_reply resp\<rparr>,
       (fst w, (snd w)(url @ ''req'' := e)))" for hs t
    using assms by (simp add: enclave_http_def enclave_step_decoded enclave_env_step)
  then show ?thesis
    unfolding parts by (simp add: send_def send_with_options_def RPC_PATH_def to_vec_def from_slice_def rpc_response_def example_net_def)
qed

text \<open>The realms of \<open>R\<close> and their enclaves.\<close>

definition holds_enclaves :: "string realm set \<Rightarrow> (string realm \<Rightarrow> gf5 enclave) \<Rightarrow> enclave_world \<Rightarrow> bool" where
  "holds_enclaves R F w \<longleftrightarrow> (\<forall>realm \<in> R. snd w (realm_address realm @ ''req'') = F realm)"

lemma enclave_delivers:
  assumes "realm \<in> R" and "inj_on realm_address R"
  shows "delivers enclave_env realm example_static (\<lambda>e. holds_enclaves R (F(realm := e)))"
  unfolding delivers_def
proof (intro conjI allI impI)
  fix e w cr
  assume w: "holds_enclaves R (F(realm := e)) w"
  let ?url = "realm_address realm @ ''req''"
  have at: "snd w ?url = e"
    using w assms(1) by (simp add: holds_enclaves_def)
  obtain resp e' where step:
    "enclave_step enclave_env example_static (fit [of_nat (fst w)]) 10 answer_random cr e = (resp, e')"
    by fastforce
  have "holds_enclaves R (F(realm := e')) (fst w, (snd w)(?url := e'))"
    using w assms unfolding holds_enclaves_def by (auto dest: inj_onD)
  with step enclave_send [of w cr "realm_address realm" resp e', unfolded at, OF step]
  show "\<exists>ephemeral lifetime random resp e' w'.
      enclave_step enclave_env example_static ephemeral lifetime random cr e = (resp, e') \<and>
      send (env_net enclave_env) (cbor_client_request enclave_env) (cbor_client_response enclave_env)
        (env_http enclave_env) (realm_address realm) cr w = Some (Ok resp, w') \<and> holds_enclaves R (F(realm := e')) w'"
    by (intro exI [of _ "fit [of_nat (fst w)]"] exI [of _ 10] exI [of _ answer_random] exI [of _ resp]
        exI [of _ e'] exI [of _ "(fst w, (snd w)(?url := e'))"]) (simp del: fun_upd_apply)
qed (simp_all add: holds_enclaves_def enclave_env_def enclave_formats_def counted_def)

section \<open>Short answers\<close>

text \<open>What an enclave's answer can hold: nothing, or a padded response that claims at most what there is.\<close>

definition fine :: "bytes \<Rightarrow> bool" where
  "fine bs \<longleftrightarrow> bs = [] \<or> (\<exists>p. bs = encode_padded p \<and> unat (unpadded_length p) \<le> 436)"

fun fine_reply :: "client_response \<Rightarrow> bool" where
  "fine_reply (ResponseOk (HandshakeResponse hr lifetime)) \<longleftrightarrow>
     (\<exists>m. fine m \<and> response_ciphertext hr = m @ replicate 16 0)"
| "fine_reply (ResponseOk (TransportResponse c)) \<longleftrightarrow> (\<exists>m. fine m \<and> c = m @ replicate 16 0)"
| "fine_reply _ \<longleftrightarrow> True"

lemma Ok_map_err: "Ok x = map_err f q \<longleftrightarrow> q = Ok x" "map_err f q = Ok x \<longleftrightarrow> q = Ok x"
  by (cases q; auto)+

lemma fine_short: "fine bs \<Longrightarrow> \<not> overlong enclave_env bs"
  by (auto simp: fine_def overlong_def enclave_env_def enclave_formats_def from_slice_def length_encode_padded)

lemma served_fine:
  assumes "serve_payload enclave_env random payload s = Some (bs, s')"
  shows "fine bs"
proof -
  have formats: "cbor_secrets_response enclave_env = \<lparr>into_writer = (\<lambda>q. Ok (encode_answer q)), from_reader = (\<lambda>bs. Ok (decode_answer bs))\<rparr>"
    "into_writer (cbor_padded_response enclave_env) = (\<lambda>q. Ok (encode_padded q))"
    by (simp_all add: enclave_env_def enclave_formats_def)
  obtain resp p where p: "pad_response (cbor_secrets_response enclave_env) resp = Some (Ok p)" "bs = encode_padded p"
    using assms by (auto simp: serve_payload_def formats(2) Let_def split_beta split: sum.splits option.splits)
  have "into_writer (cbor_secrets_response enclave_env) resp = Ok (encode_answer resp)"
    by (simp add: formats)
  from pad_response_eq [OF this] p(1) have "unpadded_length p = of_nat (length (encode_answer resp))"
    by (auto split: if_splits)
  with length_encode_answer [of resp] have "unat (unpadded_length p) \<le> 436"
    by (simp add: unat_of_nat)
  with p(2) show ?thesis
    by (auto simp: fine_def)
qed

lemma example_encrypt: "encrypt_with_ad example_prims s m a = Some (r, s') \<Longrightarrow> r = Ok (m @ replicate 16 0)"
  by (auto simp: encrypt_with_ad_def example_prims_def ok_or_def bind_eq_Some_conv)

lemma example_decrypt: "decrypt_with_ad example_prims s (m @ replicate 16 0) a = Some (Ok p, s') \<Longrightarrow> p = m"
  by (auto simp: decrypt_with_ad_def example_prims_def ok_or_def bind_eq_Some_conv)

lemma enclave_replies_fine:
  assumes "enclave_step enclave_env static ephemeral lifetime random cr e = (resp, e')"
  shows "fine_reply resp"
proof -
  have prims: "env_prims enclave_env = example_prims"
    by (simp add: enclave_env_def enclave_formats_def)
  have shake: "fine bs" if "serve_handshake enclave_env random kind payload s = Some (bs, s')" for kind payload s bs s'
    using that served_fine by (auto simp: serve_handshake_def fine_def split: if_splits)
  have finish: "response_ciphertext hr = m @ replicate 16 0" if "server_finish example_prims sh m = Some (Ok (t, hr))" for sh m t hr
  proof -
    note finished = that
    obtain r s where "encrypt_with_ad example_prims (server_cipher sh) m (bytes_of (server_h sh)) = Some (r, s)"
      using finished by (auto simp: server_finish_def bind_eq_Some_conv)
    with finished example_encrypt [OF this] show ?thesis
      by (auto simp: server_finish_def bind_eq_Some_conv)
  qed
  have encrypt: "c = m @ replicate 16 0" if "transport_encrypt example_prims t m = Some (Ok c, t')" for t m c t'
    using that example_encrypt by (fastforce simp: transport_encrypt_def bind_eq_Some_conv)
  show ?thesis
    using assms unfolding enclave_step_def prims
    by (auto split: noise_request.splits option.splits sum.splits prod.splits dest!: shake finish encrypt served_fine)
qed

lemma enclave_client_request:
  assumes "send_client_request enclave_env realm cr st = Some (Ok resp, st')"
  shows "fine_reply resp"
proof -
  obtain resp' e where step: "enclave_step enclave_env example_static (fit [of_nat (fst (world st))]) 10 answer_random cr
      (snd (world st) (realm_address realm @ ''req'')) = (resp', e)"
    by fastforce
  have "resp = resp'"
    using assms enclave_send [OF step] by (auto simp: send_client_request_def io_map_err_def io_world_panics_def)
  with enclave_replies_fine [OF step] show ?thesis
    by simp
qed

lemma enclave_handshake:
  assumes "make_handshake_request enclave_env realm public_key payload st = Some (Ok (s, bs), st')"
  shows "fine bs"
proof -
  have prims: "env_prims enclave_env = example_prims"
    by (simp add: enclave_env_def enclave_formats_def)
  obtain hs i cr st1 st2 resp where sent: "send_client_request enclave_env realm cr st1 = Some (Ok resp, st2)"
    and finish: "finish_handshake enclave_env hs i resp st2 = Some (Ok (s, bs), st')"
    using assms unfolding make_handshake_request_def by (auto simp: io_bind_Some split: prod.splits)
  from finish obtain hr lifetime where resp: "resp = ResponseOk (HandshakeResponse hr lifetime)"
    by (auto simp: finish_handshake_def io_err_def split: client_response.splits noise_response.splits)
  from finish obtain t where t: "client_finish example_prims hs hr = Some (Ok (t, bs))"
    unfolding resp finish_handshake_def prims
    by (auto simp: io_bind_Some io_panics_def io_result_def io_return_def map_err_def split: option.splits sum.splits)
  obtain m where m: "fine m" "response_ciphertext hr = m @ replicate 16 0"
    using enclave_client_request [OF sent] by (auto simp: resp)
  from t have "bs = m"
    unfolding client_finish_def m(2)
    by (auto simp: bind_eq_Some_conv map_err_def dest: example_decrypt split: option.splits sum.splits)
  with m(1) show ?thesis
    by simp
qed

lemma enclave_transport:
  assumes "make_transport_request enclave_env realm session payload st = Some (Ok (s, bs), st')"
  shows "fine bs"
proof -
  have prims: "env_prims enclave_env = example_prims"
    by (simp add: enclave_env_def enclave_formats_def)
  obtain ss cr st1 st2 resp where sent: "send_client_request enclave_env realm cr st1 = Some (Ok resp, st2)"
    and finish: "finish_transport enclave_env ss resp st2 = Some (Ok (s, bs), st')"
    using assms unfolding make_transport_request_def
    by (auto simp: io_bind_Some io_map_err_Some Ok_map_err split: prod.splits)
  from finish obtain c where resp: "resp = ResponseOk (TransportResponse c)"
    by (auto simp: finish_transport_def io_err_def split: client_response.splits noise_response.splits)
  from finish obtain t where t: "transport_decrypt example_prims (session_transport ss) c = Some (Ok bs, t)"
    unfolding resp finish_transport_def prims
    by (auto simp: io_bind_Some io_panics_def io_result_def io_return_def Ok_map_err split: option.splits)
  obtain m where m: "fine m" "c = m @ replicate 16 0"
    using enclave_client_request [OF sent] by (auto simp: resp)
  from t have "bs = m"
    unfolding m(2) by (auto simp: transport_decrypt_def bind_eq_Some_conv dest: example_decrypt)
  with m(1) show ?thesis
    by simp
qed

lemma enclave_short_answers: "short_answers enclave_env realm"
  unfolding short_answers_def
proof (intro allI impI)
  fix public_key session payload nfs st s bs st'
  assume "try_make_request enclave_env realm public_key session payload nfs st = Some (Ok (s, bs), st')"
  then have "fine bs"
    by (auto simp: try_make_request_def io_bind_Some io_map_err_Some Ok_map_err io_err_def dest: enclave_handshake enclave_transport
        split: option.splits if_splits)
  then show "\<not> overlong enclave_env bs"
    by (rule fine_short)
qed

section \<open>A request\<close>

text \<open>The client has a session that the enclave has lost.\<close>

definition enclave_start :: "gf5 enclave" where
  "enclave_start = \<lparr>enclave_sessions = (\<lambda>i. None), enclave_record = SelfDestructed\<rparr>"

definition lost_client_session :: session where
  "lost_client_session = \<lparr>session_session_id = SessionId 1,
     session_transport = \<lparr>inbound = cipher_state_new (fit [1]), outbound = cipher_state_new (fit [2])\<rparr>,
     session_lifetime = 10, session_last_used = 5\<rparr>"

definition enclave_client :: "enclave_world client_state" where
  "enclave_client = \<lparr>world = (0, \<lambda>url. enclave_start),
     sessions = (\<lambda>i. if i = realm_id hardware_realm then Some (Some lost_client_session) else None)\<rparr>"

lemma enclave_env_sel:
  "env_prims enclave_env = example_prims" "env_curve enclave_env = example_curve"
  "env_random_scalar enclave_env = counted nonzero" "executor_ok enclave_env"
  by (simp_all add: enclave_env_def enclave_formats_def executor_ok_def)

lemma enclave_env_laws: "curve_laws (env_curve enclave_env)" "prim_laws (env_prims enclave_env)"
  unfolding enclave_env_sel by (rule example_curve_laws example_prim_laws)+

theorem hardware_request_answered_witness:
  "\<exists>s st. make_request enclave_env hardware_realm Delete enclave_client = Some (Ok (DeleteResponse DeleteOk), st) \<and>
     sessions st (realm_id hardware_realm) = Some (Some s) \<and> messages_left 5 (session_transport s) \<and>
     enclave_record (snd (world st) (realm_address hardware_realm @ ''req'')) = Unregistered"
proof -
  let ?A = "\<lambda>e. holds_enclaves {hardware_realm} ((\<lambda>_. enclave_start)(hardware_realm := e))"
  have del: "delivers enclave_env hardware_realm example_static ?A"
    by (rule enclave_delivers) simp_all
  have key: "realm_public_key hardware_realm = Some (bytes_of (x25519_public (env_prims enclave_env) example_static))"
    by (simp add: enclave_env_sel hardware_realm_def example_prims_def example_static_def)
  have slot: "sessions enclave_client (realm_id hardware_realm) = Some (Some lost_client_session)"
    by (simp add: enclave_client_def)
  have matches: "session_matches (env_prims enclave_env) (Some lost_client_session) enclave_start"
    by (simp add: session_matches_def enclave_start_def)
  have left: "messages_left (Suc 5) (session_transport s)" if "Some lost_client_session = Some s" for s
    using that by (auto simp: messages_left_def lost_client_session_def cipher_state_new_def)
  have world: "?A enclave_start (world enclave_client)"
    by (simp add: holds_enclaves_def enclave_client_def)
  from hardware_request_answered [OF enclave_env_laws(2) enclave_codecs del key slot matches left _ world, of Delete]
  show ?thesis
    by (auto simp: holds_enclaves_def)
qed

section \<open>A client of three enclaves\<close>

definition enclave_realm :: "nat \<Rightarrow> string realm" where
  "enclave_realm n = (example_realm n)\<lparr>realm_public_key := Some (replicate 32 5)\<rparr>"

definition enclave_configuration :: "string configuration" where
  "enclave_configuration = example_configuration\<lparr>realms := map enclave_realm [1, 2, 3]\<rparr>"

definition enclave_checked :: "string checked_configuration" where
  "enclave_checked = CheckedConfiguration enclave_configuration"

lemma enclave_checked: "checked_configuration_from enclave_configuration = Some enclave_checked"
proof -
  have ids: "realm_id (enclave_realm m) \<le> realm_id (enclave_realm n) \<longleftrightarrow> (of_nat m :: u8) \<le> of_nat n"
    "realm_id (enclave_realm m) = realm_id (enclave_realm n) \<longleftrightarrow> (of_nat m :: u8) = of_nat n" for m n
    by (simp_all add: enclave_realm_def example_realm_def fit_single_inject less_eq_realm_id_def less_eq_barray_def take_Cons'
        order.order_iff_strict)
  have "configuration_ok enclave_configuration"
    by (auto simp: configuration_ok_def enclave_configuration_def example_configuration_def ids enclave_realm_def
        example_realm_def fit_single_inject)
  moreover have "sort_key realm_id (realms enclave_configuration) = realms enclave_configuration"
    by (simp add: enclave_configuration_def ids)
  ultimately show ?thesis
    by (simp add: checked_configuration_from_eq enclave_checked_def)
qed

lemma enclave_crealms: "crealms enclave_checked = map enclave_realm [1, 2, 3]"
  by (simp add: enclave_checked_def enclave_configuration_def)

lemma enclave_joinable: "joinable enclave_env realm"
  by (simp add: joinable_def enclave_env_def enclave_formats_def example_net_def)

lemma enclave_pins:
  "length (user_info_bytes info) < 2 ^ 32 \<Longrightarrow> \<exists>a s. pin_hash (env_prims enclave_env) pin mode version info = Some (Some (a, s))"
  unfolding enclave_env_sel by (rule example_pin_hash)

definition enclaves_started :: "enclave_world client_state" where
  "enclaves_started = \<lparr>world = (0, \<lambda>url. enclave_start\<lparr>enclave_record := Unregistered\<rparr>), sessions = initial_sessions enclave_checked\<rparr>"

lemma enclaves_started_budget:
  "n \<le> 3 \<Longrightarrow> session_budget (realm_id ` set (crealms enclave_checked)) (n * length (crealms enclave_checked)) enclaves_started"
  using fresh_session_budget [of enclaves_started enclave_checked] by (simp add: enclaves_started_def enclave_crealms)

theorem registration_never_panics_witness:
  "perform_register enclave_env enclave_checked (Pin [1, 2]) (UserSecret [1, 2, 3]) (UserInfo [3])
     \<lparr>num_guesses = 5\<rparr> enclaves_started \<noteq> None"
  by (rule registration_never_panics [OF enclave_env_sel(4) enclave_env_laws(2) enclave_short_answers enclave_checked _
        _ _ enclave_joinable enclaves_started_budget, where b = "[1, 2, 3]"])
    (use enclave_pins in \<open>simp_all add: user_secret_from_Some enclave_configuration_def example_configuration_def\<close>)

theorem recovery_never_panics_witness:
  "recover_key enclave_env (Pin [1, 2]) (UserInfo [3]) enclave_checked enclaves_started \<noteq> None"
  by (rule recovery_never_panics [OF enclave_env_sel(4) enclave_env_laws enclave_short_answers enclave_checked _ _
        enclave_joinable enclaves_started_budget])
    (use enclave_pins in \<open>simp_all add: enclave_env_def enclave_formats_def\<close>)

definition hardware_client :: "(enclave_world, string) client" where
  "hardware_client = \<lparr>client_configuration = enclave_checked, client_previous_configurations = [],
     client_auth_token_manager = (\<lambda>i w. (Some (AuthToken (SecretString ''token'')), w)),
     client_http = enclave_http, client_sleeper = (\<lambda>d w. w)\<rparr>"

lemma hardware_client_sel [simp]:
  "client_configuration hardware_client = enclave_checked" "client_previous_configurations hardware_client = []"
  by (simp_all add: hardware_client_def)

lemma hardware_client_env: "client_env enclave_env hardware_client = enclave_env"
  by (simp add: client_env_def hardware_client_def enclave_env_def enclave_formats_def)

lemma enclaves_behind_client:
  "enclaves_behind (client_env enclave_env hardware_client) (set (crealms enclave_checked)) (\<lambda>_. example_static)
     (holds_enclaves (set (crealms enclave_checked)))"
proof -
  let ?R = "set (crealms enclave_checked)"
  have inj: "inj_on realm_address ?R"
    by (auto simp: inj_on_def enclave_crealms enclave_realm_def example_address char_of_eq_iff)
  have keys: "realm_public_key realm = Some (bytes_of (x25519_public (env_prims enclave_env) example_static))"
    if "realm \<in> ?R" for realm
    using that by (auto simp: enclave_crealms enclave_realm_def enclave_env_sel example_prims_def example_static_def)
  have kept: "holds_enclaves ?R F w \<Longrightarrow> \<exists>F'. (\<forall>realm. forgotten (F realm) (F' realm)) \<and>
      holds_enclaves ?R F' (m, snd w)" for F w m
    by (intro exI [of _ F]) (simp add: holds_enclaves_def)
  have "\<exists>F'. (\<forall>realm. forgotten (F realm) (F' realm)) \<and> holds_enclaves ?R F' (m, forget_sessions \<circ> snd w)"
    if "holds_enclaves ?R F w" for F w m
    using that by (intro exI [of _ "\<lambda>realm. forget_sessions (F realm)"])
      (simp add: holds_enclaves_def forgotten_def forget_sessions_def)
  with kept keys enclave_delivers [OF _ inj] enclave_codecs show ?thesis
    unfolding enclaves_behind_def hardware_client_env
    by (auto simp: enclave_env_def enclave_formats_def counted_def)
qed

definition hardware_operations :: "operation list" where
  "hardware_operations =
     [Recovering (Pin (ascii ''1234'')) (UserInfo (ascii ''presso'')),
      Registering (Pin (ascii ''1234'')) (UserSecret (ascii ''teyla21'')) (UserInfo (ascii ''presso'')) \<lparr>num_guesses = 2\<rparr>,
      Recovering (Pin (ascii ''1212'')) (UserInfo (ascii ''presso'')),
      Recovering (Pin (ascii ''1234'')) (UserInfo (ascii ''presso'')), Deleting]"

theorem hardware_realms_are_vault_witness:
  "\<exists>st. client_run enclave_env hardware_client hardware_operations
      \<lparr>world = (0, \<lambda>url. enclave_start\<lparr>enclave_record := Unregistered\<rparr>), sessions = initial_sessions enclave_checked\<rparr> =
    Some ([RecoverOutcome (Err recover_error.NotRegistered), RegisterOutcome (Ok ()),
        RecoverOutcome (Err (InvalidPin 1)), RecoverOutcome (Ok (UserSecret (ascii ''teyla21''))),
        DeleteOutcome (Ok ())], st)"
proof -
  let ?R = "set (crealms enclave_checked)" and ?E = "client_env enclave_env hardware_client"
  let ?F = "\<lambda>_ :: string realm. enclave_start\<lparr>enclave_record := Unregistered\<rparr>"
  let ?w = "(0, \<lambda>url. enclave_start\<lparr>enclave_record := Unregistered\<rparr>) :: enclave_world"
  have inj: "inj_on (scalar_from (env_curve enclave_env)) {1..of_nat (length (crealms enclave_checked))}"
    using example_inj by (simp add: enclave_env_sel enclave_crealms example_crealms)
  have nz: "fst (env_random_scalar enclave_env w) \<noteq> 0" for w
    by (simp add: enclave_env_sel counted_def nonzero_def)
  have threshold: "0 < register_threshold (the_configuration enclave_checked)"
    by (simp add: enclave_checked_def enclave_configuration_def example_configuration_def)
  have sep: "separates ?E mode demo_pins" for mode
    using demo_pins_separate [of realm_client mode]
    by (simp add: separates_def commitment_of_def enclave_env_sel)
  have ok: "\<And>op. op \<in> set hardware_operations \<Longrightarrow> operation_ok enclave_checked ?R demo_pins op"
    using demo_secrets by (auto simp: hardware_operations_def demo_pins_def)
  have short: "3 * length (crealms enclave_checked) * length hardware_operations < 2 ^ 63"
    by (simp add: hardware_operations_def enclave_crealms)
  have start: "holds_enclaves ?R ?F ?w"
    by (simp add: holds_enclaves_def)
  have v: "vault_in ?E enclave_checked ?R demo_pins Vacant (enclave_record \<circ> ?F)"
    by (simp add: vault_in_def)
  from hardware_realms_are_vault [OF enclave_env_sel(4) enclave_env_laws, of enclave_configuration hardware_client,
      unfolded hardware_client_sel, OF enclave_checked refl inj nz enclaves_behind_client threshold sep ok short start v]
  obtain st where "client_run enclave_env hardware_client hardware_operations
      \<lparr>world = ?w, sessions = initial_sessions enclave_checked\<rparr> = Some (fst (vault_run hardware_operations Vacant), st)"
    by blast
  moreover have "fst (vault_run hardware_operations Vacant) =
      [RecoverOutcome (Err recover_error.NotRegistered), RegisterOutcome (Ok ()),
        RecoverOutcome (Err (InvalidPin 1)), RecoverOutcome (Ok (UserSecret (ascii ''teyla21''))),
        DeleteOutcome (Ok ())]"
    by (simp add: hardware_operations_def ascii_def)
  ultimately show ?thesis
    by simp
qed

end
