(* ===== verification/Token_Cli.thy ===== *)
theory Token_Cli
  imports Realm_Auth
begin

text \<open>
  The command line tool that makes and checks authentication tokens (rust/cli/tokens/src/main.rs).
  Parsing of the arguments is clap's; a command arrives with its arguments parsed. An error of
  the crate \<open>jwt_simple\<close> is its text; \<open>downcast_jwt\<close> tells which of the errors the tool knows it
  is, \<open>debug_jwt\<close> how it prints. The output is the lines written to the two streams, in order,
  and the exit code.
\<close>

section \<open>Commands and output\<close>

record token_args =
  arg_user :: string
  arg_tenant :: string
  arg_realm :: realm_id
  arg_key :: secret_bytes_vec
  arg_version :: auth_key_version
  arg_algorithm :: auth_key_algorithm

datatype command =
    Create token_args scope
  | Validate auth_token token_args
  | Random auth_key_algorithm

datatype line = Stdout string | Stderr string

record tool_output =
  output_lines :: "line list"
  exit_code :: nat

text \<open>The value parsers of the arguments.\<close>

definition parse_auth_key :: "hex_codec \<Rightarrow> string \<Rightarrow> secret_bytes_vec option" where
  "parse_auth_key X buf = map_option SecretBytesVec (hex_decode X buf)"

definition parse_auth_key_version :: "string \<Rightarrow> auth_key_version option" where
  "parse_auth_key_version buf = map_option AuthKeyVersion (parse_u64 buf)"

section \<open>Create\<close>

definition run_create ::
  "('k, 'v) jwt_lib \<Rightarrow> hex_codec \<Rightarrow> token_args \<Rightarrow> scope \<Rightarrow> u64 \<Rightarrow> tool_output panics" where
  "run_create J X args scope now = do {
     token \<leftarrow> create_token J X
       \<lparr>claim_issuer = arg_tenant args, claim_subject = arg_user args,
        claim_audience = arg_realm args, claim_scope = Some scope\<rparr>
       \<lparr>key_data = arg_key args, key_algorithm = arg_algorithm args\<rparr> (arg_version args) now;
     Some \<lparr>output_lines = [Stdout (expose_token token)], exit_code = 0\<rparr>
   }"

section \<open>Validate\<close>

datatype jwt_error =
    NotJWT
  | InvalidSignature
  | TokenHasExpired
  | TokenNotValidYet
  | RequiredAudienceMismatch
  | AlgorithmMismatch
  | OtherJWTError

record jwt_error_lib =
  downcast_jwt :: "string \<Rightarrow> jwt_error option"
  debug_jwt :: "string \<Rightarrow> string"

fun join_strings :: "string \<Rightarrow> string list \<Rightarrow> string" where
  "join_strings sep [] = ''''"
| "join_strings sep [s] = s"
| "join_strings sep (s # ss) = s @ sep @ join_strings sep ss"

definition jwt_error_text :: "jwt_error_lib \<Rightarrow> hex_codec \<Rightarrow> token_args \<Rightarrow> string \<Rightarrow> string" where
  "jwt_error_text D X args e =
     (case downcast_jwt D e of
        Some NotJWT \<Rightarrow> ''provided token does not have valid jwt shape, is it a jwt?''
      | Some InvalidSignature \<Rightarrow> ''token signed with incorrect key''
      | Some TokenHasExpired \<Rightarrow> ''token has expired, verify the `exp` field in your `claims`.''
      | Some TokenNotValidYet \<Rightarrow> ''token not yet valid, verify the `nbf` field in your `claims`.''
      | Some RequiredAudienceMismatch \<Rightarrow>
          ''invalid `aud` in `claims`. (expected `aud` of '' @ hex_encode X (bytes_of (id_bytes (arg_realm args))) @ '')''
      | Some AlgorithmMismatch \<Rightarrow>
          ''invalid `algorithm` in `header`. verify you are using HS256 to sign your token.''
      | _ \<Rightarrow> ''unexpected issuer parsing jwt '' @ debug_jwt D e)"

text \<open>The errors reported for what the validator rejects; \<open>BadKeyId\<close> is left to the second check.\<close>

fun rejection_errors :: "jwt_error_lib \<Rightarrow> hex_codec \<Rightarrow> token_args \<Rightarrow> validation_error \<Rightarrow> string list" where
  "rejection_errors D X args BadKeyId = []"
| "rejection_errors D X args LifetimeTooLong =
     [''invalid `nbf` and `exp`. `exp` - `nbf` must be <= '' @ show_nat (unat MAX_LIFETIME_SECONDS)]"
| "rejection_errors D X args BadAudience =
     [''unable to parse `aud` in `claims`. verify your `aud` is a string of hex bytes'']"
| "rejection_errors D X args BadScope =
     [''provided scope is not valid or missing. Should be one of '' @ join_strings '', '' scope_strings]"
| "rejection_errors D X args BadIssuer =
     [''provided issuer is not valid or missing. Should be '' @ arg_tenant args]"
| "rejection_errors D X args BadSubject =
     [''provided subject is not valid or missing. Should be '' @ arg_user args]"
| "rejection_errors D X args (Jwt e) = [jwt_error_text D X args e]"

text \<open>\<open>({} != {})\<close>\<close>

definition mismatch :: "string \<Rightarrow> string \<Rightarrow> string" where
  "mismatch actual expected = ''('' @ actual @ '' != '' @ expected @ '')''"

definition claim_warnings :: "token_args \<Rightarrow> token_claims \<Rightarrow> string list" where
  "claim_warnings args claims =
     (if claim_issuer claims \<noteq> arg_tenant args
      then [''unexpected `iss` in `claims` '' @ mismatch (claim_issuer claims) (arg_tenant args)] else []) @
     (if claim_subject claims \<noteq> arg_user args
      then [''unexpected `sub` in `claims` '' @ mismatch (claim_subject claims) (arg_user args)] else []) @
     (if claim_scope claims = None
      then [''no 'scope' supplied in token. A scope (one of '' @ join_strings '', '' scope_strings @
        '') will soon be required.''] else [])"

definition key_id_warnings :: "token_args \<Rightarrow> string \<times> auth_key_version \<Rightarrow> string list" where
  "key_id_warnings args tv =
     (case tv of (t, v) \<Rightarrow>
       (if t \<noteq> arg_tenant args
        then [''unexpected `tenant` in `kid` '' @ mismatch t (arg_tenant args)] else []) @
       (if v \<noteq> arg_version args
        then [''unexpected `version` in `kid` '' @
          mismatch (show_nat (unat (key_version v))) (show_nat (unat (key_version (arg_version args))))] else []))"

definition report :: "string list \<Rightarrow> string list \<Rightarrow> tool_output" where
  "report errors warnings =
     (let ls = map (\<lambda>e. Stderr (''ERROR: '' @ e)) errors @ map (\<lambda>w. Stdout (''WARNING: '' @ w)) warnings in
      if errors = [] then \<lparr>output_lines = ls @ [Stdout ''Token is valid!''], exit_code = 0\<rparr>
      else \<lparr>output_lines = ls, exit_code = 1\<rparr>)"

definition run_validate ::
  "build \<Rightarrow> ('k, 'v) jwt_lib \<Rightarrow> jwt_error_lib \<Rightarrow> hex_codec \<Rightarrow> auth_token \<Rightarrow> token_args \<Rightarrow> u64 \<Rightarrow> tool_output panics" where
  "run_validate build J D X token args now = do {
     let validator = validator_new X (arg_realm args) AnyScopeOrMissing;
     r \<leftarrow> validate build J X validator token \<lparr>key_data = arg_key args, key_algorithm = arg_algorithm args\<rparr> now;
     let (errors, warnings) = (case r of
       Ok claims \<Rightarrow> ([], claim_warnings args claims)
     | Err e \<Rightarrow> (rejection_errors D X args e, []));
     let (errors, warnings) = (case token_key_id J token of
       Ok tv \<Rightarrow> (errors, warnings @ key_id_warnings args tv)
     | Err _ \<Rightarrow> (errors @ [''invalid `kid` not in the format of `tenant:version`''], warnings));
     Some (report errors warnings)
   }"

section \<open>Random keys\<close>

text \<open>The key generators of the crate: for RSA, generation and export may fail.\<close>

record 'r keygen =
  hs256_generate :: "'r \<Rightarrow> bytes \<times> 'r"
  rs256_generate :: "'r \<Rightarrow> (bytes option \<times> bytes option) option \<times> 'r"
  eddsa_generate :: "'r \<Rightarrow> (bytes \<times> bytes) \<times> 'r"

definition run_random :: "'r keygen \<Rightarrow> hex_codec \<Rightarrow> auth_key_algorithm \<Rightarrow> 'r \<Rightarrow> tool_output panics" where
  "run_random G X algorithm rng =
     (case algorithm of
        HS256 \<Rightarrow> Some \<lparr>output_lines = [Stdout (hex_encode X (fst (hs256_generate G rng)))], exit_code = 0\<rparr>
      | RS256 \<Rightarrow> do {
          (private, public) \<leftarrow> fst (rs256_generate G rng);
          private \<leftarrow> private;
          public \<leftarrow> public;
          Some \<lparr>output_lines = [Stdout (''private key: '' @ hex_encode X private),
                Stdout (''public key: '' @ hex_encode X public)], exit_code = 0\<rparr>
        }
      | EdDSA \<Rightarrow> (let (private, public) = fst (eddsa_generate G rng) in
          Some \<lparr>output_lines = [Stdout (''private key: '' @ hex_encode X private),
                Stdout (''public key: '' @ hex_encode X public)], exit_code = 0\<rparr>))"

definition run_tool ::
  "build \<Rightarrow> ('k, 'v) jwt_lib \<Rightarrow> jwt_error_lib \<Rightarrow> 'r keygen \<Rightarrow> hex_codec \<Rightarrow> command \<Rightarrow> u64 \<Rightarrow> 'r \<Rightarrow> tool_output panics" where
  "run_tool build J D G X command now rng =
     (case command of
        Create args scope \<Rightarrow> run_create J X args scope now
      | Validate token args \<Rightarrow> run_validate build J D X token args now
      | Random algorithm \<Rightarrow> run_random G X algorithm rng)"

section \<open>Lemmas\<close>

lemma exit_code_report [simp]: "exit_code (report errors warnings) = (if errors = [] then 0 else 1)"
  by (simp add: report_def Let_def)

lemma rejection_errors_Nil [simp]: "rejection_errors D X args e = [] \<longleftrightarrow> e = BadKeyId"
  by (cases e) simp_all

lemma validated_key_id:
  assumes "validate build J X self token key now = Some (Ok claims)"
  obtains version where "token_key_id J token = Ok (claim_issuer claims, version)"
proof -
  obtain c where "check_claims J X self token c = Ok claims"
    by (rule validate_Ok [OF assms])
  then show thesis
    using that by (auto simp: check_claims_Ok)
qed

lemma run_validate_Ok:
  assumes "validate build J X (validator_new X (arg_realm args) AnyScopeOrMissing) token
    \<lparr>key_data = arg_key args, key_algorithm = arg_algorithm args\<rparr> now = Some (Ok claims)"
    and "token_key_id J token = Ok tv"
  shows "run_validate build J D X token args now =
    Some (report [] (claim_warnings args claims @ key_id_warnings args tv))"
  using assms by (simp add: run_validate_def)

lemma run_validate_Err:
  assumes "validate build J X (validator_new X (arg_realm args) AnyScopeOrMissing) token
    \<lparr>key_data = arg_key args, key_algorithm = arg_algorithm args\<rparr> now = Some (Err e)"
  shows "\<exists>out. run_validate build J D X token args now = Some out \<and>
    (exit_code out = 0 \<longleftrightarrow> e = BadKeyId \<and> (\<exists>tv. token_key_id J token = Ok tv))"
  using assms by (cases "token_key_id J token") (auto simp: run_validate_def)

section \<open>Properties\<close>

text \<open>The tool accepts the tokens it makes: for the arguments they were made with and the public
  key that goes with the signing key, during the ten minutes of their life, it prints that the
  token is valid, without an error or a warning.\<close>

lemma tool_accepts_its_tokens:
  assumes "hex_laws X" and "jwt_laws J"
    and "run_tool build J D G X (Create args scope) now rng = Some \<lparr>output_lines = [Stdout token], exit_code = 0\<rparr>"
    and "signing_key J \<lparr>key_data = arg_key args, key_algorithm = arg_algorithm args\<rparr> = Some k"
    and "verifying_key_for J \<lparr>key_data = public, key_algorithm = arg_algorithm args\<rparr> = Some v" and "verifies J k v"
    and "length token \<le> 1000" and "now \<le> later" and "later < now + 600" and "now \<le> now + 600"
  shows "run_tool build J D G X (Validate (AuthToken (SecretString token)) (args\<lparr>arg_key := public\<rparr>)) later rng =
    Some \<lparr>output_lines = [Stdout ''Token is valid!''], exit_code = 0\<rparr>"
proof -
  define claims where "claims = \<lparr>claim_issuer = arg_tenant args, claim_subject = arg_user args,
    claim_audience = arg_realm args, claim_scope = Some scope\<rparr>"
  have "create_token J X claims \<lparr>key_data = arg_key args, key_algorithm = arg_algorithm args\<rparr> (arg_version args) now =
      Some (AuthToken (SecretString token))"
    using assms(3) by (auto simp: run_tool_def run_create_def bind_eq_Some_conv claims_def expose_token_def
        split: option.splits elim: auth_token.exhaust)
  from validate_created [OF assms(1,2) this assms(4-6) _ assms(8-10), of AnyScopeOrMissing build]
  have "validate build J X (validator_new X (claim_audience claims) AnyScopeOrMissing) (AuthToken (SecretString token))
        \<lparr>key_data = public, key_algorithm = arg_algorithm args\<rparr> later = Some (Ok claims)"
    "token_key_id J (AuthToken (SecretString token)) = Ok (claim_issuer claims, arg_version args)"
    using assms(7) by (auto simp: expose_token_def)
  with run_validate_Ok [of build J X "args\<lparr>arg_key := public\<rparr>" "AuthToken (SecretString token)" later claims] show ?thesis
    by (simp add: run_tool_def claims_def claim_warnings_def key_id_warnings_def report_def)
qed

text \<open>C38. The tool calls a token valid exactly when a realm that asks for no scope accepts it, and in one
  more case: when the validator rejects it with \<open>BadKeyId\<close> although its key id can be parsed,
  because the tenant of the key id is not the issuer.\<close>

theorem tool_verdict:
  assumes "validate build J X (validator_new X (arg_realm args) AnyScopeOrMissing) token
    \<lparr>key_data = arg_key args, key_algorithm = arg_algorithm args\<rparr> now = Some r"
  shows "\<exists>out. run_tool build J D G X (Validate token args) now rng = Some out \<and>
    (exit_code out = 0 \<longleftrightarrow>
      (\<exists>claims. r = Ok claims) \<or> r = Err BadKeyId \<and> (\<exists>tv. token_key_id J token = Ok tv))"
proof (cases r)
  case (Inl e)
  then show ?thesis
    using run_validate_Err [of build J X args token now e D] assms by (auto simp: run_tool_def)
next
  case (Inr claims)
  then obtain version where "token_key_id J token = Ok (claim_issuer claims, version)"
    using assms validated_key_id by blast
  then show ?thesis
    using run_validate_Ok [of build J X args token now claims _ D] assms Inr by (simp add: run_tool_def)
qed

end
