(* ===== verification/Foreign_C.thy ===== *)
theory Foreign_C
  imports Bridge Client_Auth
begin

text \<open>
  The C interface (rust/sdk/bridge/ffi/src/lib.rs and auth.rs): its entry points, the boxes whose
  pointers they give away, and the operations of the client that they start in the background
  and that answer by a callback. An entry point returns, panics (an assertion, an \<open>expect\<close> or an
  \<open>unwrap\<close> fails), or is undefined because it is given a pointer that does not point to a live
  box of the type it expects. Memory allocation is a parameter.
\<close>

section \<open>Outcomes\<close>

datatype 'a ffi = Returned 'a | Panicked | Undefined

fun ffi_bind :: "'a ffi \<Rightarrow> ('a \<Rightarrow> 'b ffi) \<Rightarrow> 'b ffi" where
  "ffi_bind (Returned x) f = f x"
| "ffi_bind Panicked f = Panicked"
| "ffi_bind Undefined f = Undefined"

fun ffi_panics :: "'a panics \<Rightarrow> 'a ffi" where
  "ffi_panics (Some x) = Returned x"
| "ffi_panics None = Panicked"

fun ffi_map_list :: "('a \<Rightarrow> 'b ffi) \<Rightarrow> 'a list \<Rightarrow> 'b list ffi" where
  "ffi_map_list f [] = Returned []"
| "ffi_map_list f (x # xs) = ffi_bind (f x) (\<lambda>y. ffi_bind (ffi_map_list f xs) (\<lambda>ys. Returned (y # ys)))"

lemma ffi_bind_Returned: "ffi_bind m f = Returned y \<longleftrightarrow> (\<exists>x. m = Returned x \<and> f x = Returned y)"
  by (cases m) auto

lemma ffi_bind_Undefined: "ffi_bind m f = Undefined \<longleftrightarrow> m = Undefined \<or> (\<exists>x. m = Returned x \<and> f x = Undefined)"
  by (cases m) auto

lemma ffi_panics_Returned [simp]: "ffi_panics m = Returned x \<longleftrightarrow> m = Some x"
  by (cases m) auto

lemma ffi_panics_defined [simp]: "ffi_panics m \<noteq> Undefined"
  by (cases m) auto

lemma ffi_map_list_Undefined: "ffi_map_list f xs = Undefined \<Longrightarrow> \<exists>x \<in> set xs. f x = Undefined"
  by (induction xs) (auto simp: ffi_bind_Undefined)

lemma ffi_map_list_Returned: "ffi_map_list f xs = Returned ys \<longleftrightarrow> list_all2 (\<lambda>x y. f x = Returned y) xs ys"
  by (induction xs arbitrary: ys) (auto simp: ffi_bind_Returned list_all2_Cons1)

section \<open>Boxes\<close>

text \<open>A pointer is a number, null is 0. What \<open>Box::into_raw\<close> has given away and nobody has taken back is live.\<close>

type_synonym ptr = nat

type_synonym slots = "realm_id \<Rightarrow> session option option"

datatype ('w, 'u) box =
    is_ConfigurationBox: ConfigurationBox (boxed_configuration: "'u configuration")
  | is_ClientBox: ClientBox (boxed_client: "('w, 'u) client") (boxed_slots: slots)
  | is_GeneratorBox: GeneratorBox (boxed_generator: auth_token_generator)
  | is_TokenBox: TokenBox (boxed_token: auth_token)

type_synonym ('w, 'u) heap = "ptr \<Rightarrow> ('w, 'u) box option"

definition allocates :: "(('w, 'u) heap \<Rightarrow> ptr) \<Rightarrow> bool" where
  "allocates malloc \<longleftrightarrow> (\<forall>h. finite (dom h) \<longrightarrow> malloc h \<noteq> 0 \<and> h (malloc h) = None)"

definition into_raw :: "(('w, 'u) heap \<Rightarrow> ptr) \<Rightarrow> ('w, 'u) box \<Rightarrow> ('w, 'u) heap \<Rightarrow> ptr \<times> ('w, 'u) heap" where
  "into_raw malloc b h = (malloc h, h(malloc h \<mapsto> b))"

definition assert_not_null :: "ptr \<Rightarrow> unit ffi" where
  "assert_not_null p = (if p = 0 then Panicked else Returned ())"

text \<open>\<open>&*p\<close>, and \<open>drop(Box::from_raw(p))\<close>, for the kind of box that a pointer is declared to point to.\<close>

definition deref :: "(('w, 'u) box \<Rightarrow> bool) \<Rightarrow> ptr \<Rightarrow> ('w, 'u) heap \<Rightarrow> ('w, 'u) box ffi" where
  "deref kind p h = (case h p of Some b \<Rightarrow> if kind b then Returned b else Undefined | None \<Rightarrow> Undefined)"

definition drop_box :: "(('w, 'u) box \<Rightarrow> bool) \<Rightarrow> ptr \<Rightarrow> ('w, 'u) heap \<Rightarrow> ('w, 'u) heap ffi" where
  "drop_box kind p h = ffi_bind (deref kind p h) (\<lambda>_. Returned (h(p := None)))"

section \<open>Strings and realms\<close>

datatype c_string = NullString | NotUtf8 | CString string

fun read_c_string :: "c_string \<Rightarrow> string panics" where
  "read_c_string NullString = None"
| "read_c_string NotUtf8 = None"
| "read_c_string (CString s) = Some s"

record ffi_realm =
  ffi_realm_id :: "16 barray"
  ffi_realm_address :: c_string
  ffi_realm_public_key :: "u8 unmanaged_array option"

definition ffi_realm_from :: "(string \<Rightarrow> 'u option) \<Rightarrow> ffi_realm \<Rightarrow> 'u realm panics" where
  "ffi_realm_from parse_url ffi = do {
     address_str \<leftarrow> read_c_string (ffi_realm_address ffi);
     address \<leftarrow> parse_url address_str;
     public_key \<leftarrow> (case ffi_realm_public_key ffi of
         None \<Rightarrow> Some None
       | Some key \<Rightarrow> map_option Some (unmanaged_to_vec key));
     Some \<lparr>realm_id = RealmId (ffi_realm_id ffi), realm_address = address, realm_public_key = public_key\<rparr>
   }"

section \<open>Configurations\<close>

text \<open>Parsing of URLs and of JSON is left to the crates \<open>url\<close> and \<open>serde_json\<close>.\<close>

definition ffi_configuration_create ::
  "(('w, 'u) heap \<Rightarrow> ptr) \<Rightarrow> (string \<Rightarrow> 'u option) \<Rightarrow> ffi_realm unmanaged_array \<Rightarrow> u32 \<Rightarrow> u32 \<Rightarrow>
     bridge_pin_hashing_mode \<Rightarrow> ('w, 'u) heap \<Rightarrow> (ptr \<times> ('w, 'u) heap) ffi" where
  "ffi_configuration_create malloc parse_url realm_array register_at recover_at mode h =
     ffi_panics (do {
       ffi_realms \<leftarrow> as_slice realm_array;
       rs \<leftarrow> those (map (ffi_realm_from parse_url) ffi_realms);
       mode \<leftarrow> pin_hashing_mode_from (bridge_pin_hashing_mode_code mode);
       Some (into_raw malloc (ConfigurationBox
         \<lparr>realms = rs, register_threshold = register_at,
          recover_threshold = recover_at, config_pin_hashing_mode = mode\<rparr>) h)
     })"

definition ffi_configuration_create_from_json ::
  "(('w, 'u) heap \<Rightarrow> ptr) \<Rightarrow> (string \<Rightarrow> 'u configuration option) \<Rightarrow> c_string \<Rightarrow> ('w, 'u) heap \<Rightarrow>
     (ptr \<times> ('w, 'u) heap) ffi" where
  "ffi_configuration_create_from_json malloc from_json json h =
     ffi_panics (do {
       json_str \<leftarrow> read_c_string json;
       c \<leftarrow> from_json json_str;
       Some (into_raw malloc (ConfigurationBox c) h)
     })"

definition ffi_configuration_destroy :: "ptr \<Rightarrow> ('w, 'u) heap \<Rightarrow> ('w, 'u) heap ffi" where
  "ffi_configuration_destroy configuration h =
     ffi_bind (assert_not_null configuration) (\<lambda>_. drop_box is_ConfigurationBox configuration h)"

definition ffi_configurations_are_equal :: "ptr \<Rightarrow> ptr \<Rightarrow> ('w, 'u) heap \<Rightarrow> bool ffi" where
  "ffi_configurations_are_equal configuration1 configuration2 h =
     (if configuration1 = 0 \<and> configuration2 = 0 then Returned True
      else if configuration1 = 0 \<or> configuration2 = 0 then Returned False
      else ffi_bind (deref is_ConfigurationBox configuration1 h) (\<lambda>b1.
           ffi_bind (deref is_ConfigurationBox configuration2 h) (\<lambda>b2.
           Returned (boxed_configuration b1 = boxed_configuration b2))))"

section \<open>Clients\<close>

definition ffi_previous_configuration :: "('w, 'u) heap \<Rightarrow> ptr \<Rightarrow> 'u configuration ffi" where
  "ffi_previous_configuration h configuration =
     ffi_bind (assert_not_null configuration) (\<lambda>_.
     ffi_bind (deref is_ConfigurationBox configuration h) (\<lambda>b. Returned (boxed_configuration b)))"

definition ffi_client_create ::
  "(('w, 'u) heap \<Rightarrow> ptr) \<Rightarrow> (nat \<Rightarrow> 'w \<Rightarrow> 'w) \<Rightarrow> ptr \<Rightarrow> ptr unmanaged_array \<Rightarrow>
     (realm_id \<Rightarrow> 'w \<Rightarrow> auth_token option \<times> 'w) \<Rightarrow> 'w http_client \<Rightarrow> ('w, 'u) heap \<Rightarrow>
     (ptr \<times> ('w, 'u) heap) ffi" where
  "ffi_client_create malloc tokio_sleep configuration previous_configurations auth_token_get http_send h =
     ffi_bind (assert_not_null configuration) (\<lambda>_.
     ffi_bind (ffi_panics (as_slice previous_configurations)) (\<lambda>ps.
     ffi_bind (ffi_map_list (ffi_previous_configuration h) ps) (\<lambda>previous.
     ffi_bind (deref is_ConfigurationBox configuration h) (\<lambda>b.
     ffi_panics (do {
       builder \<leftarrow> with_configuration (boxed_configuration b) (with_sleeper tokio_sleep builder_new);
       builder \<leftarrow> with_previous_configurations previous builder;
       (client, slots) \<leftarrow> build_client (with_http http_send (with_auth_token_manager auth_token_get builder));
       Some (into_raw malloc (ClientBox client slots) h)
     })))))"

definition ffi_client_destroy :: "ptr \<Rightarrow> ('w, 'u) heap \<Rightarrow> ('w, 'u) heap ffi" where
  "ffi_client_destroy client h =
     ffi_bind (assert_not_null client) (\<lambda>_. drop_box is_ClientBox client h)"

section \<open>Generators and tokens (auth.rs)\<close>

definition ffi_generator_create_from_json ::
  "(('w, 'u) heap \<Rightarrow> ptr) \<Rightarrow> (string \<Rightarrow> auth_token_generator option) \<Rightarrow> c_string \<Rightarrow> ('w, 'u) heap \<Rightarrow>
     (ptr \<times> ('w, 'u) heap) ffi" where
  "ffi_generator_create_from_json malloc from_json json h =
     ffi_panics (do {
       json_str \<leftarrow> read_c_string json;
       generator \<leftarrow> from_json json_str;
       Some (into_raw malloc (GeneratorBox generator) h)
     })"

definition ffi_generator_destroy :: "ptr \<Rightarrow> ('w, 'u) heap \<Rightarrow> ('w, 'u) heap ffi" where
  "ffi_generator_destroy generator h =
     ffi_bind (assert_not_null generator) (\<lambda>_. drop_box is_GeneratorBox generator h)"

record token_parameters =
  parameter_realm_id :: "16 barray"
  parameter_secret_id :: "16 barray"

definition ffi_generator_vend ::
  "(('w, 'u) heap \<Rightarrow> ptr) \<Rightarrow> ('k, 'v) jwt_lib \<Rightarrow> hex_codec \<Rightarrow> ptr \<Rightarrow> token_parameters \<Rightarrow> u64 \<Rightarrow>
     ('w, 'u) heap \<Rightarrow> (ptr \<times> ('w, 'u) heap) ffi" where
  "ffi_generator_vend malloc J X generator parameters now h =
     ffi_bind (deref is_GeneratorBox generator h) (\<lambda>b.
     ffi_panics (do {
       token \<leftarrow> vend J X (boxed_generator b) (RealmId (parameter_realm_id parameters))
         (SecretId (parameter_secret_id parameters)) now;
       Some (into_raw malloc (TokenBox token) h)
     }))"

definition ffi_token_create ::
  "(('w, 'u) heap \<Rightarrow> ptr) \<Rightarrow> c_string \<Rightarrow> ('w, 'u) heap \<Rightarrow> (ptr \<times> ('w, 'u) heap) ffi" where
  "ffi_token_create malloc token_cstr h =
     ffi_panics (do {
       token_str \<leftarrow> read_c_string token_cstr;
       Some (into_raw malloc (TokenBox (AuthToken (SecretString token_str))) h)
     })"

definition ffi_token_destroy :: "ptr \<Rightarrow> ('w, 'u) heap \<Rightarrow> ('w, 'u) heap ffi" where
  "ffi_token_destroy token h =
     ffi_bind (assert_not_null token) (\<lambda>_. drop_box is_TokenBox token h)"

text \<open>The string that the callback receives.\<close>

definition ffi_token_string :: "ptr \<Rightarrow> ('w, 'u) heap \<Rightarrow> string ffi" where
  "ffi_token_string token h =
     ffi_bind (deref is_TokenBox token h) (\<lambda>b. ffi_panics (cstring_new (expose_token (boxed_token b))))"

text \<open>The token that a foreign token function hands to \<open>ffi_get_callback\<close>.\<close>

definition ffi_token_option :: "ptr \<Rightarrow> ('w, 'u) heap \<Rightarrow> auth_token option ffi" where
  "ffi_token_option auth_token h =
     (if auth_token = 0 then Returned None
      else ffi_bind (deref is_TokenBox auth_token h) (\<lambda>b. Returned (Some (boxed_token b))))"

text \<open>
  The callback for a token, up to what the manager does with it (\<open>ffi_get_callback\<close>): the context is
  the address of the token manager, which lives in its client and so is here the client's.
\<close>

definition ffi_token_callback :: "ptr \<Rightarrow> ptr \<Rightarrow> ('w, 'u) heap \<Rightarrow> auth_token option ffi" where
  "ffi_token_callback context auth_token h =
     (if context = 0 then Returned None
      else ffi_bind (ffi_token_option auth_token h) (\<lambda>auth_token.
           ffi_bind (deref is_ClientBox context h) (\<lambda>_. Returned auth_token)))"

end
