(* ===== verification/Foreign_Calls.thy ===== *)
theory Foreign_Calls
  imports Foreign_C
begin

text \<open>
  The operations of a client through the C interface (rust/sdk/bridge/ffi/src/lib.rs): an entry
  point copies its arguments and spawns a task; the task runs the operation and calls the
  response function. The state of a process holds the boxes, the outside world and the tasks that
  have not finished; a step is a call of the C program, a task that runs to its response, or a task
  that panics and delivers none. Tasks run one after the other, in any order. What the C
  program may do is a matter of what it can see: the calls it made, the pointers they returned
  and the responses it got.
\<close>

section \<open>Tasks\<close>

datatype call =
    RegisterCall bytes bytes bytes u16
  | RecoverCall bytes bytes
  | DeleteCall

record task =
  task_client :: ptr
  task_context :: ptr
  task_call :: call

text \<open>The arguments of the response function, after the context.\<close>

datatype response =
    RegisterResponse "bridge_register_error option"
  | RecoverResponse "u8 unmanaged_array" "bridge_recover_error option"
  | DeleteResponse "bridge_delete_error option"

fun error_of :: "('e \<Rightarrow> 'f) \<Rightarrow> 'e + 'a \<Rightarrow> 'f option" where
  "error_of convert (Ok _) = None"
| "error_of convert (Err e) = Some (convert e)"

fun recover_response :: "recover_error + user_secret \<Rightarrow> response" where
  "recover_response (Ok secret) =
     RecoverResponse (unmanaged_borrow (ManagedArray (user_secret_bytes secret))) None"
| "recover_response (Err e) = RecoverResponse unmanaged_null (Some (bridge_recover_error_from e))"

text \<open>The body of the closure that \<open>spawn_blocking\<close> runs.\<close>

fun run_call ::
  "('w, 'u, 's::field, 'p::ab_group_add, 'ed) env \<Rightarrow> ('w, 'u) client \<Rightarrow> call \<Rightarrow> 'w client_state \<Rightarrow>
     (response \<times> 'w client_state) panics" where
  "run_call E client (RegisterCall pin secret info guesses) st = do {
     user_secret \<leftarrow> user_secret_from secret;
     (r, st') \<leftarrow> client_register E client (Pin pin) user_secret (UserInfo info) \<lparr>num_guesses = guesses\<rparr> st;
     Some (RegisterResponse (error_of bridge_register_error_from r), st')
   }"
| "run_call E client (RecoverCall pin info) st = do {
     (r, st') \<leftarrow> client_recover E client (Pin pin) (UserInfo info) st;
     Some (recover_response r, st')
   }"
| "run_call E client DeleteCall st = do {
     (r, st') \<leftarrow> client_delete E client st;
     Some (DeleteResponse (error_of bridge_delete_error_from r), st')
   }"

section \<open>The entry points\<close>

text \<open>\<open>&*context\<close> is a reference, so it must not be null.\<close>

definition ffi_context :: "ptr \<Rightarrow> unit ffi" where
  "ffi_context context = (if context = 0 then Undefined else Returned ())"

definition ffi_client_register ::
  "ptr \<Rightarrow> ptr \<Rightarrow> u8 unmanaged_array \<Rightarrow> u8 unmanaged_array \<Rightarrow> u8 unmanaged_array \<Rightarrow> u16 \<Rightarrow>
     ('w, 'u) heap \<Rightarrow> task ffi" where
  "ffi_client_register client context pin secret info guesses h =
     ffi_bind (assert_not_null client) (\<lambda>_.
     ffi_bind (ffi_context context) (\<lambda>_.
     ffi_bind (ffi_panics (unmanaged_to_vec pin)) (\<lambda>pin.
     ffi_bind (ffi_panics (unmanaged_to_vec secret)) (\<lambda>secret.
     ffi_bind (ffi_panics (unmanaged_to_vec info)) (\<lambda>info.
     ffi_bind (deref is_ClientBox client h) (\<lambda>_.
     Returned \<lparr>task_client = client, task_context = context,
               task_call = RegisterCall pin secret info guesses\<rparr>))))))"

definition ffi_client_recover ::
  "ptr \<Rightarrow> ptr \<Rightarrow> u8 unmanaged_array \<Rightarrow> u8 unmanaged_array \<Rightarrow> ('w, 'u) heap \<Rightarrow> task ffi" where
  "ffi_client_recover client context pin info h =
     ffi_bind (assert_not_null client) (\<lambda>_.
     ffi_bind (ffi_context context) (\<lambda>_.
     ffi_bind (ffi_panics (unmanaged_to_vec pin)) (\<lambda>pin.
     ffi_bind (ffi_panics (unmanaged_to_vec info)) (\<lambda>info.
     ffi_bind (deref is_ClientBox client h) (\<lambda>_.
     Returned \<lparr>task_client = client, task_context = context, task_call = RecoverCall pin info\<rparr>)))))"

definition ffi_client_delete :: "ptr \<Rightarrow> ptr \<Rightarrow> ('w, 'u) heap \<Rightarrow> task ffi" where
  "ffi_client_delete client context h =
     ffi_bind (assert_not_null client) (\<lambda>_.
     ffi_bind (ffi_context context) (\<lambda>_.
     ffi_bind (deref is_ClientBox client h) (\<lambda>_.
     Returned \<lparr>task_client = client, task_context = context, task_call = DeleteCall\<rparr>)))"

section \<open>A process that uses the interface\<close>

text \<open>What the interface is linked against, and what the host passes in.\<close>

record ('w, 'u, 'k, 'v) host =
  host_malloc :: "('w, 'u) heap \<Rightarrow> ptr"
  host_parse_url :: "string \<Rightarrow> 'u option"
  host_configuration_json :: "string \<Rightarrow> 'u configuration option"
  host_generator_json :: "string \<Rightarrow> auth_token_generator option"
  host_sleep :: "nat \<Rightarrow> 'w \<Rightarrow> 'w"
  host_token_get :: "realm_id \<Rightarrow> 'w \<Rightarrow> auth_token option \<times> 'w"
  host_http_send :: "'w http_client"
  host_jwt :: "('k, 'v) jwt_lib"
  host_hex :: hex_codec

datatype c_op =
    ConfigurationCreate "ffi_realm unmanaged_array" u32 u32 bridge_pin_hashing_mode
  | ConfigurationCreateFromJson c_string
  | ConfigurationsAreEqual ptr ptr
  | ConfigurationDestroy ptr
  | ClientCreate ptr "ptr unmanaged_array"
  | ClientDestroy ptr
  | ClientRegister ptr ptr "u8 unmanaged_array" "u8 unmanaged_array" "u8 unmanaged_array" u16
  | ClientRecover ptr ptr "u8 unmanaged_array" "u8 unmanaged_array"
  | ClientDelete ptr ptr
  | GeneratorCreateFromJson c_string
  | GeneratorVend ptr token_parameters u64
  | GeneratorDestroy ptr
  | TokenCreate c_string
  | TokenString ptr
  | TokenDestroy ptr
  | TokenCallback ptr u64 ptr

record ('w, 'u) process =
  heap_of :: "('w, 'u) heap"
  world_of :: 'w
  tasks :: "task list"

text \<open>What a call returns to the C program, when that is a pointer, and the process after it.\<close>

definition with_heap ::
  "('w, 'u) process \<Rightarrow> ('w, 'u) heap ffi \<Rightarrow> (ptr option \<times> ('w, 'u) process) ffi" where
  "with_heap st m = ffi_bind m (\<lambda>h. Returned (None, st\<lparr>heap_of := h\<rparr>))"

definition with_new_box ::
  "('w, 'u) process \<Rightarrow> (ptr \<times> ('w, 'u) heap) ffi \<Rightarrow> (ptr option \<times> ('w, 'u) process) ffi" where
  "with_new_box st m = ffi_bind m (\<lambda>(p, h). Returned (Some p, st\<lparr>heap_of := h\<rparr>))"

definition with_task :: "('w, 'u) process \<Rightarrow> task ffi \<Rightarrow> (ptr option \<times> ('w, 'u) process) ffi" where
  "with_task st m = ffi_bind m (\<lambda>t. Returned (None, st\<lparr>tasks := tasks st @ [t]\<rparr>))"

fun c_call :: "('w, 'u, 'k, 'v) host \<Rightarrow> c_op \<Rightarrow> ('w, 'u) process \<Rightarrow>
     (ptr option \<times> ('w, 'u) process) ffi" where
  "c_call L (ConfigurationCreate rs reg rec mode) st =
     with_new_box st (ffi_configuration_create (host_malloc L) (host_parse_url L) rs reg rec mode (heap_of st))"
| "c_call L (ConfigurationCreateFromJson json) st =
     with_new_box st (ffi_configuration_create_from_json (host_malloc L) (host_configuration_json L) json (heap_of st))"
| "c_call L (ConfigurationsAreEqual c1 c2) st =
     ffi_bind (ffi_configurations_are_equal c1 c2 (heap_of st)) (\<lambda>_. Returned (None, st))"
| "c_call L (ConfigurationDestroy c) st = with_heap st (ffi_configuration_destroy c (heap_of st))"
| "c_call L (ClientCreate c previous) st =
     with_new_box st (ffi_client_create (host_malloc L) (host_sleep L) c previous (host_token_get L)
       (host_http_send L) (heap_of st))"
| "c_call L (ClientDestroy client) st = with_heap st (ffi_client_destroy client (heap_of st))"
| "c_call L (ClientRegister client context pin secret info guesses) st =
     with_task st (ffi_client_register client context pin secret info guesses (heap_of st))"
| "c_call L (ClientRecover client context pin info) st =
     with_task st (ffi_client_recover client context pin info (heap_of st))"
| "c_call L (ClientDelete client context) st = with_task st (ffi_client_delete client context (heap_of st))"
| "c_call L (GeneratorCreateFromJson json) st =
     with_new_box st (ffi_generator_create_from_json (host_malloc L) (host_generator_json L) json (heap_of st))"
| "c_call L (GeneratorVend generator parameters now) st =
     with_new_box st (ffi_generator_vend (host_malloc L) (host_jwt L) (host_hex L) generator parameters now (heap_of st))"
| "c_call L (GeneratorDestroy generator) st = with_heap st (ffi_generator_destroy generator (heap_of st))"
| "c_call L (TokenCreate s) st = with_new_box st (ffi_token_create (host_malloc L) s (heap_of st))"
| "c_call L (TokenString token) st =
     ffi_bind (ffi_token_string token (heap_of st)) (\<lambda>_. Returned (None, st))"
| "c_call L (TokenDestroy token) st = with_heap st (ffi_token_destroy token (heap_of st))"
| "c_call L (TokenCallback context i token) st =
     ffi_bind (ffi_token_callback context token (heap_of st)) (\<lambda>_. Returned (None, st))"

text \<open>A task: it uses the client it was started on, whose slots it changes.\<close>

definition run_task ::
  "('w, 'u, 's::field, 'p::ab_group_add, 'ed) env \<Rightarrow> task \<Rightarrow> ('w, 'u) process \<Rightarrow>
     (response \<times> 'w client_state) panics ffi" where
  "run_task E t st = ffi_bind (deref is_ClientBox (task_client t) (heap_of st)) (\<lambda>b.
     Returned (run_call E (boxed_client b) (task_call t) \<lparr>world = world_of st, sessions = boxed_slots b\<rparr>))"

definition finish_task :: "nat \<Rightarrow> slots \<Rightarrow> 'w \<Rightarrow> ('w, 'u) process \<Rightarrow> ('w, 'u) process" where
  "finish_task i slots w st =
     (let p = task_client (tasks st ! i) in
      st\<lparr>heap_of := (heap_of st)(p := map_option (\<lambda>b. ClientBox (boxed_client b) slots) (heap_of st p)),
         world_of := w, tasks := take i (tasks st) @ drop (Suc i) (tasks st)\<rparr>)"

datatype c_event = Called c_op "ptr option" | Responded ptr ptr response | Died ptr ptr

text \<open>After a panic inside a task, nothing is known of the slots and the world.\<close>

inductive c_step ::
  "('w, 'u, 'k, 'v) host \<Rightarrow> ('w, 'u, 's::field, 'p::ab_group_add, 'ed) env \<Rightarrow> ('w, 'u) process \<Rightarrow> c_event \<Rightarrow>
     ('w, 'u) process \<Rightarrow> bool" for L E where
  called: "c_call L x st = Returned (p, st') \<Longrightarrow> c_step L E st (Called x p) st'"
| responded: "i < length (tasks st) \<Longrightarrow> t = tasks st ! i \<Longrightarrow> run_task E t st = Returned (Some (r, cs)) \<Longrightarrow>
    c_step L E st (Responded (task_client t) (task_context t) r) (finish_task i (sessions cs) (world cs) st)"
| died: "i < length (tasks st) \<Longrightarrow> t = tasks st ! i \<Longrightarrow> run_task E t st = Returned None \<Longrightarrow>
    c_step L E st (Died (task_client t) (task_context t)) (finish_task i slots w st)"

inductive_cases c_stepE: "c_step L E st ev st'"

section \<open>Rules for the C program\<close>

text \<open>
  What the C program owns after a history: the pointers that calls have returned to it and that it
  has not passed to a call that destroys them, each with the type it was declared with.
\<close>

datatype box_kind = ConfigurationKind | ClientKind | GeneratorKind | TokenKind

fun creates :: "c_op \<Rightarrow> box_kind option" where
  "creates (ConfigurationCreate rs reg rec mode) = Some ConfigurationKind"
| "creates (ConfigurationCreateFromJson json) = Some ConfigurationKind"
| "creates (ClientCreate c previous) = Some ClientKind"
| "creates (GeneratorCreateFromJson json) = Some GeneratorKind"
| "creates (GeneratorVend generator parameters now) = Some TokenKind"
| "creates (TokenCreate s) = Some TokenKind"
| "creates _ = None"

fun destroys :: "c_op \<Rightarrow> ptr option" where
  "destroys (ConfigurationDestroy c) = Some c"
| "destroys (ClientDestroy client) = Some client"
| "destroys (GeneratorDestroy generator) = Some generator"
| "destroys (TokenDestroy token) = Some token"
| "destroys _ = None"

fun owned_after :: "c_event \<Rightarrow> (ptr \<Rightarrow> box_kind option) \<Rightarrow> ptr \<Rightarrow> box_kind option" where
  "owned_after (Called x returned) own =
     (case (destroys x, creates x, returned) of
        (Some p, _, _) \<Rightarrow> own(p := None)
      | (None, Some kind, Some p) \<Rightarrow> own(p \<mapsto> kind)
      | _ \<Rightarrow> own)"
| "owned_after (Responded client context r) own = own"
| "owned_after (Died client context) own = own"

definition owned :: "c_event list \<Rightarrow> ptr \<Rightarrow> box_kind option" where
  "owned es = fold owned_after es (\<lambda>p. None)"

text \<open>
  The clients of the operations that were started and have not called their response function. The C
  program does not learn that a task has died, so such an operation stays without an answer.
\<close>

fun starts :: "c_op \<Rightarrow> ptr option" where
  "starts (ClientRegister client context pin secret info guesses) = Some client"
| "starts (ClientRecover client context pin info) = Some client"
| "starts (ClientDelete client context) = Some client"
| "starts _ = None"

fun unanswered_after :: "c_event \<Rightarrow> ptr multiset \<Rightarrow> ptr multiset" where
  "unanswered_after (Called x returned) M = (case starts x of Some client \<Rightarrow> add_mset client M | None \<Rightarrow> M)"
| "unanswered_after (Responded client context r) M = M - {#client#}"
| "unanswered_after (Died client context) M = M"

definition unanswered :: "c_event list \<Rightarrow> ptr multiset" where
  "unanswered es = fold unanswered_after es {#}"

text \<open>
  A pointer is null, where that is caught, or owned and of the declared type; contexts are not null; a
  client is not destroyed while it has operations without an answer, a rule that the header
  does not state.
\<close>

definition null_or :: "box_kind \<Rightarrow> c_event list \<Rightarrow> ptr \<Rightarrow> bool" where
  "null_or kind es p \<longleftrightarrow> p = 0 \<or> owned es p = Some kind"

fun c_legal :: "c_event list \<Rightarrow> c_op \<Rightarrow> bool" where
  "c_legal es (ConfigurationsAreEqual c1 c2) \<longleftrightarrow> null_or ConfigurationKind es c1 \<and> null_or ConfigurationKind es c2"
| "c_legal es (ConfigurationDestroy c) \<longleftrightarrow> null_or ConfigurationKind es c"
| "c_legal es (ClientCreate c previous) \<longleftrightarrow> null_or ConfigurationKind es c \<and>
     (case as_slice previous of None \<Rightarrow> True | Some ps \<Rightarrow> list_all (null_or ConfigurationKind es) ps)"
| "c_legal es (ClientDestroy client) \<longleftrightarrow> null_or ClientKind es client \<and> client \<notin># unanswered es"
| "c_legal es (ClientRegister client context pin secret info guesses) \<longleftrightarrow> null_or ClientKind es client \<and> context \<noteq> 0"
| "c_legal es (ClientRecover client context pin info) \<longleftrightarrow> null_or ClientKind es client \<and> context \<noteq> 0"
| "c_legal es (ClientDelete client context) \<longleftrightarrow> null_or ClientKind es client \<and> context \<noteq> 0"
| "c_legal es (GeneratorVend generator parameters now) \<longleftrightarrow> owned es generator = Some GeneratorKind"
| "c_legal es (GeneratorDestroy generator) \<longleftrightarrow> null_or GeneratorKind es generator"
| "c_legal es (TokenString token) \<longleftrightarrow> owned es token = Some TokenKind"
| "c_legal es (TokenDestroy token) \<longleftrightarrow> null_or TokenKind es token"
| "c_legal es (TokenCallback context i token) \<longleftrightarrow> null_or ClientKind es context \<and> null_or TokenKind es token"
| "c_legal es (ConfigurationCreate rs reg rec mode) \<longleftrightarrow> True"
| "c_legal es (ConfigurationCreateFromJson json) \<longleftrightarrow> True"
| "c_legal es (GeneratorCreateFromJson json) \<longleftrightarrow> True"
| "c_legal es (TokenCreate s) \<longleftrightarrow> True"

definition process_start :: "'w \<Rightarrow> ('w, 'u) process" where
  "process_start w = \<lparr>heap_of = (\<lambda>p. None), world_of = w, tasks = []\<rparr>"

inductive c_runs ::
  "('w, 'u, 'k, 'v) host \<Rightarrow> ('w, 'u, 's::field, 'p::ab_group_add, 'ed) env \<Rightarrow> c_event list \<Rightarrow>
     ('w, 'u) process \<Rightarrow> bool" for L E where
  start: "c_runs L E [] (process_start w)"
| step: "c_runs L E es st \<Longrightarrow> c_step L E st ev st' \<Longrightarrow> (\<And>x p. ev = Called x p \<Longrightarrow> c_legal es x) \<Longrightarrow>
    c_runs L E (es @ [ev]) st'"

section \<open>Lemmas\<close>

definition holds :: "(('w, 'u) box \<Rightarrow> bool) \<Rightarrow> ptr \<Rightarrow> ('w, 'u) heap \<Rightarrow> bool" where
  "holds kind p h \<longleftrightarrow> (\<exists>b. h p = Some b \<and> kind b)"

lemma deref_Undefined [simp]: "deref kind p h = Undefined \<longleftrightarrow> \<not> holds kind p h"
  by (auto simp: deref_def holds_def split: option.split)

lemma deref_Returned [simp]: "deref kind p h = Returned b \<longleftrightarrow> h p = Some b \<and> kind b"
  by (auto simp: deref_def split: option.split)

lemma deref_Panicked [simp]: "deref kind p h \<noteq> Panicked"
  by (auto simp: deref_def split: option.split)

lemma assert_not_null_simps [simp]:
  "assert_not_null p \<noteq> Undefined" "assert_not_null p = Returned u \<longleftrightarrow> p \<noteq> 0"
  by (auto simp: assert_not_null_def)

lemma ffi_context_simps [simp]:
  "ffi_context p = Undefined \<longleftrightarrow> p = 0" "ffi_context p = Returned u \<longleftrightarrow> p \<noteq> 0"
  by (auto simp: ffi_context_def)

lemma drop_box_simps [simp]:
  "drop_box kind p h = Undefined \<longleftrightarrow> \<not> holds kind p h"
  "drop_box kind p h = Returned h' \<longleftrightarrow> holds kind p h \<and> h' = h(p := None)"
  by (auto simp: drop_box_def ffi_bind_Undefined ffi_bind_Returned holds_def)

lemmas process_defs = with_heap_def with_new_box_def with_task_def ffi_bind_Undefined ffi_bind_Returned
  ffi_configuration_create_def ffi_configuration_create_from_json_def ffi_configuration_destroy_def
  ffi_configurations_are_equal_def ffi_client_create_def ffi_previous_configuration_def ffi_client_destroy_def
  ffi_generator_create_from_json_def ffi_generator_destroy_def ffi_generator_vend_def ffi_token_create_def
  ffi_token_destroy_def ffi_token_string_def ffi_token_option_def ffi_token_callback_def ffi_client_register_def
  ffi_client_recover_def ffi_client_delete_def

text \<open>The kinds of the live boxes.\<close>

fun kind_of :: "('w, 'u) box \<Rightarrow> box_kind" where
  "kind_of (ConfigurationBox c) = ConfigurationKind"
| "kind_of (ClientBox client slots) = ClientKind"
| "kind_of (GeneratorBox generator) = GeneratorKind"
| "kind_of (TokenBox token) = TokenKind"

definition kinds :: "('w, 'u) heap \<Rightarrow> ptr \<Rightarrow> box_kind option" where
  "kinds h p = map_option kind_of (h p)"

lemma kinds_update [simp]: "kinds (h(p \<mapsto> b)) = (kinds h)(p \<mapsto> kind_of b)" "kinds (h(p := None)) = (kinds h)(p := None)"
  by (auto simp: kinds_def)

lemma holds_kinds:
  "holds is_ConfigurationBox p h \<longleftrightarrow> kinds h p = Some ConfigurationKind"
  "holds is_ClientBox p h \<longleftrightarrow> kinds h p = Some ClientKind"
  "holds is_GeneratorBox p h \<longleftrightarrow> kinds h p = Some GeneratorKind"
  "holds is_TokenBox p h \<longleftrightarrow> kinds h p = Some TokenKind"
  by (cases "h p"; cases "the (h p)"; simp add: holds_def kinds_def)+

text \<open>A call changes the kinds of the live boxes as the C program sees it.\<close>

lemma c_call_effect:
  assumes "c_call L x st = Returned (p, st')"
  shows "kinds (heap_of st') = owned_after (Called x p) (kinds (heap_of st))"
    and "finite (dom (heap_of st)) \<Longrightarrow> finite (dom (heap_of st'))"
    and "mset (map task_client (tasks st')) = unanswered_after (Called x p) (mset (map task_client (tasks st)))"
    and "starts x = Some client \<Longrightarrow> kinds (heap_of st) client = Some ClientKind"
    and "p = Some q \<Longrightarrow> q = host_malloc L (heap_of st)"
proof -
  show "kinds (heap_of st') = owned_after (Called x p) (kinds (heap_of st))"
    using assms by (cases x) (auto simp: process_defs into_raw_def bind_eq_Some_conv split_beta split: if_splits)
  show "finite (dom (heap_of st)) \<Longrightarrow> finite (dom (heap_of st'))"
    using assms by (cases x) (auto simp: process_defs into_raw_def bind_eq_Some_conv split_beta split: if_splits)
  show "mset (map task_client (tasks st')) = unanswered_after (Called x p) (mset (map task_client (tasks st)))"
    using assms by (cases x) (auto simp: process_defs into_raw_def bind_eq_Some_conv split_beta split: if_splits)
  show "starts x = Some client \<Longrightarrow> kinds (heap_of st) client = Some ClientKind"
    using assms by (cases x) (auto simp: process_defs bind_eq_Some_conv kinds_def is_ClientBox_def)
  show "p = Some q \<Longrightarrow> q = host_malloc L (heap_of st)"
    using assms by (cases x) (auto simp: process_defs into_raw_def bind_eq_Some_conv split_beta split: if_splits)
qed

text \<open>
  The invariant: the live boxes are those that the C program owns, and every task's client is one with
  an operation that has not been answered.
\<close>

definition c_inv :: "c_event list \<Rightarrow> ('w, 'u) process \<Rightarrow> bool" where
  "c_inv es st \<longleftrightarrow> kinds (heap_of st) = owned es \<and> owned es 0 = None \<and> finite (dom (heap_of st)) \<and>
     mset (map task_client (tasks st)) \<subseteq># unanswered es \<and>
     (\<forall>client. client \<in># unanswered es \<longrightarrow> owned es client = Some ClientKind)"

lemma legal_defined:
  assumes "kinds (heap_of st) = owned es" and "c_legal es x"
  shows "c_call L x st \<noteq> Undefined"
  using assms by (cases x)
    (auto simp: process_defs null_or_def holds_kinds list_all_iff split: if_splits option.splits dest!: ffi_map_list_Undefined)

lemma legal_keeps_clients:
  assumes "c_legal es x" and "client \<in># unanswered es" and "owned es client = Some ClientKind" and "owned es 0 = None"
  shows "destroys x \<noteq> Some client"
  using assms by (cases x) (auto simp: null_or_def)

lemma history_append [simp]:
  "owned (es @ [ev]) = owned_after ev (owned es)" "unanswered (es @ [ev]) = unanswered_after ev (unanswered es)"
  by (simp_all add: owned_def unanswered_def)

lemma unanswered_after_mono: "M \<subseteq># N \<Longrightarrow> unanswered_after (Called x p) M \<subseteq># unanswered_after (Called x p) N"
  by (auto split: option.split)

lemma mset_without: "i < length xs \<Longrightarrow> mset (map f xs) = add_mset (f (xs ! i)) (mset (map f (take i xs @ drop (Suc i) xs)))"
  by (subst id_take_nth_drop [of i xs]) simp_all

lemma finish_task_parts:
  assumes "i < length (tasks st)" and "kinds (heap_of st) (task_client (tasks st ! i)) = Some ClientKind"
  shows "kinds (heap_of (finish_task i slots w st)) = kinds (heap_of st)"
    and "dom (heap_of (finish_task i slots w st)) = dom (heap_of st)"
    and "mset (map task_client (tasks st)) =
      add_mset (task_client (tasks st ! i)) (mset (map task_client (tasks (finish_task i slots w st))))"
proof -
  show "kinds (heap_of (finish_task i slots w st)) = kinds (heap_of st)"
    using assms(2) by (auto simp: finish_task_def Let_def kinds_def fun_eq_iff)
  show "dom (heap_of (finish_task i slots w st)) = dom (heap_of st)"
    by (auto simp: finish_task_def Let_def split: if_splits)
  show "mset (map task_client (tasks st)) =
      add_mset (task_client (tasks st ! i)) (mset (map task_client (tasks (finish_task i slots w st))))"
    using mset_without [OF assms(1), of task_client] by (simp add: finish_task_def Let_def)
qed

lemma c_inv_called:
  assumes malloc: "allocates (host_malloc L)" and inv: "c_inv es st" and legal: "c_legal es x"
    and call: "c_call L x st = Returned (p, st')"
  shows "c_inv (es @ [Called x p]) st'"
proof -
  note effect = c_call_effect [OF call]
  have kinds: "kinds (heap_of st) = owned es"
    using inv by (simp add: c_inv_def)
  have null: "owned es 0 = None"
    using inv by (simp add: c_inv_def)
  have fresh: "q \<noteq> 0 \<and> owned es q = None" if "p = Some q" for q
    using effect(5) [OF that] malloc inv kinds [symmetric] by (simp add: c_inv_def allocates_def kinds_def)
  have "owned (es @ [Called x p]) client = Some ClientKind" if client: "client \<in># unanswered (es @ [Called x p])" for client
  proof (cases "client \<in># unanswered es")
    case True
    then have own: "owned es client = Some ClientKind"
      using inv by (simp add: c_inv_def)
    with legal_keeps_clients [OF legal True own null] fresh show ?thesis
      by (auto split: option.split)
  next
    case False
    then have "starts x = Some client"
      using client by (auto split: option.splits)
    with effect(4) [OF this] show ?thesis
      by (cases x) (simp_all add: kinds)
  qed
  moreover have "mset (map task_client (tasks st')) \<subseteq># unanswered (es @ [Called x p])"
    unfolding effect(3) history_append by (rule unanswered_after_mono) (use inv in \<open>simp add: c_inv_def\<close>)
  moreover have "owned (es @ [Called x p]) 0 = None"
    using null fresh by (auto split: option.split)
  ultimately show ?thesis
    using effect(1,2) inv unfolding c_inv_def kinds by (simp del: owned_after.simps unanswered_after.simps)
qed

lemma c_step_inv:
  assumes "allocates (host_malloc L)" and "c_step L E st ev st'" and inv: "c_inv es st"
    and legal: "\<And>x p. ev = Called x p \<Longrightarrow> c_legal es x"
  shows "c_inv (es @ [ev]) st'"
proof -
  have client: "kinds (heap_of st) (task_client (tasks st ! i)) = Some ClientKind" if "i < length (tasks st)" for i
  proof -
    have "task_client (tasks st ! i) \<in># mset (map task_client (tasks st))"
      using that by simp
    then have "task_client (tasks st ! i) \<in># unanswered es"
      using inv unfolding c_inv_def by (blast dest: mset_subset_eqD)
    then show ?thesis
      using inv by (simp add: c_inv_def)
  qed
  show ?thesis
    using assms(2)
  proof cases
    case (called x p)
    from c_inv_called [OF assms(1) inv legal [OF called(1)] called(2)] show ?thesis
      by (simp add: called(1))
  next
    case (responded i t r cs)
    note parts = finish_task_parts [OF responded(3) client [OF responded(3)], of "sessions cs" "world cs"]
    have "mset (map task_client (tasks st')) \<subseteq># unanswered es - {#task_client t#}"
      using inv unfolding c_inv_def parts(3) responded(2,4) by (simp add: insert_subset_eq_iff)
    then show ?thesis
      using inv parts(1,2) by (auto simp: c_inv_def responded(1,2) dest: in_diffD)
  next
    case (died i t slots w)
    note parts = finish_task_parts [OF died(3) client [OF died(3)], of slots w]
    have "mset (map task_client (tasks st')) \<subseteq># unanswered es"
      using inv unfolding c_inv_def parts(3) died(2) by (meson mset_subset_eq_insertD subset_mset.less_imp_le)
    then show ?thesis
      using inv parts(1,2) by (simp add: c_inv_def died(1,2))
  qed
qed

lemma c_runs_inv: "c_runs L E es st \<Longrightarrow> allocates (host_malloc L) \<Longrightarrow> c_inv es st"
proof (induction rule: c_runs.induct)
  case (start w)
  show ?case
    by (simp add: c_inv_def process_start_def owned_def unanswered_def kinds_def fun_eq_iff)
next
  case (step es st ev st')
  then show ?case
    using c_step_inv [OF step.prems step.hyps(2)] by blast
qed

text \<open>Without the rule on destroying clients: an operation that runs after its client is destroyed uses freed memory.\<close>

lemma early_destroy_undefined:
  assumes "t \<in> set (tasks st)" and "c_call L (ClientDestroy (task_client t)) st = Returned (p, st')"
  shows "t \<in> set (tasks st') \<and> run_task E t st' = Undefined"
  using assms by (auto simp: process_defs run_task_def holds_def)

lemma client_create_built:
  assumes "ffi_client_create malloc sleep configuration previous tokens http h = Returned (p, h')"
    and "h configuration = Some (ConfigurationBox c)" and "h' p = Some (ClientBox client slots)"
  obtains checked where "checked_configuration_from c = Some checked" "client_configuration client = checked"
    and "slots = initial_sessions checked"
  using assms by (auto simp: ffi_client_create_def ffi_bind_Returned into_raw_def bind_eq_Some_conv
      with_configuration_def with_previous_configurations_def build_client_def with_sleeper_def with_http_def
      with_auth_token_manager_def)

section \<open>Properties\<close>

text \<open>C34. The C interface is memory safe for a program that uses it by these rules, which speak only of what
  the program has called and been given: a pointer that it passes is null, where a null pointer
  is caught, or one that a call returned to it, of the declared type, and that it has not destroyed since;
  the context of an operation is not null; and, which the header does not say, a client is
  not destroyed while one of its operations has not called its response function. In every state that such a
  program can reach, the live boxes are exactly those it owns, and no call by the rules, the callback
  for a token included, and no task that is still running touches a box that is freed, was never
  created or is of another type. In particular a configuration, a generator or a token can be
  destroyed while clients and tasks made from it go on. (The callback for HTTP is the subject
  of \<open>http_requests_answered\<close>.)\<close>

theorem c_interface_safe:
  assumes "allocates (host_malloc L)" and "c_runs L E es st"
  shows "kinds (heap_of st) = owned es \<and> (\<forall>x. c_legal es x \<longrightarrow> c_call L x st \<noteq> Undefined) \<and>
    (\<forall>t \<in> set (tasks st). run_task E t st \<noteq> Undefined)"
proof -
  have inv: "c_inv es st"
    by (rule c_runs_inv [OF assms(2,1)])
  have "holds is_ClientBox (task_client t) (heap_of st)" if "t \<in> set (tasks st)" for t
  proof -
    have "task_client t \<in># mset (map task_client (tasks st))"
      using that by simp
    then have "task_client t \<in># unanswered es"
      using inv unfolding c_inv_def by (blast dest: mset_subset_eqD)
    then show ?thesis
      using inv by (simp add: c_inv_def holds_kinds)
  qed
  then show ?thesis
    using inv legal_defined [of st es _ L] by (auto simp: c_inv_def run_task_def ffi_bind_Undefined)
qed

text \<open>C35. Registering through the C interface dies only of its argument, under the following conditions: on a
  client that was just created from a configuration with a register threshold of at least 1 and realm
  addresses that \<open>req\<close> can be joined to, with a PIN that can be hashed, and with realms of which no answer
  that an attempt of the client is given decodes to one that claims a length beyond its 436 bytes
  of padding, the task panics exactly when the secret is longer than 128 bytes, and then the response
  function is never called; otherwise the task gets to its response.\<close>

theorem c_register_answered:
  fixes E :: "('w, 'u, 's::field, 'p::ab_group_add, 'ed) env"
  assumes "ffi_client_create malloc sleep configuration previous tokens http h = Returned (p, h')"
    and "h configuration = Some (ConfigurationBox c)" and "h' p = Some (ClientBox client slots)"
    and "1 \<le> register_threshold c"
    and "executor_ok E" and "prim_laws (env_prims E)"
    and "\<And>realm. realm \<in> set (realms c) \<Longrightarrow> short_answers (client_env E client) realm"
    and "\<And>version. \<exists>a s. pin_hash (env_prims E) (Pin pin) (config_pin_hashing_mode c) version (UserInfo info) =
      Some (Some (a, s))"
    and "\<And>realm. realm \<in> set (realms c) \<Longrightarrow> joinable E realm"
  shows "run_call E client (RegisterCall pin secret info guesses) \<lparr>world = w, sessions = slots\<rparr> = None \<longleftrightarrow>
    128 < length secret"
proof -
  obtain configuration where c: "checked_configuration_from c = Some configuration"
    and client: "client_configuration client = configuration" "slots = initial_sessions configuration"
    by (rule client_create_built [OF assms(1-3)])
  let ?E = "client_env E client" and ?st = "\<lparr>world = w, sessions = slots\<rparr>"
  have env: "executor_ok ?E" "prim_laws (env_prims ?E)" and join: "joinable ?E realm \<longleftrightarrow> joinable E realm" for realm
    using assms(5,6) by (simp_all add: client_env_def executor_ok_def joinable_def)
  have n: "2 * length (crealms configuration) < 2 ^ 63"
    using checked_configuration_from_ok [OF c] by (simp add: checked_ok_def configuration_ok_def)
  have same: "set (crealms configuration) = set (realms c)" "config_pin_hashing_mode (the_configuration configuration) = config_pin_hashing_mode c"
    using c by (auto simp: checked_configuration_from_eq split: if_splits)
  have runs: "client_register E client (Pin pin) s (UserInfo info) policy ?st \<noteq> None" if "user_secret_from secret = Some s" for s policy
    unfolding client_register_def client(1)
    by (rule perform_register_total [OF env assms(7) c assms(4) that])
      (use assms(8,9) same join fresh_session_budget [of ?st configuration, OF _ n] client(2) in \<open>simp_all add: client_env_def\<close>)
  show ?thesis
  proof (cases "length secret \<le> 128")
    case True
    then have "user_secret_from secret = Some (UserSecret secret)"
      by (simp add: user_secret_from_Some)
    with runs [OF this, of "\<lparr>num_guesses = guesses\<rparr>"] True show ?thesis
      by auto
  next
    case False
    then have "user_secret_from secret = None"
      by (simp add: user_secret_from_def MAX_USER_SECRET_LENGTH_def)
    with False show ?thesis
      by simp
  qed
qed

end
