(* ===== verification/Foreign_Java.thy ===== *)
theory Foreign_Java
  imports Foreign_Calls
begin

text \<open>
  The Java interface (rust/sdk/bridge/jni/src). Objects of the JVM are values, references that may
  be null are options; a JNI call that fails and is unwrapped is a panic. Handles are the
  addresses of boxes, as in \<open>Foreign_C\<close>; here most are used without a check for null. Operations
  run to their end before the entry point returns, with a value or an exception to throw.
\<close>

section \<open>Numbers\<close>

type_synonym jshort = "16 word"
type_synonym jint = "32 word"

text \<open>\<open>try_into\<close> from a signed number of the same width, and from \<open>jint\<close> to \<open>u8\<close>.\<close>

definition unsigned_try_from :: "'a::len word \<Rightarrow> 'a word option" where
  "unsigned_try_from n = (if 0 \<le> sint n then Some n else None)"

definition u8_try_from :: "jint \<Rightarrow> u8 option" where
  "u8_try_from n = (if 0 \<le> sint n \<and> sint n < 256 then Some (ucast n) else None)"

section \<open>Configurations (lib.rs)\<close>

text \<open>\<open>Realm\<close> and \<open>RealmId\<close> as their Java classes declare them.\<close>

record java_realm =
  java_realm_id :: "u8 list option option"
  java_realm_address :: "string option"
  java_realm_public_key :: "u8 list option"

definition jni_realm_from :: "(string \<Rightarrow> 'u option) \<Rightarrow> java_realm \<Rightarrow> 'u realm panics" where
  "jni_realm_from parse_url jrealm = do {
     java_id \<leftarrow> java_realm_id jrealm;
     i \<leftarrow> java_id;
     address_string \<leftarrow> java_realm_address jrealm;
     address \<leftarrow> parse_url address_string;
     i \<leftarrow> array_try_from i;
     Some \<lparr>realm_id = RealmId i, realm_address = address, realm_public_key = java_realm_public_key jrealm\<rparr>
   }"

text \<open>The mode arrives as the ordinal of a Java enumeration, null as \<open>None\<close>.\<close>

definition jni_configuration_create ::
  "(('w, 'u) heap \<Rightarrow> ptr) \<Rightarrow> (string \<Rightarrow> 'u option) \<Rightarrow> java_realm option list option \<Rightarrow> jint \<Rightarrow> jint \<Rightarrow>
     jint option \<Rightarrow> ('w, 'u) heap \<Rightarrow> (ptr \<times> ('w, 'u) heap) ffi" where
  "jni_configuration_create malloc parse_url jrealms register_at recover_at ordinal h =
     ffi_panics (do {
       ordinal \<leftarrow> ordinal;
       mode \<leftarrow> u8_try_from ordinal;
       jrealms \<leftarrow> jrealms;
       rs \<leftarrow> those (map (\<lambda>jrealm. Option.bind jrealm (jni_realm_from parse_url)) jrealms);
       reg \<leftarrow> unsigned_try_from register_at;
       rec \<leftarrow> unsigned_try_from recover_at;
       mode \<leftarrow> pin_hashing_mode_from mode;
       Some (into_raw malloc (ConfigurationBox
         \<lparr>realms = rs, register_threshold = reg, recover_threshold = rec, config_pin_hashing_mode = mode\<rparr>) h)
     })"

definition jni_configuration_create_from_json ::
  "(('w, 'u) heap \<Rightarrow> ptr) \<Rightarrow> (string \<Rightarrow> 'u configuration option) \<Rightarrow> string option \<Rightarrow> ('w, 'u) heap \<Rightarrow>
     (ptr \<times> ('w, 'u) heap) ffi" where
  "jni_configuration_create_from_json malloc from_json json h =
     ffi_panics (do {
       json \<leftarrow> json;
       c \<leftarrow> from_json json;
       Some (into_raw malloc (ConfigurationBox c) h)
     })"

definition jni_configuration_destroy :: "ptr \<Rightarrow> ('w, 'u) heap \<Rightarrow> ('w, 'u) heap ffi" where
  "jni_configuration_destroy configuration h = drop_box is_ConfigurationBox configuration h"

definition jni_configurations_are_equal :: "ptr \<Rightarrow> ptr \<Rightarrow> ('w, 'u) heap \<Rightarrow> bool ffi" where
  "jni_configurations_are_equal configuration1 configuration2 h =
     (if configuration1 = 0 \<and> configuration2 = 0 then Returned True
      else if configuration1 = 0 \<or> configuration2 = 0 then Returned False
      else ffi_bind (deref is_ConfigurationBox configuration1 h) (\<lambda>b1.
           ffi_bind (deref is_ConfigurationBox configuration2 h) (\<lambda>b2.
           Returned (boxed_configuration b1 = boxed_configuration b2))))"

section \<open>Clients (lib.rs)\<close>

definition jni_client_create ::
  "(('w, 'u) heap \<Rightarrow> ptr) \<Rightarrow> (nat \<Rightarrow> 'w \<Rightarrow> 'w) \<Rightarrow> ptr \<Rightarrow> ptr list option \<Rightarrow>
     (realm_id \<Rightarrow> 'w \<Rightarrow> auth_token option \<times> 'w) \<Rightarrow> 'w http_client \<Rightarrow> ('w, 'u) heap \<Rightarrow>
     (ptr \<times> ('w, 'u) heap) ffi" where
  "jni_client_create malloc tokio_sleep configuration previous_configurations auth_token_get http_send h =
     ffi_bind (assert_not_null configuration) (\<lambda>_.
     ffi_bind (ffi_panics previous_configurations) (\<lambda>ps.
     ffi_bind (ffi_map_list (ffi_previous_configuration h) ps) (\<lambda>previous.
     ffi_bind (deref is_ConfigurationBox configuration h) (\<lambda>b.
     ffi_panics (do {
       builder \<leftarrow> with_configuration (boxed_configuration b) builder_new;
       builder \<leftarrow> with_previous_configurations previous builder;
       (client, slots) \<leftarrow> build_client (with_sleeper tokio_sleep (with_http http_send
         (with_auth_token_manager auth_token_get builder)));
       Some (into_raw malloc (ClientBox client slots) h)
     })))))"

definition jni_client_destroy :: "ptr \<Rightarrow> ('w, 'u) heap \<Rightarrow> ('w, 'u) heap ffi" where
  "jni_client_destroy client h = drop_box is_ClientBox client h"

subsection \<open>Exceptions\<close>

text \<open>The constants of the Kotlin enumerations, in the order of their declarations.\<close>

definition kotlin_register_error :: "string list" where
  "kotlin_register_error =
     [''INVALID_AUTH'', ''UPGRADE_REQUIRED'', ''RATE_LIMIT_EXCEEDED'', ''ASSERTION'', ''TRANSIENT'']"

definition kotlin_recover_error :: "string list" where
  "kotlin_recover_error =
     [''INVALID_PIN'', ''NOT_REGISTERED'', ''INVALID_AUTH'', ''UPGRADE_REQUIRED'', ''RATE_LIMIT_EXCEEDED'',
      ''ASSERTION'', ''TRANSIENT'']"

definition kotlin_delete_error :: "string list" where
  "kotlin_delete_error =
     [''INVALID_AUTH'', ''UPGRADE_REQUIRED'', ''RATE_LIMIT_EXCEEDED'', ''ASSERTION'', ''TRANSIENT'']"

definition kotlin_pin_hashing_mode :: "string list" where
  "kotlin_pin_hashing_mode = [''STANDARD_2019'', ''FAST_INSECURE'']"

text \<open>\<open>as i32\<close>: the declared discriminants of the bridge's enumerations.\<close>

fun register_error_code :: "bridge_register_error \<Rightarrow> nat" where
  "register_error_code RegisterInvalidAuth = 0"
| "register_error_code RegisterUpgradeRequired = 1"
| "register_error_code RegisterRateLimitExceeded = 2"
| "register_error_code RegisterAssertion = 3"
| "register_error_code RegisterTransient = 4"

fun recover_reason_code :: "recover_error_reason \<Rightarrow> nat" where
  "recover_reason_code InvalidPinReason = 0"
| "recover_reason_code NotRegisteredReason = 1"
| "recover_reason_code InvalidAuthReason = 2"
| "recover_reason_code UpgradeRequiredReason = 3"
| "recover_reason_code RateLimitExceededReason = 4"
| "recover_reason_code AssertionReason = 5"
| "recover_reason_code TransientReason = 6"

fun delete_error_code :: "bridge_delete_error \<Rightarrow> nat" where
  "delete_error_code DeleteInvalidAuth = 0"
| "delete_error_code DeleteUpgradeRequired = 1"
| "delete_error_code DeleteRateLimitExceeded = 2"
| "delete_error_code DeleteAssertion = 3"
| "delete_error_code DeleteTransient = 4"

record java_exception =
  exception_class :: string
  exception_error :: string
  exception_guesses :: "jshort option"

text \<open>\<open>values()[code]\<close>: an index out of range raises an exception, whose unwrapping panics.\<close>

definition java_element :: "'a list \<Rightarrow> nat \<Rightarrow> 'a panics" where
  "java_element xs i = (if i < length xs then Some (xs ! i) else None)"

definition throw :: "string list \<Rightarrow> nat \<Rightarrow> string \<Rightarrow> java_exception panics" where
  "throw java_error_values error_code name = do {
     java_error \<leftarrow> java_element java_error_values error_code;
     Some \<lparr>exception_class = ''xyz/juicebox/sdk/'' @ name @ ''Exception'', exception_error = java_error,
           exception_guesses = None\<rparr>
   }"

text \<open>\<open>*error.guesses_remaining as jshort\<close> keeps the bits.\<close>

definition recover_exception :: "bridge_recover_error \<Rightarrow> java_exception panics" where
  "recover_exception error = do {
     java_error \<leftarrow> java_element kotlin_recover_error (recover_reason_code (reason error));
     Some \<lparr>exception_class = ''xyz/juicebox/sdk/RecoverException'', exception_error = java_error,
           exception_guesses = guesses_remaining error\<rparr>
   }"

subsection \<open>Operations\<close>

type_synonym ('w, 'u, 'a) java_result = "((java_exception + 'a) \<times> 'w \<times> ('w, 'u) heap) ffi"

text \<open>Running an operation of the client in a box, and what its result becomes.\<close>

definition jni_run ::
  "ptr \<Rightarrow> ('w, 'u) box \<Rightarrow> ('w client_state, 'e, 'a) step \<Rightarrow> ('e \<Rightarrow> java_exception panics) \<Rightarrow> ('a \<Rightarrow> 'b) \<Rightarrow>
     'w \<Rightarrow> ('w, 'u) heap \<Rightarrow> ('w, 'u, 'b) java_result" where
  "jni_run client b operation exn value w h =
     ffi_panics (do {
       (r, st) \<leftarrow> operation \<lparr>world = w, sessions = boxed_slots b\<rparr>;
       result \<leftarrow> (case r of Ok x \<Rightarrow> Some (Ok (value x)) | Err e \<Rightarrow> map_option Err (exn e));
       Some (result, world st, h(client \<mapsto> ClientBox (boxed_client b) (sessions st)))
     })"

definition jni_client_register ::
  "('w, 'u, 's::field, 'p, 'ed) env \<Rightarrow> ptr \<Rightarrow> u8 list option \<Rightarrow> u8 list option \<Rightarrow> u8 list option \<Rightarrow> jshort \<Rightarrow>
     'w \<Rightarrow> ('w, 'u) heap \<Rightarrow> ('w, 'u, unit) java_result" where
  "jni_client_register E client pin secret info guesses w h =
     ffi_bind (deref is_ClientBox client h) (\<lambda>b.
     ffi_bind (ffi_panics pin) (\<lambda>pin.
     ffi_bind (ffi_panics secret) (\<lambda>secret.
     ffi_bind (ffi_panics info) (\<lambda>info.
     ffi_bind (ffi_panics (unsigned_try_from guesses)) (\<lambda>guesses.
     ffi_bind (ffi_panics (user_secret_from secret)) (\<lambda>user_secret.
     jni_run client b
       (client_register E (boxed_client b) (Pin pin) user_secret (UserInfo info) \<lparr>num_guesses = guesses\<rparr>)
       (\<lambda>e. throw kotlin_register_error (register_error_code (bridge_register_error_from e)) ''Register'')
       (\<lambda>_. ()) w h))))))"

definition jni_client_recover ::
  "('w, 'u, 's::field, 'p::ab_group_add, 'ed) env \<Rightarrow> ptr \<Rightarrow> u8 list option \<Rightarrow> u8 list option \<Rightarrow>
     'w \<Rightarrow> ('w, 'u) heap \<Rightarrow> ('w, 'u, bytes) java_result" where
  "jni_client_recover E client pin info w h =
     ffi_bind (deref is_ClientBox client h) (\<lambda>b.
     ffi_bind (ffi_panics pin) (\<lambda>pin.
     ffi_bind (ffi_panics info) (\<lambda>info.
     jni_run client b (client_recover E (boxed_client b) (Pin pin) (UserInfo info))
       (\<lambda>e. recover_exception (bridge_recover_error_from e)) user_secret_bytes w h)))"

definition jni_client_delete ::
  "('w, 'u, 's, 'p, 'ed) env \<Rightarrow> ptr \<Rightarrow> 'w \<Rightarrow> ('w, 'u) heap \<Rightarrow> ('w, 'u, unit) java_result" where
  "jni_client_delete E client w h =
     ffi_bind (deref is_ClientBox client h) (\<lambda>b.
     jni_run client b (client_delete E (boxed_client b))
       (\<lambda>e. throw kotlin_delete_error (delete_error_code (bridge_delete_error_from e)) ''Delete'')
       (\<lambda>_. ()) w h)"

section \<open>HTTP (http.rs, lib.rs)\<close>

record java_header =
  java_header_name :: "string option"
  java_header_value :: "string option"

record java_request =
  java_request_id :: bytes
  java_request_method :: string
  java_request_url :: string
  java_request_headers :: "java_header list option"
  java_request_body :: "bytes option"

text \<open>
  The JNI calls that make a request object, each performed at most once; \<open>jvm\<close> tells which of
  them succeed. One that fails makes \<open>send\<close> return without a response.
\<close>

datatype jni_call =
    AttachThread
  | FindRequestClass | NewRequest | SetId | SetMethod | SetUrl | SetBody
  | FindHeaderClass | NewHeader nat | SetHeaderName nat | SetHeaderValue nat
  | NewHeaderArray | SetHeader nat | SetHeaders

text \<open>The loop over the headers: the array is made, full of the first header, when that exists.\<close>

fun jni_headers ::
  "(jni_call \<Rightarrow> bool) \<Rightarrow> nat \<Rightarrow> nat \<Rightarrow> java_header list option \<Rightarrow> headers \<Rightarrow> java_header list option option" where
  "jni_headers jvm n index headers_array [] = Some headers_array"
| "jni_headers jvm n index headers_array ((name, v) # hs) = do {
     assert_that (jvm (NewHeader index));
     assert_that (jvm (SetHeaderName index));
     assert_that (jvm (SetHeaderValue index));
     let java_header = \<lparr>java_header_name = Some name, java_header_value = Some v\<rparr>;
     array \<leftarrow> (case headers_array of
         Some array \<Rightarrow> do {
           assert_that (index < 2 ^ 31);
           assert_that (index < length array \<and> jvm (SetHeader index));
           Some (array[index := java_header])
         }
       | None \<Rightarrow> do {
           assert_that (n < 2 ^ 31);
           assert_that (jvm NewHeaderArray);
           Some (replicate n java_header)
         });
     jni_headers jvm n (Suc index) (Some array) hs
   }"

definition jni_request :: "(jni_call \<Rightarrow> bool) \<Rightarrow> http_request \<Rightarrow> 16 barray \<Rightarrow> java_request option" where
  "jni_request jvm request i = do {
     assert_that (jvm AttachThread);
     assert_that (jvm FindRequestClass);
     assert_that (jvm NewRequest);
     assert_that (jvm SetId);
     assert_that (jvm SetMethod);
     assert_that (jvm SetUrl);
     assert_that (http_body request \<noteq> None \<longrightarrow> jvm SetBody);
     headers_array \<leftarrow> (if http_headers request = [] then Some None else do {
       assert_that (jvm FindHeaderClass);
       jni_headers jvm (length (http_headers request)) 0 None (http_headers request)
     });
     assert_that (headers_array \<noteq> None \<longrightarrow> jvm SetHeaders);
     Some \<lparr>java_request_id = bytes_of i, java_request_method = method_as_str (http_method request),
           java_request_url = http_url request, java_request_headers = headers_array,
           java_request_body = http_body request\<rparr>
   }"

text \<open>
  \<open>HttpClient::send\<close> up to the call of the Java function: the request is made and its channel filed.
  If the Java function throws, the channel is removed and the request has failed; that is a step
  of its own, because the Java function may complete the request before it throws.
\<close>

definition jni_http_send ::
  "(jni_call \<Rightarrow> bool) \<Rightarrow> http_request \<Rightarrow> 16 barray \<Rightarrow> http_calls \<Rightarrow> java_request option \<times> http_calls" where
  "jni_http_send jvm request i st =
     (case jni_request jvm request i of
        Some java_request \<Rightarrow> (Some java_request, open_call i st)
      | None \<Rightarrow> (None, st))"

record java_response =
  java_response_id :: "bytes option"
  java_status_code :: jshort
  java_response_headers :: "java_header option list option"
  java_response_body :: "bytes option"

fun insert_java_headers :: "headers \<Rightarrow> java_header option list \<Rightarrow> headers panics" where
  "insert_java_headers m [] = Some m"
| "insert_java_headers m (h # hs) = do {
     h \<leftarrow> h;
     name \<leftarrow> java_header_name h;
     v \<leftarrow> java_header_value h;
     insert_java_headers (AList.update name v m) hs
   }"

definition jni_http_complete :: "java_response \<Rightarrow> http_calls \<Rightarrow> http_calls panics" where
  "jni_http_complete resp st = do {
     i \<leftarrow> java_response_id resp;
     i \<leftarrow> array_try_from i;
     (case unsigned_try_from (java_status_code resp) of
        None \<Rightarrow> Some (receive_call i None st)
      | Some status_code \<Rightarrow> do {
          body \<leftarrow> java_response_body resp;
          java_headers \<leftarrow> java_response_headers resp;
          hs \<leftarrow> insert_java_headers [] java_headers;
          Some (receive_call i (Some
            \<lparr>response_status = status_code, response_headers = hs, response_body = body\<rparr>) st)
        })
   }"

datatype jni_http_op =
    JniSend "jni_call \<Rightarrow> bool" http_request "16 barray"
  | JniSendThrew "16 barray"
  | JniComplete java_response

fun jni_http_step :: "http_calls \<Rightarrow> jni_http_op \<Rightarrow> http_calls panics" where
  "jni_http_step st (JniSend jvm request i) = Some (snd (jni_http_send jvm request i st))"
| "jni_http_step st (JniSendThrew i) = Some (jni_remove i st)"
| "jni_http_step st (JniComplete resp) = jni_http_complete resp st"

text \<open>The response that a completion delivers: none when the status is negative.\<close>

definition java_response_value :: "java_response \<Rightarrow> http_response option" where
  "java_response_value resp =
     map_option (\<lambda>status. \<lparr>response_status = status,
         response_headers = the (insert_java_headers [] (the (java_response_headers resp))),
         response_body = the (java_response_body resp)\<rparr>)
       (unsigned_try_from (java_status_code resp))"

fun jni_http_event :: "http_calls \<Rightarrow> jni_http_op \<Rightarrow> (16 barray, http_response option) call_event" where
  "jni_http_event st (JniSend jvm request i) = (if jni_request jvm request i = None then Ignored else Open i)"
| "jni_http_event st (JniSendThrew i) = Cancel i"
| "jni_http_event st (JniComplete resp) =
     Complete (the (Option.bind (java_response_id resp) array_try_from)) (java_response_value resp)"

interpretation jni_http: call_system jni_http_step jni_http_event "\<lambda>st. st"
proof
  fix st x st'
  show "jni_http_step st x = Some st' \<Longrightarrow> st' = apply_event (jni_http_event st x) st"
    by (cases x; cases "unsigned_try_from (java_status_code (case x of JniComplete resp \<Rightarrow> resp))")
      (auto simp: jni_http_send_def jni_http_complete_def java_response_value_def bind_eq_Some_conv split: option.splits)
qed

section \<open>Tokens (auth.rs)\<close>

text \<open>The token manager has a signed counter, which wraps around as the unsigned one of the C interface does.\<close>

text \<open>\<open>AuthTokenManager::get\<close> up to the wait; every JNI call that fails is unwrapped.\<close>

definition jni_token_get :: "bool \<Rightarrow> bool \<Rightarrow> token_manager \<Rightarrow> token_manager panics" where
  "jni_token_get attached called st = do {
     assert_that attached;
     let st = ffi_token_get st;
     assert_that called;
     Some st
   }"

definition jni_auth_token_get_complete ::
  "u64 \<Rightarrow> ptr \<Rightarrow> ('w, 'u) heap \<Rightarrow> token_manager \<Rightarrow> token_manager ffi" where
  "jni_auth_token_get_complete context_id auth_token h st =
     ffi_bind (ffi_token_option auth_token h) (\<lambda>token.
     Returned (st\<lparr>await_get_map := receive_call context_id token (await_get_map st)\<rparr>))"

definition jni_generator_create_from_json ::
  "(('w, 'u) heap \<Rightarrow> ptr) \<Rightarrow> (string \<Rightarrow> auth_token_generator option) \<Rightarrow> string option \<Rightarrow> ('w, 'u) heap \<Rightarrow>
     (ptr \<times> ('w, 'u) heap) ffi" where
  "jni_generator_create_from_json malloc from_json json h =
     ffi_panics (do {
       json \<leftarrow> json;
       generator \<leftarrow> from_json json;
       Some (into_raw malloc (GeneratorBox generator) h)
     })"

definition jni_generator_destroy :: "ptr \<Rightarrow> ('w, 'u) heap \<Rightarrow> ('w, 'u) heap ffi" where
  "jni_generator_destroy generator h = drop_box is_GeneratorBox generator h"

definition jni_generator_vend ::
  "(('w, 'u) heap \<Rightarrow> ptr) \<Rightarrow> ('k, 'v) jwt_lib \<Rightarrow> hex_codec \<Rightarrow> ptr \<Rightarrow> bytes option \<Rightarrow> bytes option \<Rightarrow> u64 \<Rightarrow>
     ('w, 'u) heap \<Rightarrow> (ptr \<times> ('w, 'u) heap) ffi" where
  "jni_generator_vend malloc J X generator realm secret now h =
     ffi_bind (ffi_panics (Option.bind realm array_try_from)) (\<lambda>realm.
     ffi_bind (ffi_panics (Option.bind secret array_try_from)) (\<lambda>secret.
     ffi_bind (deref is_GeneratorBox generator h) (\<lambda>b.
     ffi_panics (do {
       token \<leftarrow> vend J X (boxed_generator b) (RealmId realm) (SecretId secret) now;
       Some (into_raw malloc (TokenBox token) h)
     }))))"

definition jni_token_create ::
  "(('w, 'u) heap \<Rightarrow> ptr) \<Rightarrow> string option \<Rightarrow> ('w, 'u) heap \<Rightarrow> (ptr \<times> ('w, 'u) heap) ffi" where
  "jni_token_create malloc jwt h =
     ffi_panics (do {
       jwt \<leftarrow> jwt;
       Some (into_raw malloc (TokenBox (AuthToken (SecretString jwt))) h)
     })"

definition jni_token_destroy :: "ptr \<Rightarrow> ('w, 'u) heap \<Rightarrow> ('w, 'u) heap ffi" where
  "jni_token_destroy token h = drop_box is_TokenBox token h"

definition jni_token_string :: "ptr \<Rightarrow> ('w, 'u) heap \<Rightarrow> string ffi" where
  "jni_token_string token h =
     ffi_bind (deref is_TokenBox token h) (\<lambda>b. Returned (expose_token (boxed_token b)))"

section \<open>Lemmas\<close>

text \<open>The array that the loop fills is the list of the headers.\<close>

definition java_header_of :: "string \<times> string \<Rightarrow> java_header" where
  "java_header_of = (\<lambda>(name, v). \<lparr>java_header_name = Some name, java_header_value = Some v\<rparr>)"

lemma jni_headers_filled:
  assumes "jni_headers jvm n index (Some array) hs = Some result" and "index + length hs = length array"
  shows "result = Some (take index array @ map java_header_of hs)"
  using assms
proof (induction hs arbitrary: index array)
  case (Cons h hs)
  obtain name v where h: "h = (name, v)"
    by fastforce
  let ?array = "array[index := java_header_of h]"
  have "jni_headers jvm n (Suc index) (Some ?array) hs = Some result"
    using Cons.prems by (auto simp: h Let_def java_header_of_def split: if_splits)
  then have "result = Some (take (Suc index) ?array @ map java_header_of hs)"
    using Cons.IH [of "Suc index" ?array] Cons.prems(2) by simp
  with Cons.prems(2) show ?case
    by (simp add: take_Suc_conv_app_nth)
qed simp

lemma jni_headers_made:
  assumes "jni_headers jvm (length hs) 0 None hs = Some result" and "hs \<noteq> []"
  shows "result = Some (map java_header_of hs)"
proof -
  obtain name v rest where hs: "hs = (name, v) # rest"
    using assms(2) by (cases hs) auto
  then have "jni_headers jvm (length hs) 1 (Some (replicate (length hs) (java_header_of (name, v)))) rest = Some result"
    using assms(1) by (auto simp: Let_def java_header_of_def split: if_splits)
  from jni_headers_filled [OF this] show ?thesis
    by (simp add: hs)
qed

lemma jni_headers_runs:
  assumes "jvm = (\<lambda>call. True)" and "n < 2 ^ 31" and "index + length hs = n"
    and "\<And>array. headers_array = Some array \<Longrightarrow> length array = n"
  shows "jni_headers jvm n index headers_array hs \<noteq> None"
  using assms(3,4)
proof (induction hs arbitrary: index headers_array)
  case (Cons h hs)
  obtain name v where h: "h = (name, v)"
    by fastforce
  let ?array = "case headers_array of None \<Rightarrow> replicate n (java_header_of h) | Some array \<Rightarrow> array[index := java_header_of h]"
  have "jni_headers jvm n (Suc index) (Some ?array) hs \<noteq> None"
    using Cons.prems by (intro Cons.IH) (auto split: option.split)
  moreover have "index < n"
    using Cons.prems(1) by simp
  ultimately show ?case
    using assms(1,2) Cons.prems(2)
    by (cases headers_array) (simp_all add: h Let_def java_header_of_def)
qed simp

lemma sint_nonneg_iff: "0 \<le> sint (n :: 'a::len word) \<longleftrightarrow> unat n < 2 ^ (LENGTH('a) - 1)"
proof -
  let ?half = "2 ^ (LENGTH('a) - 1) :: nat"
  have full: "2 ^ LENGTH('a) = 2 * ?half"
    by (metis Suc_diff_1 len_gt_0 power_Suc)
  have "unat n div ?half < 2"
    using unsigned_less [of n, where ?'a = nat] full by (auto simp: less_mult_imp_div_less)
  then have "odd (unat n div ?half) \<longleftrightarrow> unat n div ?half \<noteq> 0"
    by (auto simp: less_2_cases_iff)
  then have "bit (unat n) (LENGTH('a) - 1) \<longleftrightarrow> \<not> unat n < ?half"
    unfolding bit_iff_odd by (simp add: div_eq_0_iff)
  moreover have "sint n < 0 \<longleftrightarrow> bit (uint n) (LENGTH('a) - 1)"
    by (simp add: sint_uint)
  moreover have "bit (uint n) (LENGTH('a) - 1) \<longleftrightarrow> bit (unat n) (LENGTH('a) - 1)"
    by (simp add: bit_unsigned_iff)
  ultimately show ?thesis
    by linarith
qed

lemma unsigned_try_from_eq:
  "unsigned_try_from (n :: 'a::len word) = (if unat n < 2 ^ (LENGTH('a) - 1) then Some n else None)"
  by (simp add: unsigned_try_from_def sint_nonneg_iff)

lemma u8_try_from_mode: "u8_try_from (ucast (bridge_pin_hashing_mode_code mode)) = Some (bridge_pin_hashing_mode_code mode)"
  by (cases mode) (simp_all add: u8_try_from_def)

text \<open>A realm as the two languages describe it.\<close>

definition c_realm :: "16 barray \<Rightarrow> string \<Rightarrow> u8 list option \<Rightarrow> ffi_realm" where
  "c_realm i address key =
     \<lparr>ffi_realm_id = i, ffi_realm_address = CString address,
      ffi_realm_public_key = map_option (\<lambda>k. to_unmanaged (ManagedArray k)) key\<rparr>"

definition jvm_realm :: "16 barray \<Rightarrow> string \<Rightarrow> u8 list option \<Rightarrow> java_realm" where
  "jvm_realm i address key =
     \<lparr>java_realm_id = Some (Some (bytes_of i)), java_realm_address = Some address, java_realm_public_key = key\<rparr>"

lemma realms_agree: "jni_realm_from parse_url (jvm_realm i address key) = ffi_realm_from parse_url (c_realm i address key)"
  by (cases key) (auto simp: jni_realm_from_def jvm_realm_def ffi_realm_from_def c_realm_def
      unmanaged_to_vec_def as_slice_def to_unmanaged_def split: bind_splits)

text \<open>The names that the Java documentation gives to the errors.\<close>

fun register_error_name :: "bridge_register_error \<Rightarrow> string" where
  "register_error_name RegisterInvalidAuth = ''INVALID_AUTH''"
| "register_error_name RegisterUpgradeRequired = ''UPGRADE_REQUIRED''"
| "register_error_name RegisterRateLimitExceeded = ''RATE_LIMIT_EXCEEDED''"
| "register_error_name RegisterAssertion = ''ASSERTION''"
| "register_error_name RegisterTransient = ''TRANSIENT''"

fun recover_reason_name :: "recover_error_reason \<Rightarrow> string" where
  "recover_reason_name InvalidPinReason = ''INVALID_PIN''"
| "recover_reason_name NotRegisteredReason = ''NOT_REGISTERED''"
| "recover_reason_name InvalidAuthReason = ''INVALID_AUTH''"
| "recover_reason_name UpgradeRequiredReason = ''UPGRADE_REQUIRED''"
| "recover_reason_name RateLimitExceededReason = ''RATE_LIMIT_EXCEEDED''"
| "recover_reason_name AssertionReason = ''ASSERTION''"
| "recover_reason_name TransientReason = ''TRANSIENT''"

fun delete_error_name :: "bridge_delete_error \<Rightarrow> string" where
  "delete_error_name DeleteInvalidAuth = ''INVALID_AUTH''"
| "delete_error_name DeleteUpgradeRequired = ''UPGRADE_REQUIRED''"
| "delete_error_name DeleteRateLimitExceeded = ''RATE_LIMIT_EXCEEDED''"
| "delete_error_name DeleteAssertion = ''ASSERTION''"
| "delete_error_name DeleteTransient = ''TRANSIENT''"

text \<open>The answer of the C interface, read as a Java result.\<close>

definition java_exception :: "string \<Rightarrow> string \<Rightarrow> u16 option \<Rightarrow> java_exception" where
  "java_exception operation name guesses =
     \<lparr>exception_class = ''xyz/juicebox/sdk/'' @ operation @ ''Exception'', exception_error = name,
      exception_guesses = guesses\<rparr>"

fun java_register_answer :: "response \<Rightarrow> (java_exception + unit) option" where
  "java_register_answer (RegisterResponse None) = Some (Ok ())"
| "java_register_answer (RegisterResponse (Some e)) = Some (Err (java_exception ''Register'' (register_error_name e) None))"
| "java_register_answer _ = None"

fun java_recover_answer :: "response \<Rightarrow> (java_exception + bytes) option" where
  "java_recover_answer (RecoverResponse secret None) = map_option Ok (as_slice secret)"
| "java_recover_answer (RecoverResponse secret (Some e)) =
     Some (Err (java_exception ''Recover'' (recover_reason_name (reason e)) (guesses_remaining e)))"
| "java_recover_answer _ = None"

fun java_delete_answer :: "response \<Rightarrow> (java_exception + unit) option" where
  "java_delete_answer (DeleteResponse None) = Some (Ok ())"
| "java_delete_answer (DeleteResponse (Some e)) = Some (Err (java_exception ''Delete'' (delete_error_name e) None))"
| "java_delete_answer _ = None"

text \<open>Running the body of the C interface's task on the client in a box, and waiting for its answer.\<close>

definition call_and_wait ::
  "('w, 'u, 's::field, 'p::ab_group_add, 'ed) env \<Rightarrow> ptr \<Rightarrow> ('w, 'u) client \<Rightarrow> slots \<Rightarrow>
     (response \<Rightarrow> (java_exception + 'a) option) \<Rightarrow> call \<Rightarrow> 'w \<Rightarrow> ('w, 'u) heap \<Rightarrow> ('w, 'u, 'a) java_result" where
  "call_and_wait E p client slots answer call w h =
     ffi_panics (do {
       (r, st) \<leftarrow> run_call E client call \<lparr>world = w, sessions = slots\<rparr>;
       result \<leftarrow> answer r;
       Some (result, world st, h(p \<mapsto> ClientBox client (sessions st)))
     })"

lemma register_thrown:
  "throw kotlin_register_error (register_error_code e) ''Register'' = Some (java_exception ''Register'' (register_error_name e) None)"
  by (cases e) (simp_all add: throw_def java_element_def kotlin_register_error_def java_exception_def)

lemma recover_thrown:
  "recover_exception e = Some (java_exception ''Recover'' (recover_reason_name (reason e)) (guesses_remaining e))"
  by (cases "reason e") (simp_all add: recover_exception_def java_element_def kotlin_recover_error_def java_exception_def)

lemma delete_thrown:
  "throw kotlin_delete_error (delete_error_code e) ''Delete'' = Some (java_exception ''Delete'' (delete_error_name e) None)"
  by (cases e) (simp_all add: throw_def java_element_def kotlin_delete_error_def java_exception_def)

lemma deref_client: "h p = Some (ClientBox client slots) \<Longrightarrow> deref is_ClientBox p h = Returned (ClientBox client slots)"
  by simp

lemma register_agrees:
  assumes "h p = Some (ClientBox client slots)"
  shows "jni_client_register E p (Some pin) (Some secret) (Some info) guesses w h =
    (if unat guesses < 2 ^ 15
     then call_and_wait E p client slots java_register_answer (RegisterCall pin secret info guesses) w h
     else Panicked)"
proof -
  have answer: "(case r of Err e \<Rightarrow> map_option Err (Some (java_exception ''Register''
        (register_error_name (bridge_register_error_from e)) None)) | Ok x \<Rightarrow> Some (Ok ())) =
      java_register_answer (RegisterResponse (error_of bridge_register_error_from r))" for r :: "register_error + unit"
    by (cases r) simp_all
  show ?thesis
    unfolding jni_client_register_def deref_client [where h = h, OF assms] jni_run_def call_and_wait_def
      unsigned_try_from_eq register_thrown
    by (cases "user_secret_from secret") (simp_all add: answer case_prod_unfold)
qed

lemma recover_agrees:
  assumes "h p = Some (ClientBox client slots)"
  shows "jni_client_recover E p (Some pin) (Some info) w h =
    call_and_wait E p client slots java_recover_answer (RecoverCall pin info) w h"
proof -
  have answer: "(case r of Err e \<Rightarrow> map_option Err (Some (java_exception ''Recover''
        (recover_reason_name (reason (bridge_recover_error_from e))) (guesses_remaining (bridge_recover_error_from e)))) |
        Ok x \<Rightarrow> Some (Ok (user_secret_bytes x))) =
      java_recover_answer (recover_response r)" for r
    by (cases r) (simp_all add: unmanaged_borrow_def as_slice_def)
  show ?thesis
    unfolding jni_client_recover_def deref_client [where h = h, OF assms] jni_run_def call_and_wait_def recover_thrown
    by (simp add: answer case_prod_unfold)
qed

lemma delete_agrees:
  assumes "h p = Some (ClientBox client slots)"
  shows "jni_client_delete E p w h = call_and_wait E p client slots java_delete_answer DeleteCall w h"
proof -
  have answer: "(case r of Err e \<Rightarrow> map_option Err (Some (java_exception ''Delete''
        (delete_error_name (bridge_delete_error_from e)) None)) | Ok x \<Rightarrow> Some (Ok ())) =
      java_delete_answer (DeleteResponse (error_of bridge_delete_error_from r))" for r :: "delete_error + unit"
    by (cases r) simp_all
  show ?thesis
    unfolding jni_client_delete_def deref_client [where h = h, OF assms] jni_run_def call_and_wait_def delete_thrown
    by (simp add: answer case_prod_unfold)
qed

text \<open>Whatever is not null and not the address of a token must not be passed as a token.\<close>

lemma jni_token_address_undefined:
  assumes "auth_token \<noteq> 0" and "\<not> holds is_TokenBox auth_token h"
  shows "jni_auth_token_get_complete i auth_token h st = Undefined"
  using assms by (simp add: jni_auth_token_get_complete_def ffi_token_option_def ffi_bind_Undefined)

section \<open>Properties\<close>

text \<open>C37. The request object that the Java function is given carries the request: its id, method, URL, body and
  all the headers in their order, although the array of headers is first filled with the first of
  them. It is made when no JNI call fails and there are fewer than \<open>2 ^ 31\<close> headers.\<close>

theorem java_request_faithful:
  "(\<forall>r. jni_request jvm request i = Some r \<longrightarrow>
      r = \<lparr>java_request_id = bytes_of i, java_request_method = method_as_str (http_method request),
           java_request_url = http_url request,
           java_request_headers = (if http_headers request = [] then None
             else Some (map java_header_of (http_headers request))),
           java_request_body = http_body request\<rparr>) \<and>
    ((\<forall>call. jvm call) \<and> length (http_headers request) < 2 ^ 31 \<longrightarrow> jni_request jvm request i \<noteq> None)"
proof (intro conjI allI impI)
  fix r assume "jni_request jvm request i = Some r"
  then show "r = \<lparr>java_request_id = bytes_of i, java_request_method = method_as_str (http_method request),
      java_request_url = http_url request,
      java_request_headers = (if http_headers request = [] then None
        else Some (map java_header_of (http_headers request))),
      java_request_body = http_body request\<rparr>"
    by (auto simp: jni_request_def bind_eq_Some_conv dest!: jni_headers_made split: if_splits)
next
  assume "(\<forall>call. jvm call) \<and> length (http_headers request) < 2 ^ 31"
  then show "jni_request jvm request i \<noteq> None"
    using jni_headers_runs [of jvm "length (http_headers request)" 0 "http_headers request" None]
    by (auto simp: jni_request_def fun_eq_iff)
qed

text \<open>The Java interface gives the same configuration as the C interface, or panics, for the same realms,
  thresholds and mode: it panics exactly when the C interface does or a threshold is negative as
  a Java \<open>int\<close>. In particular the order of the constants of the Kotlin enumeration is that of the
  Rust discriminants.\<close>

lemma java_configurations_agree:
  "jni_configuration_create malloc parse_url (Some (map (\<lambda>(i, address, key). Some (jvm_realm i address key)) rs))
     reg rec (Some (ucast (bridge_pin_hashing_mode_code mode))) h =
   (if unat reg < 2 ^ 31 \<and> unat rec < 2 ^ 31
    then ffi_configuration_create malloc parse_url
      (unmanaged_borrow (ManagedArray (map (\<lambda>(i, address, key). c_realm i address key) rs))) reg rec mode h
    else Panicked)"
proof -
  have "map (\<lambda>jrealm. Option.bind jrealm (jni_realm_from parse_url))
      (map (\<lambda>(i, address, key). Some (jvm_realm i address key)) rs) =
    map (ffi_realm_from parse_url) (map (\<lambda>(i, address, key). c_realm i address key) rs)"
    by (simp add: split_beta realms_agree)
  then show ?thesis
    unfolding jni_configuration_create_def ffi_configuration_create_def unsigned_try_from_eq
    by (simp add: u8_try_from_mode as_slice_def unmanaged_borrow_def bridge_pin_hashing_mode_total del: map_map)
qed

text \<open>C36. The operations of the Java interface are those of the C interface, with the answer returned or thrown
  instead of passed to a callback: on a client and with arguments that are not null, registering
  runs the C interface's task and throws its error under the name the enumeration has for it, or
  panics when the number of guesses is negative as a Java \<open>short\<close>; so do recovering, whose
  exception has the guesses that remain, and deleting.\<close>

theorem java_operations_agree:
  assumes "h p = Some (ClientBox client slots)"
  shows "jni_client_register E p (Some pin) (Some secret) (Some info) guesses w h =
      (if unat guesses < 2 ^ 15
       then call_and_wait E p client slots java_register_answer (RegisterCall pin secret info guesses) w h
       else Panicked) \<and>
    jni_client_recover E p (Some pin) (Some info) w h =
      call_and_wait E p client slots java_recover_answer (RecoverCall pin info) w h \<and>
    jni_client_delete E p w h = call_and_wait E p client slots java_delete_answer DeleteCall w h"
  by (intro conjI register_agrees recover_agrees delete_agrees assms)

text \<open>HTTP requests across the Java interface: whatever the order of requests, completions and failures
  to hand a request over, when the random ids differ, every request that was filed waits until
  the first completion with its id and gets that response, or fails if the Java function threw
  before any completion; the later ones change nothing, and no request panics.\<close>

lemma java_requests_answered:
  assumes "runs jni_http_step jni_http_event no_calls es st" and "distinct (opened es)"
  shows "channels st = outcomes es \<and> (\<forall>c \<in> set (channels st). poll_unwrap_or_none c = None \<longleftrightarrow> c = Waiting)"
proof (intro conjI ballI)
  show "channels st = outcomes es"
    by (rule jni_http.answered [OF assms(1) refl assms(2)])
  show "poll_unwrap_or_none c = None \<longleftrightarrow> c = Waiting" for c
    by (cases c) simp_all
qed

end
