(* ===== verification/Foreign_Web.thy ===== *)
theory Foreign_Web
  imports Bridge Client_Auth
begin

text \<open>
  The web interface (rust/sdk/bridge/wasm/src/lib.rs). The browser is the record \<open>browser\<close>: reading
  JavaScript values, header maps, \<open>fetch\<close>, timers and the page's function for tokens; \<open>'j\<close> are the
  values, \<open>'h\<close> the header maps. An exception or a rejected promise that is unwrapped is a panic.
  Here an object of the interface is a value and not an address: the generated glue code keeps it.
\<close>

section \<open>The browser\<close>

record 'h web_request =
  web_method :: string
  web_url :: string
  web_body :: "bytes option"
  web_headers :: 'h

text \<open>Reading the body: the call throws, the promise is rejected, or its bytes can or cannot be had.\<close>

datatype web_blob = BlobThrows | BlobRejected | BufferRejected | BlobBytes bytes

record web_response =
  web_status :: u16
  web_entries :: "(string option \<times> string option) list"
  web_blob :: web_blob

datatype fetched = FetchRejected | NotAResponse | Fetched web_response

record ('w, 'j, 'h) browser =
  value_as_string :: "'j \<Rightarrow> string option"
  json_stringify :: "'j \<Rightarrow> 'j option"
  empty_headers :: 'h
  headers_set :: "string \<Rightarrow> string \<Rightarrow> 'h \<Rightarrow> 'h option"
  request_valid :: "string \<Rightarrow> string \<Rightarrow> bytes option \<Rightarrow> bool"
  fetch_with_request :: "'h web_request \<Rightarrow> 'w \<Rightarrow> fetched \<times> 'w"
  set_timeout :: "32 word \<Rightarrow> 'w \<Rightarrow> bool \<times> 'w"
  page_auth_token :: "bytes \<Rightarrow> 'w \<Rightarrow> 'j option \<times> 'w"

section \<open>Configurations and clients\<close>

text \<open>The JSON of an argument that is a string, or an object to be printed.\<close>

definition js_json :: "('w, 'j, 'h) browser \<Rightarrow> 'j \<Rightarrow> string panics" where
  "js_json B v =
     (case value_as_string B v of
        Some s \<Rightarrow> Some s
      | None \<Rightarrow> do {
          json \<leftarrow> json_stringify B v;
          value_as_string B json
        })"

definition web_configuration_new ::
  "('w, 'j, 'h) browser \<Rightarrow> (string \<Rightarrow> 'u configuration option) \<Rightarrow> 'j \<Rightarrow> 'u configuration panics" where
  "web_configuration_new B from_json v = do {
     json_string \<leftarrow> js_json B v;
     from_json json_string
   }"

text \<open>\<open>from_value\<close> is serde_wasm_bindgen's; the transport, the tokens and the sleeper are those below.\<close>

definition web_client_new ::
  "('j \<Rightarrow> 'u configuration option) \<Rightarrow> 'w http_client \<Rightarrow> (realm_id \<Rightarrow> 'w \<Rightarrow> auth_token option \<times> 'w) \<Rightarrow>
     (nat \<Rightarrow> 'w \<Rightarrow> 'w) \<Rightarrow> 'u configuration \<Rightarrow> 'j list \<Rightarrow>
     (('w, 'u) client \<times> (realm_id \<Rightarrow> session option option)) panics" where
  "web_client_new from_value http tokens sleeper configuration previous_configurations = do {
     builder \<leftarrow> with_configuration configuration builder_new;
     previous \<leftarrow> those (map from_value previous_configurations);
     builder \<leftarrow> with_previous_configurations previous builder;
     build_client (with_sleeper sleeper (with_http http (with_auth_token_manager tokens builder)))
   }"

section \<open>Operations\<close>

record web_recover_error =
  web_reason :: recover_error_reason
  web_guesses_remaining :: "u16 option"

fun web_recover_error_from :: "recover_error \<Rightarrow> web_recover_error" where
  "web_recover_error_from recover_error.InvalidAuth =
     \<lparr>web_reason = InvalidAuthReason, web_guesses_remaining = None\<rparr>"
| "web_recover_error_from recover_error.UpgradeRequired =
     \<lparr>web_reason = UpgradeRequiredReason, web_guesses_remaining = None\<rparr>"
| "web_recover_error_from (recover_error.InvalidPin guesses) =
     \<lparr>web_reason = InvalidPinReason, web_guesses_remaining = Some guesses\<rparr>"
| "web_recover_error_from recover_error.NotRegistered =
     \<lparr>web_reason = NotRegisteredReason, web_guesses_remaining = None\<rparr>"
| "web_recover_error_from recover_error.Transient =
     \<lparr>web_reason = TransientReason, web_guesses_remaining = None\<rparr>"
| "web_recover_error_from recover_error.Assertion =
     \<lparr>web_reason = AssertionReason, web_guesses_remaining = None\<rparr>"
| "web_recover_error_from recover_error.RateLimitExceeded =
     \<lparr>web_reason = RateLimitExceededReason, web_guesses_remaining = None\<rparr>"

definition web_register ::
  "('w, 'u, 's::field, 'p, 'ed) env \<Rightarrow> ('w, 'u) client \<Rightarrow> bytes \<Rightarrow> bytes \<Rightarrow> bytes \<Rightarrow> u16 \<Rightarrow>
     ('w client_state, bridge_register_error, unit) step" where
  "web_register E self pin secret info guesses =
     io_bind (io_panics (user_secret_from secret)) (\<lambda>secret.
     io_map_err bridge_register_error_from
       (client_register E self (Pin pin) secret (UserInfo info) \<lparr>num_guesses = guesses\<rparr>))"

definition web_recover ::
  "('w, 'u, 's::field, 'p::ab_group_add, 'ed) env \<Rightarrow> ('w, 'u) client \<Rightarrow> bytes \<Rightarrow> bytes \<Rightarrow>
     ('w client_state, web_recover_error, bytes) step" where
  "web_recover E self pin info =
     io_match (client_recover E self (Pin pin) (UserInfo info)) (\<lambda>r. case r of
         Ok secret \<Rightarrow> io_return (user_secret_bytes secret)
       | Err e \<Rightarrow> io_err (web_recover_error_from e))"

definition web_delete ::
  "('w, 'u, 's, 'p, 'ed) env \<Rightarrow> ('w, 'u) client \<Rightarrow> ('w client_state, bridge_delete_error, unit) step" where
  "web_delete E self = io_map_err bridge_delete_error_from (client_delete E self)"

section \<open>HTTP\<close>

fun set_web_headers :: "('w, 'j, 'h) browser \<Rightarrow> headers \<Rightarrow> 'h \<Rightarrow> 'h panics" where
  "set_web_headers B [] h = Some h"
| "set_web_headers B ((name, v) # hs) h = do {
     h \<leftarrow> headers_set B name v h;
     set_web_headers B hs h
   }"

text \<open>The request as the browser is given it: the SDK's headers first, then the request's own.\<close>

definition web_request_new ::
  "('w, 'j, 'h) browser \<Rightarrow> string \<Rightarrow> http_request \<Rightarrow> 'h web_request panics" where
  "web_request_new B version request = do {
     assert_that (request_valid B (method_as_str (http_method request)) (http_url request) (http_body request));
     h \<leftarrow> headers_set B ''User-Agent'' (''JuiceboxSdk-WASM/'' @ version) (empty_headers B);
     h \<leftarrow> headers_set B JUICEBOX_VERSION_HEADER version h;
     h \<leftarrow> set_web_headers B (http_headers request) h;
     Some \<lparr>web_method = method_as_str (http_method request), web_url = http_url request,
           web_body = http_body request, web_headers = h\<rparr>
   }"

fun collect_web_headers :: "headers \<Rightarrow> (string option \<times> string option) list \<Rightarrow> headers panics" where
  "collect_web_headers m [] = Some m"
| "collect_web_headers m ((name, v) # entries) = do {
     name \<leftarrow> name;
     v \<leftarrow> v;
     collect_web_headers (AList.update name v m) entries
   }"

fun web_body_bytes :: "web_blob \<Rightarrow> bytes panics" where
  "web_body_bytes BlobThrows = None"
| "web_body_bytes BlobRejected = Some []"
| "web_body_bytes BufferRejected = None"
| "web_body_bytes (BlobBytes body) = Some body"

definition web_http_send ::
  "('w, 'j, 'h) browser \<Rightarrow> string \<Rightarrow> http_request \<Rightarrow> 'w \<Rightarrow> (http_response option \<times> 'w) panics" where
  "web_http_send B version request w = do {
     js_request \<leftarrow> web_request_new B version request;
     let (fetched, w) = fetch_with_request B js_request w;
     (case fetched of
        FetchRejected \<Rightarrow> Some (None, w)
      | NotAResponse \<Rightarrow> None
      | Fetched response \<Rightarrow> do {
          hs \<leftarrow> collect_web_headers [] (web_entries response);
          body \<leftarrow> web_body_bytes (web_blob response);
          Some (Some \<lparr>response_status = web_status response, response_headers = hs, response_body = body\<rparr>, w)
        })
   }"

section \<open>Sleeping and tokens\<close>

text \<open>The milliseconds must fit \<open>i32\<close>; when the timer cannot be set there is no waiting.\<close>

definition web_sleep :: "('w, 'j, 'h) browser \<Rightarrow> nat \<Rightarrow> 'w \<Rightarrow> 'w panics" where
  "web_sleep B millis w = do {
     assert_that (millis < 2 ^ 31);
     Some (snd (set_timeout B (word_of_nat millis) w))
   }"

definition web_token_get ::
  "('w, 'j, 'h) browser \<Rightarrow> realm_id \<Rightarrow> 'w \<Rightarrow> auth_token option \<times> 'w" where
  "web_token_get B realm w =
     (let (r, w) = page_auth_token B (bytes_of (id_bytes realm)) w in
      (case r of
         Some v \<Rightarrow> map_option (\<lambda>s. AuthToken (SecretString s)) (value_as_string B v)
       | None \<Rightarrow> None, w))"

definition web_generator_new ::
  "('w, 'j, 'h) browser \<Rightarrow> (string \<Rightarrow> auth_token_generator option) \<Rightarrow> 'j \<Rightarrow> auth_token_generator panics" where
  "web_generator_new B from_json v = do {
     json_string \<leftarrow> js_json B v;
     from_json json_string
   }"

definition web_vend ::
  "('k, 'v) jwt_lib \<Rightarrow> hex_codec \<Rightarrow> auth_token_generator \<Rightarrow> string \<Rightarrow> string \<Rightarrow> u64 \<Rightarrow> string panics" where
  "web_vend J X self realm secret now = do {
     realm \<leftarrow> unwrap (realm_id_from_str X realm);
     secret \<leftarrow> unwrap (secret_id_from_str X secret);
     token \<leftarrow> vend J X self realm secret now;
     Some (expose_token token)
   }"

definition web_random_secret_id :: "hex_codec \<Rightarrow> ('r \<Rightarrow> 16 barray \<times> 'r) \<Rightarrow> 'r \<Rightarrow> string" where
  "web_random_secret_id X generate rng =
     hex_encode X (bytes_of (secret_id_bytes (fst (secret_id_new_random generate rng))))"

section \<open>Lemmas\<close>

lemma web_vend_Some:
  "web_vend J X self realm secret now = Some s \<longleftrightarrow>
     (\<exists>r i token. realm_id_from_str X realm = Ok r \<and> secret_id_from_str X secret = Ok i \<and>
       vend J X self r i now = Some token \<and> s = expose_token token)"
  by (auto simp: web_vend_def bind_eq_Some_conv)

lemma web_random_secret_id_parses:
  "hex_laws X \<Longrightarrow> secret_id_from_str X (web_random_secret_id X generate rng) = Ok (fst (secret_id_new_random generate rng))"
  by (simp add: web_random_secret_id_def secret_id_from_str_def hex_laws_def)

lemma web_token_get_page:
  assumes "page_auth_token B (bytes_of (id_bytes realm)) w = (Some v, w')" and "value_as_string B v = Some (expose_token token)"
  shows "web_token_get B realm w = (Some token, w')"
  using assms by (cases token; cases "token_secret token") (auto simp: web_token_get_def expose_token_def)

lemma web_recover_error_agrees:
  "web_reason (web_recover_error_from e) = reason (bridge_recover_error_from e)"
  "web_guesses_remaining (web_recover_error_from e) = guesses_remaining (bridge_recover_error_from e)"
  by (cases e; simp)+

text \<open>A timer for at most 25 milliseconds can always be asked for.\<close>

lemma web_sleep_short: "d \<le> 25 \<Longrightarrow> web_sleep B d w \<noteq> None"
  by (simp add: web_sleep_def)

section \<open>Properties\<close>

text \<open>A page can serve its own tokens: it makes a random secret id, has a token vended for it under the id of
  a realm as a string, and returns that string when the client asks for a token; then the client
  gets a token that the realm accepts when it holds the public key, for the very secret id the
  page was given.\<close>

lemma web_tokens_accepted:
  assumes "hex_laws X" and "jwt_laws J" and "deserialize_auth_key X hex_error (Ok text) = Ok (generator_key self)"
    and "realm_id_from_str X realm_string = Ok realm"
    and "web_vend J X self realm_string (web_random_secret_id X generate rng) now = Some s"
    and "page_auth_token B (bytes_of (id_bytes realm)) w = (Some v, w')" and "value_as_string B v = Some s"
    and "private_from_der J EdDSA (expose_auth_key (generator_key self)) = Some k"
    and "key_algorithm public = EdDSA" and "public_from_der J EdDSA (expose_auth_key public) = Some vk"
    and "verifies J k vk" and "length s \<le> 1000"
    and "now \<le> later" and "later < now + 600" and "now \<le> now + 600"
  shows "\<exists>token claims. web_token_get B realm w = (Some token, w') \<and>
    validate build J X (validator_new X realm (RequireScope User)) token public later = Some (Ok claims) \<and>
    claim_issuer claims = generator_tenant self \<and>
    secret_id_from_str X (claim_subject claims) = Ok (fst (secret_id_new_random generate rng))"
proof -
  obtain token where token: "vend J X self realm (fst (secret_id_new_random generate rng)) now = Some token"
    and s: "s = expose_token token"
    using assms(4,5) web_random_secret_id_parses [OF assms(1), of generate rng] by (auto simp: web_vend_Some)
  show ?thesis
    using vended_accepted [OF assms(1-3) token assms(8-11) assms(12) [unfolded s] assms(13-15), of build]
      web_token_get_page [OF assms(6) assms(7) [unfolded s]]
    by blast
qed

end
