(* ===== verification/Timing.thy ===== *)
theory Timing
  imports Request "HOL-Library.Sublist"
begin

text \<open>
  How long a request to a realm sleeps between its attempts (rust/sdk/src/request.rs). The world
  keeps the list of the durations for which the sleeper was called, in milliseconds; whatever
  else the client calls leaves it alone.
\<close>

definition timed :: "('w, 'u, 's, 'p, 'ed) env \<Rightarrow> ('w \<Rightarrow> nat list) \<Rightarrow> bool" where
  "timed E naps \<longleftrightarrow>
     (\<forall>d w. naps (env_sleep E d w) = naps w @ [d]) \<and>
     (\<forall>q w. naps (snd (env_http E q w)) = naps w) \<and>
     (\<forall>i w. naps (snd (env_token E i w)) = naps w) \<and>
     (\<forall>w. naps (snd (env_now E w)) = naps w) \<and>
     (\<forall>w. naps (snd (env_random32 E w)) = naps w) \<and>
     (\<forall>w. naps (snd (env_next_u32 E w)) = naps w)"

lemma timedD:
  assumes "timed E naps"
  shows "naps (env_sleep E d w) = naps w @ [d]" "naps (snd (env_http E q w)) = naps w"
    "naps (snd (env_token E i w)) = naps w" "naps (snd (env_now E w)) = naps w"
    "naps (snd (env_random32 E w)) = naps w" "naps (snd (env_next_u32 E w)) = naps w"
  using assms by (simp_all add: timed_def)

section \<open>Steps that do not sleep\<close>

definition awake :: "('w \<Rightarrow> nat list) \<Rightarrow> 'w client_state \<Rightarrow> 'w client_state \<Rightarrow> bool" where
  "awake naps st st' \<longleftrightarrow> naps (world st') = naps (world st)"

lemma awake_preorder: "reflp (awake naps)" "transp (awake naps)"
  by (auto simp: awake_def intro!: reflpI transpI)

lemma awake_send:
  assumes "timed E naps"
  shows "io_rel (awake naps) (io_world_panics (send_with_options (env_net E) KQ KA (env_http E) base request opts))"
proof (rule io_relI)
  fix st r st'
  assume "io_world_panics (send_with_options (env_net E) KQ KA (env_http E) base request opts) st = Some (r, st')"
  then show "awake naps st st'"
    by (cases "to_vec KQ request")
      (auto simp: awake_def io_world_panics_def send_with_options_def bind_eq_Some_conv Let_def split_beta
        timedD [OF assms] split: option.splits)
qed

lemma awake_world:
  assumes "\<And>w. naps (snd (g w)) = naps w"
  shows "io_rel (awake naps) (io_world g)"
  by (rule io_relI) (auto simp: awake_def io_world_def Let_def split_beta assms)

lemma awake_calls:
  assumes "timed E naps"
  shows "io_rel (awake naps) (get_token E i)" "io_rel (awake naps) (take_session E i)"
    "io_rel (awake naps) (put_session i s)" "io_rel (awake naps) (lock_sessions i)"
    "io_rel (awake naps) (io_world (env_now E))" "io_rel (awake naps) (io_world (env_random32 E))"
    "io_rel (awake naps) (io_world (env_next_u32 E))"
    "io_rel (awake naps) (send_client_request E realm cr)"
    "io_rel (awake naps) (send_secrets_request E realm request headers)"
proof -
  show "io_rel (awake naps) (get_token E i)" "io_rel (awake naps) (take_session E i)"
      "io_rel (awake naps) (put_session i s)" "io_rel (awake naps) (lock_sessions i)"
    by (auto intro!: io_relI simp: awake_def get_token_def take_session_def put_session_def lock_sessions_def
        Let_def split_beta timedD [OF assms] split: option.splits if_splits)
  show "io_rel (awake naps) (io_world (env_now E))" "io_rel (awake naps) (io_world (env_random32 E))"
      "io_rel (awake naps) (io_world (env_next_u32 E))"
    by (intro awake_world timedD [OF assms])+
  show "io_rel (awake naps) (send_client_request E realm cr)"
      "io_rel (awake naps) (send_secrets_request E realm request headers)"
    unfolding send_client_request_def send_secrets_request_def send_def
    by (intro io_rel_map_err awake_send [OF assms])+
qed

lemmas awake_intros = io_rel_bind [OF awake_preorder(2)] io_rel_match [OF awake_preorder(2)] io_rel_map_err
  io_rel_pure [OF awake_preorder(1)]

lemma awake_finish:
  assumes "timed E naps"
  shows "io_rel (awake naps) (finish_handshake E hs i resp)" "io_rel (awake naps) (finish_transport E session resp)"
  unfolding finish_handshake_def finish_transport_def
  by (auto intro!: awake_intros awake_calls [OF assms] split: client_response.split noise_response.split)

lemma awake_try:
  assumes "timed E naps"
  shows "io_rel (awake naps) (try_make_request E realm public_key session payload nfs)"
proof -
  have h: "io_rel (awake naps) (make_handshake_request E realm public_key payload)" for payload
    unfolding make_handshake_request_def
    by (auto intro!: awake_intros awake_calls [OF assms] awake_finish [OF assms])
  have t: "io_rel (awake naps) (make_transport_request E realm s payload)" for s
    unfolding make_transport_request_def
    by (auto intro!: awake_intros awake_calls [OF assms] awake_finish [OF assms])
  show ?thesis
    unfolding try_make_request_def by (auto intro!: awake_intros h t split: option.split)
qed

section \<open>Steps that sleep\<close>

text \<open>The step sleeps for some of the durations of a list, in their order.\<close>

definition sleeps :: "('w \<Rightarrow> nat list) \<Rightarrow> nat list \<Rightarrow> ('w client_state, 'e, 'a) step \<Rightarrow> bool" where
  "sleeps naps ds m \<longleftrightarrow> (\<forall>st r st'. m st = Some (r, st') \<longrightarrow>
     (\<exists>es. naps (world st') = naps (world st) @ es \<and> subseq es ds))"

lemma sleeps_awake: "io_rel (awake naps) m \<Longrightarrow> sleeps naps ds m"
  by (force simp: sleeps_def io_rel_def awake_def)

lemma sleeps_sleep: "timed E naps \<Longrightarrow> sleeps naps [d] (io_sleep E d)"
  by (auto simp: sleeps_def io_sleep_def timedD)

lemma sleeps_then:
  assumes "naps (world st1) = naps (world st) @ es" and "subseq es ds"
    and "naps (world st2) = naps (world st1) @ fs" and "subseq fs ds'"
  shows "\<exists>gs. naps (world st2) = naps (world st) @ gs \<and> subseq gs (ds @ ds')"
  by (rule exI [of _ "es @ fs"]) (simp add: assms list_emb_append_mono)

lemma sleeps_bind:
  assumes "sleeps naps ds m" and "\<And>x. sleeps naps ds' (f x)"
  shows "sleeps naps (ds @ ds') (io_bind m f)"
  unfolding sleeps_def
proof (intro allI impI)
  fix st r st' assume "io_bind m f st = Some (r, st')"
  then consider e where "m st = Some (Err e, st')" | x st1 where "m st = Some (Ok x, st1)" "f x st1 = Some (r, st')"
    by (auto simp: io_bind_Some)
  then show "\<exists>gs. naps (world st') = naps (world st) @ gs \<and> subseq gs (ds @ ds')"
  proof cases
    case 1
    with assms(1) show ?thesis
      unfolding sleeps_def by (meson list_emb_prefix)
  next
    case 2
    with assms show ?thesis
      unfolding sleeps_def by (meson sleeps_then)
  qed
qed

lemma sleeps_match:
  assumes "sleeps naps ds m" and "\<And>r. sleeps naps ds' (f r)"
  shows "sleeps naps (ds @ ds') (io_match m f)"
  unfolding sleeps_def
proof (intro allI impI)
  fix st r st' assume "io_match m f st = Some (r, st')"
  then obtain q st1 where "m st = Some (q, st1)" "f q st1 = Some (r, st')"
    by (auto simp: io_match_Some)
  with assms show "\<exists>gs. naps (world st') = naps (world st) @ gs \<and> subseq gs (ds @ ds')"
    unfolding sleeps_def by (meson sleeps_then)
qed

lemmas awake_then = sleeps_bind [where ds = "[]", OF sleeps_awake, simplified]
  sleeps_match [where ds = "[]", OF sleeps_awake, simplified]

lemma sleeps_mono: "sleeps naps ds m \<Longrightarrow> subseq ds ds' \<Longrightarrow> sleeps naps ds' m"
  unfolding sleeps_def by (meson subseq_order.trans)

lemma subseq_sum_list: "subseq es ds \<Longrightarrow> sum_list es \<le> sum_list (ds :: nat list)"
  by (induction rule: list_emb.induct) auto

lemma sleeps_software:
  assumes "timed E naps"
  shows "sleeps naps (replicate n 5) (software_attempts E realm request headers n)"
proof (induction n)
  case 0
  show ?case
    by (simp add: sleeps_awake awake_intros)
next
  case (Suc n)
  have "sleeps naps (replicate (Suc n) 5) (case r of
         Ok response \<Rightarrow> io_return response
       | Err e \<Rightarrow>
           if e = Transient
           then io_bind (io_sleep E 5) (\<lambda>_. software_attempts E realm request headers n)
           else io_err e)" for r
    using sleeps_bind [OF sleeps_sleep [OF assms, of 5] Suc.IH]
    by (cases r) (simp_all add: sleeps_awake awake_intros)
  then show ?case
    unfolding software_attempts.simps by (rule awake_then(2) [OF awake_calls(9) [OF assms]])
qed

lemma sleeps_hardware:
  assumes "timed E naps"
  shows "sleeps naps (map ((*) 5) attempts) (hardware_attempts E realm public_key request nfs attempts)"
proof (induction attempts)
  case Nil
  show ?case
    by (simp add: sleeps_awake awake_intros)
next
  case (Cons attempt rest)
  have "sleeps naps (map ((*) 5) (attempt # rest)) (case r of
         Ok (session, response) \<Rightarrow>
           io_bind (put_session (realm_id realm) session) (\<lambda>_.
           io_bind (io_panics (decode_response E response)) io_result)
       | Err (RequestError e) \<Rightarrow>
           if e = Transient
           then io_bind (io_sleep E (5 * attempt)) (\<lambda>_.
                hardware_attempts E realm public_key request nfs rest)
           else io_err e
       | Err MissingSessionError \<Rightarrow> hardware_attempts E realm public_key request nfs rest)" for r
    using sleeps_bind [OF sleeps_sleep [OF assms, of "5 * attempt"] Cons.IH]
      sleeps_mono [OF Cons.IH, of "map ((*) 5) (attempt # rest)"]
    by (cases r) (auto simp: sleeps_awake awake_intros awake_calls [OF assms]
        simp del: hardware_attempts.simps split: request_error_or_missing_session.split)
  then show ?case
    unfolding hardware_attempts.simps
    by (intro awake_then awake_calls [OF assms] awake_try [OF assms])
qed

lemma sleeps_make_request:
  assumes "timed E naps"
  shows "sleeps naps (if realm_public_key realm = None then [5, 5] else [5, 10, 15, 20, 25]) (make_request E realm request)"
proof (cases "realm_public_key realm")
  case None
  have "sleeps naps (replicate 2 5) (make_software_realm_request E realm request)"
    unfolding make_software_realm_request_def
    by (intro awake_then awake_calls [OF assms] sleeps_software [OF assms])
  with None show ?thesis
    by (simp add: make_request_def numeral_2_eq_2)
next
  case (Some k)
  have "sleeps naps (map ((*) 5) [1, 2, 3, 4, 5]) (make_hardware_realm_request E realm k request)"
    unfolding make_hardware_realm_request_def Let_def
    by (intro awake_then awake_calls [OF assms] sleeps_hardware [OF assms] awake_intros)
  with Some show ?thesis
    by (simp add: make_request_def)
qed

section \<open>Properties\<close>

text \<open>C39. What a request sleeps, in order, however it ends: to a software realm at most twice 5 milliseconds,
  to a hardware realm some of 5, 10, 15, 20 and 25 milliseconds in this order; the sleep after the last
  attempt is among them. So it sleeps for 75 milliseconds at most. No single sleep is longer than 25 milliseconds.\<close>

theorem sleeps_bounded:
  assumes "timed E naps" and "make_request E realm request st = Some (r, st')"
  shows "\<exists>ds. naps (world st') = naps (world st) @ ds \<and> sum_list ds \<le> 75 \<and> (\<forall>d \<in> set ds. d \<le> 25) \<and>
    subseq ds (if realm_public_key realm = None then [5, 5] else [5, 10, 15, 20, 25])"
proof -
  obtain ds where ds: "naps (world st') = naps (world st) @ ds"
      "subseq ds (if realm_public_key realm = None then [5, 5] else [5, 10, 15, 20, 25])"
    using sleeps_make_request [OF assms(1), of realm request] assms(2) unfolding sleeps_def by blast
  have "sum_list ds \<le> 75"
    using subseq_sum_list [OF ds(2)] by (simp split: if_splits)
  moreover have "\<forall>d \<in> set ds. d \<le> 25"
  proof
    fix d assume "d \<in> set ds"
    then have "d \<in> set (if realm_public_key realm = None then [5, 5] else [5, 10, 15, 20, 25])"
      by (rule list_emb_set [OF ds(2)]) (simp only:)
    then show "d \<le> 25"
      by (auto split: if_splits)
  qed
  ultimately show ?thesis
    using ds by blast
qed

end
