(* ===== verification/Process_Group.thy ===== *)
theory Process_Group
  imports Realm_Auth
begin

text \<open>
  Groups of child processes (rust/process_group/src/lib.rs) and the software realm they are used
  to run (rust/software_realm_runner/src/lib.rs). The operating system is the record \<open>os\<close>; a
  child is the standard library's \<open>Child\<close>, which remembers the exit status once it is collected.
\<close>

section \<open>The operating system and children\<close>

type_synonym pid = nat
type_synonym exit_status = int

datatype signal = SIGTERM | SIGKILL
datatype errno = ESRCH | OtherErrno nat

record 'w os =
  kill_process :: "pid \<Rightarrow> signal \<Rightarrow> 'w \<Rightarrow> errno option \<times> 'w"
  waitpid_nohang :: "pid \<Rightarrow> 'w \<Rightarrow> (errno + exit_status option) \<times> 'w"
  waitpid :: "pid \<Rightarrow> 'w \<Rightarrow> (errno + exit_status) \<times> 'w"
  os_sleep :: "nat \<Rightarrow> 'w \<Rightarrow> 'w"
  os_spawn :: "string list \<Rightarrow> (string \<times> string) list \<Rightarrow> 'w \<Rightarrow> (errno + pid) \<times> 'w"

record child =
  child_id :: pid
  child_status :: "exit_status option"

definition child_try_wait :: "'w os \<Rightarrow> child \<Rightarrow> 'w \<Rightarrow> (errno + exit_status option) \<times> child \<times> 'w" where
  "child_try_wait S c w =
     (case child_status c of
        Some status \<Rightarrow> (Ok (Some status), c, w)
      | None \<Rightarrow>
          (case waitpid_nohang S (child_id c) w of
             (Ok (Some status), w) \<Rightarrow> (Ok (Some status), c\<lparr>child_status := Some status\<rparr>, w)
           | (r, w) \<Rightarrow> (r, c, w)))"

definition child_wait :: "'w os \<Rightarrow> child \<Rightarrow> 'w \<Rightarrow> (errno + exit_status) \<times> child \<times> 'w" where
  "child_wait S c w =
     (case child_status c of
        Some status \<Rightarrow> (Ok status, c, w)
      | None \<Rightarrow>
          (case waitpid S (child_id c) w of
             (Ok status, w) \<Rightarrow> (Ok status, c\<lparr>child_status := Some status\<rparr>, w)
           | (Err e, w) \<Rightarrow> (Err e, c, w)))"

definition child_kill :: "'w os \<Rightarrow> child \<Rightarrow> 'w \<Rightarrow> errno option \<times> 'w" where
  "child_kill S c w =
     (case child_status c of
        Some status \<Rightarrow> (None, w)
      | None \<Rightarrow> kill_process S (child_id c) SIGKILL w)"

section \<open>The killer\<close>

text \<open>
  \<open>for _ in 0..1000\<close>: \<open>n\<close> polls are left. \<open>try_wait().transpose()\<close> is a result when there was a status or
  an error.
\<close>

fun poll_exit :: "'w os \<Rightarrow> nat \<Rightarrow> child \<Rightarrow> 'w \<Rightarrow> (errno + exit_status) option \<times> child \<times> 'w" where
  "poll_exit S 0 c w = (None, c, w)"
| "poll_exit S (Suc n) c w =
     (case child_try_wait S c w of
        (Ok (Some status), c, w) \<Rightarrow> (Some (Ok status), c, w)
      | (Err e, c, w) \<Rightarrow> (Some (Err e), c, w)
      | (Ok None, c, w) \<Rightarrow> poll_exit S n c (os_sleep S 1 w))"

definition kill_and_wait :: "'w os \<Rightarrow> child \<Rightarrow> 'w \<Rightarrow> (errno + exit_status) \<times> child \<times> 'w" where
  "kill_and_wait S c w =
     (case child_kill S c w of
        (Some e, w) \<Rightarrow> (Err e, c, w)
      | (None, w) \<Rightarrow> child_wait S c w)"

definition killer_kill :: "'w os \<Rightarrow> child \<Rightarrow> 'w \<Rightarrow> (errno + exit_status) \<times> child \<times> 'w" where
  "killer_kill S c w =
     (case kill_process S (child_id c) SIGTERM w of
        (None, w) \<Rightarrow>
          (case poll_exit S 1000 c w of
             (Some status, c, w) \<Rightarrow> (status, c, w)
           | (None, c, w) \<Rightarrow> kill_and_wait S c w)
      | (Some ESRCH, w) \<Rightarrow> child_wait S c w
      | (Some (OtherErrno e), w) \<Rightarrow> kill_and_wait S c w)"

definition killer_drop :: "'w os \<Rightarrow> child \<Rightarrow> 'w \<Rightarrow> 'w" where
  "killer_drop S c w = snd (snd (killer_kill S c w))"

section \<open>The group\<close>

text \<open>The most recently started child is in front.\<close>

type_synonym process_group = "child list"

definition group_new :: process_group where
  "group_new = []"

definition group_spawn ::
  "'w os \<Rightarrow> string list \<Rightarrow> (string \<times> string) list \<Rightarrow> process_group \<Rightarrow> 'w \<Rightarrow> (process_group \<times> 'w) panics" where
  "group_spawn S command environment g w =
     (case os_spawn S command environment w of
        (Ok p, w) \<Rightarrow> Some (\<lparr>child_id = p, child_status = None\<rparr> # g, w)
      | (Err e, w) \<Rightarrow> None)"

definition group_add :: "child \<Rightarrow> process_group \<Rightarrow> process_group" where
  "group_add c g = c # g"

text \<open>One turn of the loop: the child is killed, and dropped at the end of the turn.\<close>

definition kill_child :: "'w os \<Rightarrow> child \<Rightarrow> 'w \<Rightarrow> 'w" where
  "kill_child S c w = (let (r, c, w) = killer_kill S c w in killer_drop S c w)"

definition group_kill :: "'w os \<Rightarrow> process_group \<Rightarrow> 'w \<Rightarrow> process_group \<times> 'w" where
  "group_kill S g w = ([], fold (kill_child S) g w)"

definition group_drop :: "'w os \<Rightarrow> process_group \<Rightarrow> 'w \<Rightarrow> 'w" where
  "group_drop S g w = fold (killer_drop S) g w"

section \<open>The software realm runner\<close>

record runner_args =
  runner_id :: realm_id
  runner_port :: u16
  runner_secrets :: string

text \<open>\<open>http_ok\<close>: the GET of the URL is answered with success. \<open>runner_secrets\<close> is the JSON of the secrets.\<close>

fun wait_until_up ::
  "'w os \<Rightarrow> (string \<Rightarrow> 'w \<Rightarrow> bool \<times> 'w) \<Rightarrow> string \<Rightarrow> nat \<Rightarrow> child \<Rightarrow> process_group \<Rightarrow> 'w \<Rightarrow>
     bool \<times> process_group \<times> 'w" where
  "wait_until_up S http_ok url 0 c g w = (False, g, w)"
| "wait_until_up S http_ok url (Suc n) c g w =
     (case http_ok url w of
        (True, w) \<Rightarrow> (True, group_add c g, w)
      | (False, w) \<Rightarrow>
          (case child_try_wait S c w of
             (Ok (Some exit_code), c, w) \<Rightarrow> (False, g, w)
           | (_, c, w) \<Rightarrow> wait_until_up S http_ok url n c g (os_sleep S 10 w)))"

definition runner_run ::
  "'w os \<Rightarrow> hex_codec \<Rightarrow> (string \<Rightarrow> 'w \<Rightarrow> bool \<times> 'w) \<Rightarrow> process_group \<Rightarrow> runner_args \<Rightarrow> 'w \<Rightarrow>
     (bool \<times> process_group \<times> 'w) panics" where
  "runner_run S X http_ok g args w =
     (let port = show_nat (unat (runner_port args)) in
      case os_spawn S
          [''jb-sw-realm'', ''-id'', hex_encode X (bytes_of (id_bytes (runner_id args))), ''-port'', port]
          [(''TENANT_SECRETS'', runner_secrets args)] w of
        (Err e, w) \<Rightarrow> None
      | (Ok p, w) \<Rightarrow>
          Some (wait_until_up S http_ok (''http://0.0.0.0:'' @ port) 100
            \<lparr>child_id = p, child_status = None\<rparr> g w))"

section \<open>Lemmas\<close>

text \<open>A log of the calls made of the operating system, with its answers.\<close>

datatype os_call =
    Signalled pid signal "errno option"
  | Polled pid "errno + exit_status option"
  | Waited pid "errno + exit_status"

definition calls_logged :: "'w os \<Rightarrow> ('w \<Rightarrow> os_call list) \<Rightarrow> bool" where
  "calls_logged S log \<longleftrightarrow>
     (\<forall>p s w. log (snd (kill_process S p s w)) = log w @ [Signalled p s (fst (kill_process S p s w))]) \<and>
     (\<forall>p w. log (snd (waitpid_nohang S p w)) = log w @ [Polled p (fst (waitpid_nohang S p w))]) \<and>
     (\<forall>p w. log (snd (waitpid S p w)) = log w @ [Waited p (fst (waitpid S p w))]) \<and>
     (\<forall>d w. log (os_sleep S d w) = log w)"

text \<open>The failures that keep a killer from an exit status; a SIGTERM may fail.\<close>

fun failed :: "os_call \<Rightarrow> bool" where
  "failed (Signalled p s e) \<longleftrightarrow> s = SIGKILL \<and> e \<noteq> None"
| "failed (Polled p r) \<longleftrightarrow> (\<exists>e. r = Err e)"
| "failed (Waited p r) \<longleftrightarrow> (\<exists>e. r = Err e)"

text \<open>
  What it takes to collect the exit status \<open>s\<close>: SIGTERM and a poll within the first thousand that finds
  it; SIGTERM, a thousand polls in vain, SIGKILL and a wait; a SIGTERM to a process that is gone and a
  wait; a SIGTERM that fails otherwise, SIGKILL and a wait.
\<close>

definition collects :: "pid \<Rightarrow> exit_status \<Rightarrow> os_call list \<Rightarrow> bool" where
  "collects p s cs \<longleftrightarrow>
     (\<exists>k < 1000. cs = Signalled p SIGTERM None # replicate k (Polled p (Ok None)) @ [Polled p (Ok (Some s))]) \<or>
     cs = Signalled p SIGTERM None # replicate 1000 (Polled p (Ok None)) @ [Signalled p SIGKILL None, Waited p (Ok s)] \<or>
     cs = [Signalled p SIGTERM (Some ESRCH), Waited p (Ok s)] \<or>
     (\<exists>e. cs = [Signalled p SIGTERM (Some (OtherErrno e)), Signalled p SIGKILL None, Waited p (Ok s)])"

text \<open>The turn of a child: its status is collected, and it is sent SIGTERM once more.\<close>

definition turn :: "pid \<Rightarrow> os_call list \<Rightarrow> bool" where
  "turn p cs \<longleftrightarrow> (\<exists>s first e. collects p s first \<and> cs = first @ [Signalled p SIGTERM e])"

lemma calls_loggedD:
  assumes "calls_logged S log"
  shows "kill_process S p s w = (r, w1) \<Longrightarrow> log w1 = log w @ [Signalled p s r]"
    and "waitpid_nohang S p w = (r', w2) \<Longrightarrow> log w2 = log w @ [Polled p r']"
    and "waitpid S p w = (r'', w3) \<Longrightarrow> log w3 = log w @ [Waited p r'']" and "log (os_sleep S d w) = log w"
  using assms unfolding calls_logged_def by (metis fst_conv snd_conv)+

text \<open>A child whose status has been collected.\<close>

lemma collected_child:
  assumes "child_status c = Some s"
  shows "child_try_wait S c w = (Ok (Some s), c, w)" and "child_wait S c w = (Ok s, c, w)"
    and "child_kill S c w = (None, w)" and "poll_exit S (Suc n) c w = (Some (Ok s), c, w)"
    and "kill_and_wait S c w = (Ok s, c, w)"
  using assms by (simp_all add: child_try_wait_def child_wait_def child_kill_def kill_and_wait_def)

lemma killer_kill_collected:
  assumes "calls_logged S log" and "child_status c = Some s"
  shows "\<exists>e w'. killer_kill S c w = (Ok s, c, w') \<and> log w' = log w @ [Signalled (child_id c) SIGTERM e]"
proof -
  obtain e w1 where sigterm: "kill_process S (child_id c) SIGTERM w = (e, w1)"
    by fastforce
  have "poll_exit S 1000 c w1 = (Some (Ok s), c, w1)"
    using collected_child(4) [OF assms(2), of S 999] by simp
  then show ?thesis
    using calls_loggedD(1) [OF assms(1) sigterm]
    by (auto simp: killer_kill_def sigterm collected_child(2,5) [OF assms(2)] split: option.split errno.split)
qed

text \<open>A child whose status has not been collected.\<close>

lemma child_try_wait_log:
  assumes "calls_logged S log" and "child_status c = None" and "child_try_wait S c w = (r, c', w')"
  shows "log w' = log w @ [Polled (child_id c) r] \<and>
    c' = (case r of Ok (Some s) \<Rightarrow> c\<lparr>child_status := Some s\<rparr> | _ \<Rightarrow> c)"
  using assms(2,3) calls_loggedD(2) [OF assms(1)]
  by (auto simp: child_try_wait_def split: prod.splits sum.splits option.splits)

lemma child_wait_log:
  assumes "calls_logged S log" and "child_status c = None" and "child_wait S c w = (r, c', w')"
  shows "log w' = log w @ [Waited (child_id c) r] \<and> (\<forall>s. r = Ok s \<longrightarrow> child_status c' = Some s) \<and>
    child_id c' = child_id c"
  using assms(2,3) calls_loggedD(3) [OF assms(1)]
  by (auto simp: child_wait_def split: prod.splits sum.splits)

lemma kill_and_wait_log:
  assumes "calls_logged S log" and "child_status c = None" and "kill_and_wait S c w = (r, c', w')"
  shows "child_id c' = child_id c \<and> (\<exists>cs. log w' = log w @ cs \<and> (list_all (Not \<circ> failed) cs \<longrightarrow>
    (\<exists>s. r = Ok s \<and> child_status c' = Some s \<and> cs = [Signalled (child_id c) SIGKILL None, Waited (child_id c) (Ok s)])))"
proof -
  obtain e w1 where kill: "child_kill S c w = (e, w1)"
    by fastforce
  then have log1: "log w1 = log w @ [Signalled (child_id c) SIGKILL e]"
    using calls_loggedD(1) [OF assms(1)] assms(2) by (simp add: child_kill_def)
  show ?thesis
  proof (cases e)
    case None
    then have "child_wait S c w1 = (r, c', w')"
      using assms(3) kill by (simp add: kill_and_wait_def)
    from child_wait_log [OF assms(1,2) this] log1 None show ?thesis
      by (cases r) auto
  next
    case (Some e)
    then show ?thesis
      using assms(3) kill log1 by (simp add: kill_and_wait_def)
  qed
qed

lemma poll_exit_log:
  assumes "calls_logged S log" and "child_status c = None" and "poll_exit S n c w = (r, c', w')"
  shows "case r of
      None \<Rightarrow> c' = c \<and> log w' = log w @ replicate n (Polled (child_id c) (Ok None))
    | Some q \<Rightarrow> (\<exists>k < n. log w' = log w @ replicate k (Polled (child_id c) (Ok None)) @
        [Polled (child_id c) (case q of Ok s \<Rightarrow> Ok (Some s) | Err e \<Rightarrow> Err e)]) \<and>
        c' = (case q of Ok s \<Rightarrow> c\<lparr>child_status := Some s\<rparr> | Err e \<Rightarrow> c)"
  using assms(3)
proof (induction n arbitrary: w)
  case (Suc n)
  obtain q c1 w1 where q: "child_try_wait S c w = (q, c1, w1)"
    by (metis prod_cases3)
  note log = child_try_wait_log [OF assms(1,2) q]
  consider (running) "q = Ok None" | (exited) s where "q = Ok (Some s)" | (error) e where "q = Err e"
    by (metis option.exhaust sum.exhaust)
  then show ?case
  proof cases
    case running
    then have "poll_exit S n c (os_sleep S 1 w1) = (r, c', w')" and w1: "log (os_sleep S 1 w1) = log w @ [Polled (child_id c) (Ok None)]"
      using Suc.prems q log calls_loggedD(4) [OF assms(1), of 1 w1] by simp_all
    from Suc.IH [OF this(1)] w1 show ?thesis
      by (cases r) (auto intro: exI [of _ "Suc _"])
  next
    case exited
    then show ?thesis
      using Suc.prems q log by (auto intro: exI [of _ 0])
  next
    case error
    then show ?thesis
      using Suc.prems q log by (auto intro: exI [of _ 0])
  qed
qed simp

lemma killer_kill_log:
  assumes "calls_logged S log" and "child_status c = None" and "killer_kill S c w = (r, c', w')"
  shows "child_id c' = child_id c \<and> (\<exists>cs. log w' = log w @ cs \<and> (list_all (Not \<circ> failed) cs \<longrightarrow>
    (\<exists>s. r = Ok s \<and> child_status c' = Some s \<and> collects (child_id c) s cs)))"
proof -
  obtain e w1 where sigterm: "kill_process S (child_id c) SIGTERM w = (e, w1)"
    by fastforce
  note log1 = calls_loggedD(1) [OF assms(1) sigterm]
  obtain q c2 w2 where poll: "poll_exit S 1000 c w1 = (q, c2, w2)"
    by (metis prod_cases3)
  note polled = poll_exit_log [OF assms(1,2) poll]
  consider (gone) "e = Some ESRCH" | (other) n where "e = Some (OtherErrno n)"
    | (polled) status where "e = None" "q = Some status" | (stubborn) "e = None" "q = None"
    by (metis errno.exhaust option.exhaust)
  then show ?thesis
  proof cases
    case gone
    then have "child_wait S c w1 = (r, c', w')"
      using assms(3) sigterm by (simp add: killer_kill_def)
    from child_wait_log [OF assms(1,2) this] log1 gone show ?thesis
      by (cases r) (auto simp: collects_def)
  next
    case other
    then have "kill_and_wait S c w1 = (r, c', w')"
      using assms(3) sigterm by (simp add: killer_kill_def)
    from kill_and_wait_log [OF assms(1,2) this] log1 other show ?thesis
      by (auto simp: collects_def)
  next
    case polled
    then have "r = status" "c' = c2" "w' = w2"
      using assms(3) sigterm poll by (simp_all add: killer_kill_def)
    then show ?thesis
      using \<open>q = Some status\<close> \<open>e = None\<close> poll_exit_log [OF assms(1,2) poll] log1
      by (cases status) (auto simp: collects_def)
  next
    case stubborn
    then have "kill_and_wait S c w2 = (r, c', w')" "log w2 = log w1 @ replicate 1000 (Polled (child_id c) (Ok None))"
      using assms(3) sigterm poll polled by (simp_all add: killer_kill_def)
    from kill_and_wait_log [OF assms(1,2) this(1)] this(2) log1 stubborn show ?thesis
      by (auto simp: collects_def)
  qed
qed

lemma kill_child_log:
  assumes "calls_logged S log" and "child_status c = None"
  shows "\<exists>cs. log (kill_child S c w) = log w @ cs \<and> (list_all (Not \<circ> failed) cs \<longrightarrow> turn (child_id c) cs)"
proof -
  obtain r c1 w1 where kill: "killer_kill S c w = (r, c1, w1)"
    by (metis prod_cases3)
  obtain r2 c2 w2 where again: "killer_kill S c1 w1 = (r2, c2, w2)"
    by (metis prod_cases3)
  have run: "kill_child S c w = w2"
    by (simp add: kill_child_def killer_drop_def kill again)
  obtain cs where cs: "log w1 = log w @ cs" "child_id c1 = child_id c"
      "list_all (Not \<circ> failed) cs \<Longrightarrow> \<exists>s. child_status c1 = Some s \<and> collects (child_id c) s cs"
    using killer_kill_log [OF assms kill] by blast
  show ?thesis
  proof (cases "child_status c1")
    case None
    with killer_kill_log [OF assms(1) None again] cs show ?thesis
      by (auto simp: run)
  next
    case (Some s)
    from killer_kill_collected [OF assms(1) Some, of w1] again
    obtain e where "log w2 = log w1 @ [Signalled (child_id c1) SIGTERM e]"
      by auto
    with cs show ?thesis
      by (auto simp: run turn_def)
  qed
qed

lemma poll_exit_naps:
  assumes "\<And>d w. t (os_sleep S d w) = t w + d" and "\<And>p w. t (snd (waitpid_nohang S p w)) = t w"
  shows "t (snd (snd (poll_exit S n c w))) \<le> t w + n"
proof (induction n arbitrary: c w)
  case (Suc n)
  obtain q c1 w1 where q: "child_try_wait S c w = (q, c1, w1)"
    by (metis prod_cases3)
  then have w1: "t w1 = t w"
    using assms(2) [of "child_id c" w]
    by (auto simp: child_try_wait_def split: option.splits prod.splits sum.splits)
  show ?case
    using Suc.IH [of c1 "os_sleep S 1 w1"] by (auto simp: q assms(1) w1 split: sum.split option.split)
qed simp

section \<open>Properties\<close>

text \<open>C40. Killing a group of children whose exit statuses have not been collected, in a run in which no
  poll, no wait and no SIGKILL fails, empties the group and takes its children one after the other,
  the most recently started first. The turn of a child collects its exit status: it is sent SIGTERM
  and polled up to a thousand times until the status is there, then sent SIGKILL and waited for;
  when SIGTERM finds no process it is only waited for, and when SIGTERM fails otherwise it is sent SIGKILL at
  once and waited for. Then, when the killer is dropped, the process id is sent one more SIGTERM, although the
  status has been collected and the id may belong to another process by then; no other signal is
  sent, and nothing else is polled or waited for.\<close>

theorem group_kill_signals:
  assumes "calls_logged S log" and "\<And>c. c \<in> set g \<Longrightarrow> child_status c = None"
    and "group_kill S g w = (g', w')" and "log w' = log w @ cs" and "list_all (Not \<circ> failed) cs"
  shows "g' = [] \<and> (\<exists>turns. list_all2 (\<lambda>c t. turn (child_id c) t) g turns \<and> cs = concat turns)"
proof -
  have "\<exists>cs. log (fold (kill_child S) g w) = log w @ cs \<and> (list_all (Not \<circ> failed) cs \<longrightarrow>
      (\<exists>turns. list_all2 (\<lambda>c t. turn (child_id c) t) g turns \<and> cs = concat turns))"
    using assms(2)
  proof (induction g arbitrary: w)
    case (Cons c g)
    obtain t where t: "log (kill_child S c w) = log w @ t" "list_all (Not \<circ> failed) t \<longrightarrow> turn (child_id c) t"
      using kill_child_log [OF assms(1)] Cons.prems by (metis list.set_intros(1))
    have "\<And>c. c \<in> set g \<Longrightarrow> child_status c = None"
      using Cons.prems by simp
    from Cons.IH [OF this, of "kill_child S c w"] obtain cs where cs:
      "log (fold (kill_child S) g (kill_child S c w)) = log (kill_child S c w) @ cs"
      "list_all (Not \<circ> failed) cs \<longrightarrow> (\<exists>turns. list_all2 (\<lambda>c t. turn (child_id c) t) g turns \<and> cs = concat turns)"
      by blast
    show ?case
    proof (intro exI [of _ "t @ cs"] conjI impI)
      assume "list_all (Not \<circ> failed) (t @ cs)"
      with t(2) cs(2) obtain turns where "turn (child_id c) t" "list_all2 (\<lambda>c t. turn (child_id c) t) g turns" "cs = concat turns"
        by auto
      then show "\<exists>turns. list_all2 (\<lambda>c t. turn (child_id c) t) (c # g) turns \<and> t @ cs = concat turns"
        by (intro exI [of _ "t # turns"]) simp
    qed (simp add: t(1) cs(1))
  qed simp
  then show ?thesis
    using assms(3-5) by (auto simp: group_kill_def)
qed

text \<open>A child that does not exit is sent SIGKILL after a thousand polls, that is after a second.\<close>

lemma killer_waits_a_second:
  assumes "\<And>d w. t (os_sleep S d w) = t w + d" and "\<And>p w. t (snd (waitpid_nohang S p w)) = t w"
  shows "t (snd (snd (poll_exit S 1000 c w))) \<le> t w + 1000"
  by (rule poll_exit_naps [OF assms])

text \<open>The runner adds the realm to the group only when it is up. Otherwise nothing kills it, also when it
  is still running after the hundred attempts.\<close>

lemma runner_adds_when_up:
  assumes "runner_run S X http_ok g args w = Some (up, g', w')"
  shows "if up then \<exists>c. g' = c # g else g' = g"
proof -
  have "if up then \<exists>c. g' = c # g else g' = g" if "wait_until_up S http_ok url n c g w = (up, g', w')" for url n c w
    using that
  proof (induction n arbitrary: c w)
    case (Suc n)
    then show ?case
      by (auto simp: group_add_def split: prod.splits bool.splits sum.splits option.splits)
  qed simp
  with assms show ?thesis
    by (auto simp: runner_run_def Let_def split: prod.splits sum.splits)
qed

end
