(* ===== verification/Foreign_Witnesses.thy ===== *)
theory Foreign_Witnesses
  imports Hardware_Witness Token_Cli Foreign_Java Foreign_Web Timing Process_Group
begin

text \<open>
  The properties of the foreign interfaces, of the command line tool, of the sleeps and of the
  process groups, applied to concrete instances of their hypotheses.
\<close>

section \<open>The token tool\<close>

definition tool_args :: token_args where
  "tool_args = \<lparr>arg_user = claim_subject example_claims, arg_tenant = ''tenant'', arg_realm = realm_id (example_realm 1),
     arg_key = SecretBytesVec [1, 2, 3], arg_version = AuthKeyVersion 32, arg_algorithm = EdDSA\<rparr>"

definition tool_errors :: jwt_error_lib where
  "tool_errors = \<lparr>downcast_jwt = (\<lambda>e. None), debug_jwt = (\<lambda>e. e)\<rparr>"

definition tool_keygen :: "nat keygen" where
  "tool_keygen = \<lparr>hs256_generate = (\<lambda>r. ([], r)), rs256_generate = (\<lambda>r. (None, r)), eddsa_generate = (\<lambda>r. (([], []), r))\<rparr>"

text \<open>A token whose key id names another tenant than its issuer: no realm accepts it, the tool does.\<close>

theorem tool_verdict_witness:
  "\<exists>out. run_tool Release example_jwt tool_errors tool_keygen example_hex
      (Validate (AuthToken (SecretString ''other:32'')) tool_args) 200 (0 :: nat) = Some out \<and> exit_code out = 0 \<and>
    validate Release example_jwt example_hex (validator_new example_hex (realm_id (example_realm 1)) AnyScopeOrMissing)
      (AuthToken (SecretString ''other:32'')) example_key 200 = Some (Err BadKeyId)"
proof -
  have kid: "token_key_id example_jwt (AuthToken (SecretString ''other:32'')) = Ok (''other'', AuthKeyVersion 32)"
  proof -
    have "key_id_of ''other'' (AuthKeyVersion 32) = ''other:32''"
      by (simp add: key_id_of_def show_nat.simps decimal_digit_def char_of_eq_iff)
    then show ?thesis
      using parse_key_id_of [of "''other''" "AuthKeyVersion 32"]
      by (simp add: token_key_id_def example_jwt_def expose_token_def issuer_regex_def alphanumerics_def alphanumeric_def)
  qed
  have rejected: "validate Release example_jwt example_hex (validator_new example_hex (realm_id (example_realm 1)) AnyScopeOrMissing)
      (AuthToken (SecretString ''other:32'')) example_key 200 = Some (Err BadKeyId)"
    using kid example_signing
    by (simp add: validate_def check_claims_def check_lifetime_def validation_options_def validator_new_def example_audience_def
        example_jwt_def example_jwt_claims_def MAX_LIFETIME_SECONDS_def and_then_def ok_or_def)
  then have "validate Release example_jwt example_hex (validator_new example_hex (arg_realm tool_args) AnyScopeOrMissing)
      (AuthToken (SecretString ''other:32'')) \<lparr>key_data = arg_key tool_args, key_algorithm = arg_algorithm tool_args\<rparr> 200 =
      Some (Err BadKeyId)"
    by (simp add: tool_args_def example_key_def)
  from tool_verdict [OF this, of tool_errors tool_keygen 0] kid rejected show ?thesis
    by auto
qed

section \<open>The C interface\<close>

text \<open>Addresses are given out in order.\<close>

definition next_address :: "('w, 'u) heap \<Rightarrow> ptr" where
  "next_address h = Suc (Max (insert 0 (dom h)))"

lemma next_address: "allocates (next_address :: ('w, 'u) heap \<Rightarrow> ptr)"
  unfolding allocates_def
proof (intro allI impI)
  fix h :: "('w, 'u) heap" assume fin: "finite (dom h)"
  have "p \<le> Max (insert 0 (dom h))" if "p \<in> dom h" for p
    using fin that by simp
  then have "Suc (Max (insert 0 (dom h))) \<notin> dom h"
    using not_less_eq_eq by blast
  then show "next_address h \<noteq> 0 \<and> h (next_address h) = None"
    by (auto simp: next_address_def)
qed

definition example_host :: "(example_world, string, string, unit) host" where
  "example_host = \<lparr>host_malloc = next_address, host_parse_url = Some,
     host_configuration_json = (\<lambda>s. Some example_configuration), host_generator_json = (\<lambda>s. Some example_generator),
     host_sleep = env_sleep example_env, host_token_get = env_token example_env, host_http_send = env_http example_env,
     host_jwt = example_jwt, host_hex = example_hex\<rparr>"

definition example_client :: "(example_world, string) client" where
  "example_client = \<lparr>client_configuration = example_checked, client_previous_configurations = [],
     client_auth_token_manager = env_token example_env, client_http = env_http example_env,
     client_sleeper = env_sleep example_env\<rparr>"

lemma example_client_env: "client_env example_env example_client = example_env"
  by (simp add: client_env_def example_client_def)

lemma run_all_fails:
  assumes "\<And>f st. f \<in> set fs \<Longrightarrow> \<exists>st'. f st = Some (Err e, st')"
  shows "\<exists>st'. run_all fs st = Some (replicate (length fs) (Err e), st')"
  using assms
proof (induction fs arbitrary: st)
  case (Cons f fs)
  obtain st1 where "f st = Some (Err e, st1)"
    using Cons.prems [of f st] by auto
  moreover obtain st2 where "run_all fs st1 = Some (replicate (length fs) (Err e), st2)"
    using Cons.IH [of st1] Cons.prems by auto
  ultimately show ?case
    by simp
qed simp

lemma example_delete: "\<exists>st'. client_delete example_env example_client st = Some (Err delete_error.Transient, st')"
proof -
  let ?fs = "map (delete_on_realm example_env) (crealms example_checked)"
  have n: "length ?fs = 3"
    by (simp add: example_checked_def example_configuration_def)
  have "\<exists>st'. f st = Some (Err delete_error.Transient, st')" if f_in: "f \<in> set ?fs" for f st
  proof -
    obtain realm where f: "f = delete_on_realm example_env realm" "realm \<in> set (crealms example_checked)"
      using f_in unfolding set_map by blast
    then show ?thesis
      using example_software [OF example_realms [OF f(2)], of Delete st]
      by (auto simp: delete_on_realm_def io_match_def io_err_def)
  qed
  then obtain st' where run: "run_all (in_order [0..<3] ?fs) (st\<lparr>world := world st\<rparr>) =
      Some (replicate 3 (Err delete_error.Transient), st')"
    using run_all_fails [of ?fs "delete_error.Transient" "st\<lparr>world := world st\<rparr>"] n map_nth [of ?fs]
    by (auto simp: in_order_def)
  obtain rs where rs: "join_all example_env ?fs st = Some (rs, st')" "length rs = 3"
      "\<forall>k < 3. rs ! k = Err delete_error.Transient"
    using join_all_results [OF example_executor_ok _ run] n by auto
  have "rs = replicate 3 (Err delete_error.Transient)"
    using rs(2,3) by (intro nth_equalityI) auto
  with rs(1) show ?thesis
    unfolding client_delete_def example_client_env
    by (simp add: perform_delete_def example_client_def numeral_3_eq_3 collect_results.simps)
qed

text \<open>
  The program makes a configuration and a client, destroys the configuration, and starts two
  operations: registering a secret that is too long, and deleting.
\<close>

definition example_slots :: slots where
  "example_slots = initial_sessions example_checked"

definition two_calls :: "c_event list" where
  "two_calls = [Called (ConfigurationCreateFromJson (CString ''{}'')) (Some 1),
     Called (ClientCreate 1 (UnmanagedArray (Some []))) (Some 2), Called (ConfigurationDestroy 1) None,
     Called (ClientRegister 2 7 (UnmanagedArray (Some [1])) (UnmanagedArray (Some (replicate 129 0))) (UnmanagedArray (Some [])) 2) None,
     Called (ClientDelete 2 8) None]"

definition two_tasks :: "task list" where
  "two_tasks = [\<lparr>task_client = 2, task_context = 7, task_call = RegisterCall [1] (replicate 129 0) [] 2\<rparr>,
     \<lparr>task_client = 2, task_context = 8, task_call = DeleteCall\<rparr>]"

definition running :: "task list \<Rightarrow> (example_world, string) process" where
  "running ts = \<lparr>heap_of = [2 \<mapsto> ClientBox example_client example_slots], world_of = (0, []), tasks = ts\<rparr>"

lemma c_runs_called:
  "c_runs L E es st \<Longrightarrow> c_call L x st = Returned (p, st') \<Longrightarrow> c_legal es x \<Longrightarrow> es' = es @ [Called x p] \<Longrightarrow>
     c_runs L E es' st'"
  by (auto intro: c_runs.step c_step.called)

lemma two_calls_run: "c_runs example_host example_env two_calls (running two_tasks)"
proof -
  let ?st = "\<lambda>h :: (example_world, string) heap. \<lparr>heap_of = h, world_of = (0, []), tasks = []\<rparr>"
  note history = null_or_def owned_def unanswered_def two_calls_def
  have "c_runs example_host example_env (take 1 two_calls) (?st [1 \<mapsto> ConfigurationBox example_configuration])"
    by (rule c_runs_called [OF c_runs.start [where w = "(0, [])"]])
      (simp_all add: process_start_def with_new_box_def ffi_configuration_create_from_json_def into_raw_def
        example_host_def next_address_def two_calls_def)
  then have "c_runs example_host example_env (take 2 two_calls)
      (?st [1 \<mapsto> ConfigurationBox example_configuration, 2 \<mapsto> ClientBox example_client example_slots])"
    by (rule c_runs_called)
      (simp_all add: with_new_box_def ffi_client_create_def into_raw_def example_host_def next_address_def
        assert_not_null_def deref_def as_slice_def with_configuration_def with_previous_configurations_def
        build_client_def with_sleeper_def with_http_def with_auth_token_manager_def builder_new_def example_checked
        example_client_def example_slots_def history numeral_2_eq_2)
  then have "c_runs example_host example_env (take 3 two_calls) (running [])"
    by (rule c_runs_called)
      (simp_all add: with_heap_def ffi_configuration_destroy_def drop_box_def assert_not_null_def deref_def history
        running_def fun_upd_twist [of 1])
  then have "c_runs example_host example_env (take 4 two_calls) (running (take 1 two_tasks))"
    by (rule c_runs_called)
      (simp_all add: with_task_def ffi_client_register_def assert_not_null_def ffi_context_def deref_def history
        running_def unmanaged_to_vec_def as_slice_def two_tasks_def)
  then show ?thesis
    by (rule c_runs_called)
      (simp_all add: with_task_def ffi_client_delete_def assert_not_null_def ffi_context_def deref_def history
        running_def two_tasks_def)
qed

text \<open>The client is owned and has operations to answer: it may delete once more, but not be destroyed.\<close>

theorem c_interface_safe_witness:
  "c_runs example_host example_env two_calls (running two_tasks) \<and>
    kinds (heap_of (running two_tasks)) 2 = Some ClientKind \<and>
    run_task example_env (two_tasks ! 0) (running two_tasks) \<noteq> Undefined \<and>
    run_task example_env (two_tasks ! 1) (running two_tasks) \<noteq> Undefined \<and>
    c_call example_host (ClientDelete 2 9) (running two_tasks) \<noteq> Undefined \<and> \<not> c_legal two_calls (ClientDestroy 2)"
proof -
  have "allocates (host_malloc example_host)"
    using next_address by (simp add: example_host_def)
  from c_interface_safe [OF this two_calls_run]
  have calls: "c_legal two_calls x \<Longrightarrow> c_call example_host x (running two_tasks) \<noteq> Undefined"
    and kinds: "kinds (heap_of (running two_tasks)) = owned two_calls"
    and tasks: "\<forall>t \<in> set two_tasks. run_task example_env t (running two_tasks) \<noteq> Undefined" for x
    by (simp_all add: running_def)
  have own: "owned two_calls 2 = Some ClientKind" "unanswered two_calls = {#2, 2#}"
    by (simp_all add: owned_def unanswered_def two_calls_def)
  show ?thesis
    using two_calls_run tasks kinds own calls [of "ClientDelete 2 9"] by (simp add: two_tasks_def null_or_def)
qed

text \<open>A client of three enclaves.\<close>

definition enclave_slots :: slots where
  "enclave_slots = initial_sessions enclave_checked"

lemma enclave_client_created:
  "ffi_client_create next_address (\<lambda>d w. w) 1 (UnmanagedArray (Some []))
     (\<lambda>i w. (Some (AuthToken (SecretString ''token'')), w)) enclave_http [1 \<mapsto> ConfigurationBox enclave_configuration] =
   Returned (2, [1 \<mapsto> ConfigurationBox enclave_configuration, 2 \<mapsto> ClientBox hardware_client enclave_slots])"
  by (simp add: ffi_client_create_def into_raw_def next_address_def
      assert_not_null_def deref_def as_slice_def with_configuration_def with_previous_configurations_def
      build_client_def with_sleeper_def with_http_def with_auth_token_manager_def builder_new_def enclave_checked
      hardware_client_def enclave_slots_def numeral_2_eq_2)

theorem c_register_answered_witness:
  "run_call enclave_env hardware_client (RegisterCall [1] (replicate 128 0) [3] 2)
      \<lparr>world = (0, \<lambda>url. enclave_start), sessions = enclave_slots\<rparr> \<noteq> None \<and>
    run_call enclave_env hardware_client (RegisterCall [1] (replicate 129 0) [3] 2)
      \<lparr>world = (0, \<lambda>url. enclave_start), sessions = enclave_slots\<rparr> = None"
proof -
  have "run_call enclave_env hardware_client (RegisterCall [1] secret [3] 2)
      \<lparr>world = (0, \<lambda>url. enclave_start), sessions = enclave_slots\<rparr> = None \<longleftrightarrow> 128 < length secret" for secret
    by (rule c_register_answered [OF enclave_client_created])
      (use enclave_env_laws enclave_env_sel(4) enclave_short_answers enclave_joinable enclave_pins in
        \<open>auto simp: enclave_configuration_def example_configuration_def hardware_client_env\<close>)
  from this [of "replicate 128 0"] this [of "replicate 129 0"] show ?thesis
    by simp
qed

section \<open>The Java interface\<close>

theorem java_operations_agree_witness:
  "\<exists>w h. jni_client_delete example_env 2 (0, []) [2 \<mapsto> ClientBox example_client example_slots] =
    Returned (Err (java_exception ''Delete'' ''TRANSIENT'' None), w, h)"
proof -
  have box: "[2 :: ptr \<mapsto> ClientBox example_client example_slots] 2 = Some (ClientBox example_client example_slots)"
    by simp
  obtain cs where "client_delete example_env example_client \<lparr>world = (0, []), sessions = example_slots\<rparr> =
      Some (Err delete_error.Transient, cs)"
    using example_delete by blast
  with java_operations_agree [where h = "[2 \<mapsto> ClientBox example_client example_slots]" and E = example_env, OF box] show ?thesis
    by (simp add: call_and_wait_def)
qed

theorem java_request_faithful_witness:
  "jni_request (\<lambda>call. True) (ffi_example_request\<lparr>http_headers := [(''a'', ''1''), (''b'', ''2'')]\<rparr>) (fit [1]) =
    Some \<lparr>java_request_id = bytes_of (fit [1] :: 16 barray), java_request_method = ''POST'', java_request_url = ''u'',
      java_request_headers = Some [\<lparr>java_header_name = Some ''a'', java_header_value = Some ''1''\<rparr>,
        \<lparr>java_header_name = Some ''b'', java_header_value = Some ''2''\<rparr>],
      java_request_body = Some [1]\<rparr>"
proof -
  let ?q = "ffi_example_request\<lparr>http_headers := [(''a'', ''1''), (''b'', ''2'')]\<rparr>"
  obtain r where "jni_request (\<lambda>call. True) ?q (fit [1]) = Some r"
    using java_request_faithful [of "\<lambda>call. True" ?q "fit [1]"] by (auto simp: ffi_example_request_def)
  with java_request_faithful [of "\<lambda>call. True" ?q "fit [1]"] show ?thesis
    by (simp add: ffi_example_request_def java_header_of_def)
qed

section \<open>Sleeps\<close>

text \<open>A world that is the list of the sleeps, in which every request is lost.\<close>

definition sleepy_env :: "(nat list, string, gf5, gf5, 32 barray) env" where
  "sleepy_env = \<lparr>env_build = Release, env_curve = example_curve, env_prims = example_prims,
     env_net = example_net, env_http = (\<lambda>q w. (None, w)),
     env_token = (\<lambda>i w. (Some (AuthToken (SecretString ''token'')), w)), env_sleep = (\<lambda>d w. w @ [d]),
     env_now = (\<lambda>w. (7, w)), env_random16 = (\<lambda>w. (fit [], w)), env_random32 = (\<lambda>w. (fit [], w)),
     env_random_scalar = (\<lambda>w. (1, w)), env_next_u32 = (\<lambda>w. (0, w)), env_executor = (\<lambda>n w. ([0..<n], w)),
     cbor_client_request = write_only, cbor_client_response = write_only,
     cbor_secrets_request = write_only, cbor_secrets_response = write_only, cbor_padded_response = write_only\<rparr>"

theorem sleeps_bounded_witness:
  "\<exists>r st'. make_request sleepy_env (example_realm 1) Delete \<lparr>world = [], sessions = (\<lambda>i. None)\<rparr> = Some (r, st') \<and>
    world st' = [5, 5] \<and> sum_list (world st') \<le> 75"
proof -
  have timed: "timed sleepy_env (\<lambda>w. w)"
    by (simp add: timed_def sleepy_env_def)
  have run: "make_request sleepy_env (example_realm 1) Delete \<lparr>world = [], sessions = (\<lambda>i. None)\<rparr> =
      Some (Err request_error.Transient, \<lparr>world = [5, 5], sessions = (\<lambda>i. None)\<rparr>)"
    by (simp add: make_request_def example_realm_def make_software_realm_request_def get_token_def sleepy_env_def
        io_defs Let_def numeral_2_eq_2 send_secrets_request_def send_with_options_def io_map_err_def io_world_panics_def
        example_net_def to_vec_def write_only_def rpc_response_def io_sleep_def)
  from sleeps_bounded [OF timed run] run show ?thesis
    by auto
qed

section \<open>Process groups\<close>

text \<open>The process 1 may not be sent SIGTERM; the others exit when they are. The world is the log of the calls.\<close>

definition obedient :: "os_call list os" where
  "obedient = \<lparr>kill_process = (\<lambda>p s w.
       (let r = (if p = 1 \<and> s = SIGTERM then Some (OtherErrno 1)
                 else if Signalled p s None \<in> set w then Some ESRCH else None)
        in (r, w @ [Signalled p s r]))),
     waitpid_nohang = (\<lambda>p w. (Ok (Some 0), w @ [Polled p (Ok (Some 0))])),
     waitpid = (\<lambda>p w. (Ok 9, w @ [Waited p (Ok 9)])), os_sleep = (\<lambda>d w. w), os_spawn = (\<lambda>c e w. (Ok 1, w))\<rparr>"

definition obedient_log :: "os_call list" where
  "obedient_log = [Signalled 2 SIGTERM None, Polled 2 (Ok (Some 0)), Signalled 2 SIGTERM (Some ESRCH),
     Signalled 1 SIGTERM (Some (OtherErrno 1)), Signalled 1 SIGKILL None, Waited 1 (Ok 9),
     Signalled 1 SIGTERM (Some (OtherErrno 1))]"

theorem group_kill_signals_witness:
  "snd (group_kill obedient [\<lparr>child_id = 2, child_status = None\<rparr>, \<lparr>child_id = 1, child_status = None\<rparr>] []) = obedient_log \<and>
    (\<exists>turns. list_all2 (\<lambda>c t. turn (child_id c) t)
      [\<lparr>child_id = 2, child_status = None\<rparr>, \<lparr>child_id = 1, child_status = None\<rparr>] turns \<and> obedient_log = concat turns)"
proof -
  let ?g = "[\<lparr>child_id = 2, child_status = None\<rparr>, \<lparr>child_id = 1, child_status = None\<rparr>] :: child list"
  have logged: "calls_logged obedient (\<lambda>w. w)"
    by (simp add: calls_logged_def obedient_def Let_def)
  have kill: "kill_process obedient p s w =
      (let r = (if p = 1 \<and> s = SIGTERM then Some (OtherErrno 1)
                else if Signalled p s None \<in> set w then Some ESRCH else None)
       in (r, w @ [Signalled p s r]))" for p s w
    by (simp add: obedient_def)
  have poll: "poll_exit obedient 1000 c w =
      (Some (Ok 0), c\<lparr>child_status := Some 0\<rparr>, w @ [Polled (child_id c) (Ok (Some 0))])" if "child_status c = None" for c w
    using that poll_exit.simps(2) [of obedient 999] by (simp add: child_try_wait_def obedient_def)
  have wait: "waitpid obedient p w = (Ok 9, w @ [Waited p (Ok 9)])" for p w
    by (simp add: obedient_def)
  have run: "group_kill obedient ?g [] = ([], obedient_log)"
    by (simp add: group_kill_def kill_child_def killer_drop_def killer_kill_def kill_and_wait_def child_kill_def
        child_wait_def poll kill wait obedient_log_def Let_def)
  have "list_all (Not \<circ> failed) obedient_log"
    by (simp add: obedient_log_def)
  moreover have "child_status c = None" if "c \<in> set ?g" for c
    using that by auto
  ultimately show ?thesis
    using group_kill_signals [OF logged _ run, of obedient_log] run by simp
qed

end
