(* ===== verification/Redaction.thy ===== *)
theory Redaction
  imports Sdk_Types Realm_Api Client_Auth
begin

text \<open>
  What \<open>{:?}\<close> writes of the values that hold secrets: the redacting \<open>Debug\<close>
  implementations of the crates (rust/realm/api/src/types.rs, requests.rs, signing.rs,
  rust/oprf, rust/secret_sharing, rust/noise, rust/sdk/src/types.rs, pin.rs, client_auth.rs)
  and the derived ones that print their fields through them. The lemmas say which part of a
  message its \<open>Debug\<close> output depends on: a Register2 request and a Recover3 response show
  their share of the encryption key scalar, whose \<open>Debug\<close> is derived, and no other secret.

  Parameters are the formats of foreign types: a curve scalar, a compressed Edwards point,
  and the text of an URL. The values that hold a \<open>Duration\<close> or an \<open>Instant\<close>
  (\<open>NoiseResponse\<close>, \<open>Session\<close>) are left out.
\<close>

record ('s, 'u) formats =
  scalar_format :: "'s \<Rightarrow> string"
  edwards_format :: "32 barray \<Rightarrow> string"
  url_as_str :: "'u \<Rightarrow> string"

section \<open>The builders of \<open>core::fmt\<close> that the code uses\<close>

fun comma_separated :: "string list \<Rightarrow> string" where
  "comma_separated [] = []"
| "comma_separated [v] = v"
| "comma_separated (v # vs) = v @ '', '' @ comma_separated vs"

definition debug_fields :: "(string \<times> string) list \<Rightarrow> string" where
  "debug_fields fs = comma_separated (map (\<lambda>(field, v). field @ '': '' @ v) fs)"

text \<open>\<open>debug_struct(..).finish()\<close>, which the derived implementations of structs end with.\<close>

definition debug_struct :: "string \<Rightarrow> (string \<times> string) list \<Rightarrow> string" where
  "debug_struct name fs =
     (if fs = [] then name else name @ '' { '' @ debug_fields fs @ '' }'')"

text \<open>\<open>debug_struct(..).finish_non_exhaustive()\<close>\<close>

definition debug_struct_non_exhaustive :: "string \<Rightarrow> (string \<times> string) list \<Rightarrow> string" where
  "debug_struct_non_exhaustive name fs =
     (if fs = [] then name @ '' { .. }'' else name @ '' { '' @ debug_fields fs @ '', .. }'')"

text \<open>\<open>debug_tuple(..).finish()\<close>\<close>

definition debug_tuple :: "string \<Rightarrow> string list \<Rightarrow> string" where
  "debug_tuple name vs = (if vs = [] then name else name @ ''('' @ comma_separated vs @ '')'')"

text \<open>\<open>{:?}\<close> of a \<open>str\<close> of ASCII characters, such as the text of an URL.\<close>

fun hex_digits :: "nat \<Rightarrow> string" where
  "hex_digits n = (if n < 16 then [hex_char n] else hex_digits (n div 16) @ [hex_char (n mod 16)])"

definition escape_debug :: "char \<Rightarrow> string" where
  "escape_debug c =
     (if c = CHR 0x00 then [CHR 0x5C, CHR ''0'']
      else if c = CHR 0x09 then [CHR 0x5C, CHR ''t'']
      else if c = CHR 0x0A then [CHR 0x5C, CHR ''n'']
      else if c = CHR 0x0D then [CHR 0x5C, CHR ''r'']
      else if c = CHR 0x22 \<or> c = CHR 0x5C then [CHR 0x5C, c]
      else if of_char c < (32 :: nat) \<or> c = CHR 0x7F
      then [CHR 0x5C, CHR ''u''] @ ''{'' @ hex_digits (of_char c) @ ''}''
      else [c])"

definition debug_str :: "string \<Rightarrow> string" where
  "debug_str s = [CHR 0x22] @ concat (map escape_debug s) @ [CHR 0x22]"

section \<open>Types of the realm protocol (types.rs)\<close>

definition debug_auth_token :: "auth_token \<Rightarrow> string" where
  "debug_auth_token t = debug_tuple ''AuthToken'' [debug_string (token_secret t)]"

definition debug_registration_version :: "registration_version \<Rightarrow> string" where
  "debug_registration_version v = debug_tuple ''RegistrationVersion'' [debug_array (version_array v)]"

definition debug_session_id :: "session_id \<Rightarrow> string" where
  "debug_session_id i = debug_tuple ''SessionId'' [show_nat (unat (session_number i))]"

text \<open>The derived implementation writes the scalar itself.\<close>

definition debug_scalar_share :: "('s, 'u) formats \<Rightarrow> 's scalar_share \<Rightarrow> string" where
  "debug_scalar_share F s =
     debug_tuple ''UserSecretEncryptionKeyScalarShare'' [scalar_format F (share_scalar s)]"

definition debug_encrypted_secret :: "encrypted_user_secret \<Rightarrow> string" where
  "debug_encrypted_secret s = debug_tuple ''EncryptedUserSecret'' [debug_array (encrypted_array s)]"

definition debug_access_key :: "user_secret_access_key \<Rightarrow> string" where
  "debug_access_key k = debug_tuple ''UserSecretAccessKey'' [debug_array (access_key_array k)]"

definition debug_policy :: "policy \<Rightarrow> string" where
  "debug_policy p = debug_struct ''Policy'' [(''num_guesses'', show_nat (unat (num_guesses p)))]"

definition debug_unlock_key_tag :: "unlock_key_tag \<Rightarrow> string" where
  "debug_unlock_key_tag t = debug_tuple ''UnlockKeyTag'' [debug_array (tag_array t)]"

definition debug_secret_commitment :: "encrypted_user_secret_commitment \<Rightarrow> string" where
  "debug_secret_commitment c =
     debug_tuple ''EncryptedUserSecretCommitment'' [debug_array (secret_commitment_array c)]"

definition debug_unlock_commitment :: "unlock_key_commitment \<Rightarrow> string" where
  "debug_unlock_commitment c =
     debug_tuple ''UnlockKeyCommitment'' [debug_array (unlock_commitment_array c)]"

section \<open>Oblivious PRF and shares\<close>

definition debug_blinded_input :: "'p blinded_input \<Rightarrow> string" where
  "debug_blinded_input b = ''BlindedInput(REDACTED)''"

definition debug_blinded_output :: "'p blinded_output \<Rightarrow> string" where
  "debug_blinded_output b = ''BlindedOutput(REDACTED)''"

definition debug_oprf_output :: "oprf_output \<Rightarrow> string" where
  "debug_oprf_output r = ''Output(REDACTED)''"

definition debug_private_key :: "('s, 'u) formats \<Rightarrow> 's private_key \<Rightarrow> string" where
  "debug_private_key F k = ''PrivateKey(REDACTED)''"

definition debug_public_key :: "public_key \<Rightarrow> string" where
  "debug_public_key k = ''PublicKey('' @ concat (map hex_byte (bytes_of (public_bytes k))) @ '')''"

definition debug_blinding_factor :: "'s blinding_factor \<Rightarrow> string" where
  "debug_blinding_factor b = ''BlindingFactor(REDACTED)''"

definition debug_proof :: "'s dleq_proof \<Rightarrow> string" where
  "debug_proof p = ''Proof(REDACTED)''"

definition debug_share :: "'a share \<Rightarrow> string" where
  "debug_share s = ''Share(REDACTED)''"

definition debug_verifying_key :: "('s, 'u) formats \<Rightarrow> oprf_verifying_key \<Rightarrow> string" where
  "debug_verifying_key F k = debug_tuple ''OprfVerifyingKey'' [edwards_format F (verifying_bytes k)]"

definition debug_signed_public_key :: "('s, 'u) formats \<Rightarrow> oprf_signed_public_key \<Rightarrow> string" where
  "debug_signed_public_key F k = debug_struct ''OprfSignedPublicKey''
     [(''public_key'', debug_public_key (signed_public_key k)),
      (''verifying_key'', debug_verifying_key F (verifying_key k)),
      (''signature'', debug_array (signature k))]"

section \<open>Messages (noise lib.rs, requests.rs)\<close>

definition debug_handshake_request :: "handshake_request \<Rightarrow> string" where
  "debug_handshake_request r = debug_struct_non_exhaustive ''HandshakeRequest'' []"

definition debug_handshake_response :: "handshake_response \<Rightarrow> string" where
  "debug_handshake_response r = debug_struct_non_exhaustive ''HandshakeResponse'' []"

definition debug_transport :: "transport \<Rightarrow> string" where
  "debug_transport t = debug_struct_non_exhaustive ''Transport'' []"

definition debug_noise_request :: "noise_request \<Rightarrow> string" where
  "debug_noise_request r =
     (case r of
        HandshakeRequest handshake \<Rightarrow> debug_struct_non_exhaustive ''NoiseRequest::Handshake'' []
      | TransportRequest ciphertext \<Rightarrow> debug_struct_non_exhaustive ''NoiseRequest::Transport'' [])"

fun debug_request_kind :: "client_request_kind \<Rightarrow> string" where
  "debug_request_kind HandshakeOnly = ''HandshakeOnly''"
| "debug_request_kind SecretsRequestKind = ''SecretsRequest''"

definition debug_client_request :: "hex_codec \<Rightarrow> client_request \<Rightarrow> string panics" where
  "debug_client_request X r = do {
     realm \<leftarrow> realm_id_debug X (request_realm r);
     Some (debug_struct ''ClientRequest''
       [(''realm'', realm),
        (''auth_token'', debug_auth_token (request_auth_token r)),
        (''session_id'', debug_session_id (request_session_id r)),
        (''kind'', debug_request_kind (request_kind r)),
        (''encrypted'', debug_noise_request (request_encrypted r))])
   }"

definition debug_register2_request :: "('s, 'u) formats \<Rightarrow> 's register2_request \<Rightarrow> string" where
  "debug_register2_request F r = debug_struct ''Register2Request''
     [(''version'', debug_registration_version (r2_version r)),
      (''oprf_private_key'', debug_private_key F (r2_oprf_private_key r)),
      (''oprf_signed_public_key'', debug_signed_public_key F (r2_oprf_signed_public_key r)),
      (''unlock_key_commitment'', debug_unlock_commitment (r2_unlock_key_commitment r)),
      (''unlock_key_tag'', debug_unlock_key_tag (r2_unlock_key_tag r)),
      (''encryption_key_scalar_share'', debug_scalar_share F (r2_encryption_key_scalar_share r)),
      (''encrypted_secret'', debug_encrypted_secret (r2_encrypted_secret r)),
      (''encrypted_secret_commitment'', debug_secret_commitment (r2_encrypted_secret_commitment r)),
      (''policy'', debug_policy (r2_policy r))]"

definition debug_recover2_request :: "'p recover2_request \<Rightarrow> string" where
  "debug_recover2_request r = debug_struct ''Recover2Request''
     [(''version'', debug_registration_version (rec2_version r)),
      (''oprf_blinded_input'', debug_blinded_input (rec2_oprf_blinded_input r))]"

definition debug_recover3_request :: "recover3_request \<Rightarrow> string" where
  "debug_recover3_request r = debug_struct ''Recover3Request''
     [(''version'', debug_registration_version (rec3_version r)),
      (''unlock_key_tag'', debug_unlock_key_tag (rec3_unlock_key_tag r))]"

fun debug_secrets_request :: "('s, 'u) formats \<Rightarrow> ('s, 'p) secrets_request \<Rightarrow> string" where
  "debug_secrets_request F Register1 = ''Register1''"
| "debug_secrets_request F (Register2 r) = debug_tuple ''Register2'' [debug_register2_request F r]"
| "debug_secrets_request F Recover1 = ''Recover1''"
| "debug_secrets_request F (Recover2 r) = debug_tuple ''Recover2'' [debug_recover2_request r]"
| "debug_secrets_request F (Recover3 r) = debug_tuple ''Recover3'' [debug_recover3_request r]"
| "debug_secrets_request F Delete = ''Delete''"

fun debug_recover1_response :: "recover1_response \<Rightarrow> string" where
  "debug_recover1_response (Recover1Ok v) =
     debug_struct ''Ok'' [(''version'', debug_registration_version v)]"
| "debug_recover1_response Recover1NotRegistered = ''NotRegistered''"
| "debug_recover1_response Recover1NoGuesses = ''NoGuesses''"

fun debug_recover2_response :: "('s, 'u) formats \<Rightarrow> ('s, 'p) recover2_response \<Rightarrow> string" where
  "debug_recover2_response F (Recover2Ok r) = debug_struct ''Ok''
     [(''oprf_signed_public_key'', debug_signed_public_key F (ok_signed_public_key r)),
      (''oprf_blinded_result'', debug_blinded_output (ok_blinded_result r)),
      (''oprf_proof'', debug_proof (ok_proof r)),
      (''unlock_key_commitment'', debug_unlock_commitment (ok_unlock_key_commitment r)),
      (''num_guesses'', show_nat (unat (ok_num_guesses r))),
      (''guess_count'', show_nat (unat (ok_guess_count r)))]"
| "debug_recover2_response F Recover2VersionMismatch = ''VersionMismatch''"
| "debug_recover2_response F Recover2NotRegistered = ''NotRegistered''"
| "debug_recover2_response F Recover2NoGuesses = ''NoGuesses''"

fun debug_recover3_response :: "('s, 'u) formats \<Rightarrow> 's recover3_response \<Rightarrow> string" where
  "debug_recover3_response F (Recover3Ok s e c) = debug_struct ''Ok''
     [(''encryption_key_scalar_share'', debug_scalar_share F s),
      (''encrypted_secret'', debug_encrypted_secret e),
      (''encrypted_secret_commitment'', debug_secret_commitment c)]"
| "debug_recover3_response F Recover3VersionMismatch = ''VersionMismatch''"
| "debug_recover3_response F Recover3NotRegistered = ''NotRegistered''"
| "debug_recover3_response F (BadUnlockKeyTag g) =
     debug_struct ''BadUnlockKeyTag'' [(''guesses_remaining'', show_nat (unat g))]"
| "debug_recover3_response F Recover3NoGuesses = ''NoGuesses''"

fun debug_secrets_response :: "('s, 'u) formats \<Rightarrow> ('s, 'p) secrets_response \<Rightarrow> string" where
  "debug_secrets_response F (Register1Response r) = debug_tuple ''Register1'' [''Ok'']"
| "debug_secrets_response F (Register2Response r) = debug_tuple ''Register2'' [''Ok'']"
| "debug_secrets_response F (Recover1Response r) = debug_tuple ''Recover1'' [debug_recover1_response r]"
| "debug_secrets_response F (Recover2Response r) = debug_tuple ''Recover2'' [debug_recover2_response F r]"
| "debug_secrets_response F (Recover3Response r) = debug_tuple ''Recover3'' [debug_recover3_response F r]"
| "debug_secrets_response F (DeleteResponse r) = debug_tuple ''Delete'' [''Ok'']"

definition debug_padded_response :: "padded_secrets_response \<Rightarrow> string" where
  "debug_padded_response r = debug_struct ''PaddedSecretsResponse''
     [(''unpadded_length'', show_nat (unat (unpadded_length r))),
      (''padded_bytes'', debug_array (padded_bytes r))]"

section \<open>Types of the SDK (types.rs, pin.rs)\<close>

text \<open>The public key of a realm is not shown; the address is written as a quoted string.\<close>

definition debug_realm :: "('s, 'u) formats \<Rightarrow> hex_codec \<Rightarrow> 'u realm \<Rightarrow> string panics" where
  "debug_realm F X r = do {
     i \<leftarrow> realm_id_debug X (realm.realm_id r);
     Some (debug_struct_non_exhaustive ''Realm''
       [(''id'', i), (''address'', debug_str (url_as_str F (realm_address r)))])
   }"

definition debug_user_secret :: "user_secret \<Rightarrow> string" where
  "debug_user_secret s = debug_tuple ''UserSecret'' [debug_vec (SecretBytesVec (user_secret_bytes s))]"

definition debug_pin :: "pin \<Rightarrow> string" where
  "debug_pin p = debug_tuple ''Pin'' [debug_vec (SecretBytesVec (pin_bytes p))]"

definition debug_user_info :: "user_info \<Rightarrow> string" where
  "debug_user_info i = debug_tuple ''UserInfo'' [debug_vec (SecretBytesVec (user_info_bytes i))]"

definition debug_key_scalar :: "('s, 'u) formats \<Rightarrow> 's encryption_key_scalar \<Rightarrow> string" where
  "debug_key_scalar F s =
     debug_tuple ''UserSecretEncryptionKeyScalar'' [scalar_format F (key_scalar s)]"

definition debug_encryption_key :: "encryption_key \<Rightarrow> string" where
  "debug_encryption_key k = debug_tuple ''UserSecretEncryptionKey'' [debug_array (key_array k)]"

fun debug_algorithm :: "auth_key_algorithm \<Rightarrow> string" where
  "debug_algorithm RS256 = ''RS256''"
| "debug_algorithm HS256 = ''HS256''"
| "debug_algorithm EdDSA = ''EdDSA''"

definition debug_auth_key :: "auth_key \<Rightarrow> string" where
  "debug_auth_key k = debug_struct ''AuthKey''
     [(''data'', debug_vec (key_data k)), (''algorithm'', debug_algorithm (key_algorithm k))]"

definition debug_auth_key_version :: "auth_key_version \<Rightarrow> string" where
  "debug_auth_key_version v = debug_tuple ''AuthKeyVersion'' [show_nat (unat (key_version v))]"

section \<open>What the output depends on\<close>

named_theorems debug_defs \<open>the implementations that print secrets\<close>

declare debug_array_def [debug_defs] debug_vec_def [debug_defs] debug_string_def [debug_defs]
  debug_auth_token_def [debug_defs] debug_registration_version_def [debug_defs]
  debug_encrypted_secret_def [debug_defs] debug_access_key_def [debug_defs]
  debug_unlock_key_tag_def [debug_defs] debug_secret_commitment_def [debug_defs]
  debug_unlock_commitment_def [debug_defs] debug_blinded_input_def [debug_defs]
  debug_blinded_output_def [debug_defs] debug_private_key_def [debug_defs]
  debug_proof_def [debug_defs] debug_scalar_share_def [debug_defs]

lemmas message_defs =
  debug_register2_request_def debug_recover2_request_def debug_recover3_request_def
  debug_signed_public_key_def debug_padded_response_def

text \<open>Framing a value with fixed text keeps distinct values apart.\<close>

lemma debug_tuple_single_eq [simp]: "debug_tuple name [v] = debug_tuple name [v'] \<longleftrightarrow> v = v'"
  by (simp add: debug_tuple_def)

lemma comma_separated_cancel:
  "comma_separated (us @ v # ws) = comma_separated (us @ v' # ws) \<longleftrightarrow> v = v'"
proof (induction us)
  case Nil
  then show ?case by (cases ws) simp_all
next
  case (Cons u us)
  then show ?case by (cases us) simp_all
qed

text \<open>A field can be read off the output when the fields around it are the same.\<close>

lemma debug_struct_field:
  "debug_struct name (fs @ (field, v) # gs) = debug_struct name (fs @ (field, v') # gs) \<longleftrightarrow> v = v'"
  using comma_separated_cancel
    [of "map (\<lambda>(field, v). field @ '': '' @ v) fs" "field @ '': '' @ v"
        "map (\<lambda>(field, v). field @ '': '' @ v) gs" "field @ '': '' @ v'"]
  by (simp add: debug_struct_def debug_fields_def)

text \<open>
  A request on the wire shows its realm, session, kind and whether it opens a session;
  neither the token nor the ciphertexts.
\<close>

lemma debug_client_request_visible:
  assumes "request_realm r = request_realm r'" "request_session_id r = request_session_id r'"
    "request_kind r = request_kind r'"
    "(\<exists>h. request_encrypted r = HandshakeRequest h) \<longleftrightarrow>
     (\<exists>h. request_encrypted r' = HandshakeRequest h)"
  shows "debug_client_request X r = debug_client_request X r'"
proof -
  have "debug_noise_request (request_encrypted r) = debug_noise_request (request_encrypted r')"
    using assms(4)
    by (cases "request_encrypted r"; cases "request_encrypted r'") (simp_all add: debug_noise_request_def)
  then show ?thesis
    using assms(1-3) by (simp add: debug_client_request_def debug_auth_token_def debug_string_def)
qed

lemma debug_register2_request_share:
  assumes "signed_public_key (r2_oprf_signed_public_key r) = signed_public_key (r2_oprf_signed_public_key r')"
    "verifying_key (r2_oprf_signed_public_key r) = verifying_key (r2_oprf_signed_public_key r')"
    "r2_policy r = r2_policy r'"
  shows "debug_register2_request F r = debug_register2_request F r' \<longleftrightarrow>
     scalar_format F (share_scalar (r2_encryption_key_scalar_share r)) =
     scalar_format F (share_scalar (r2_encryption_key_scalar_share r'))"
proof -
  have "debug_signed_public_key F (r2_oprf_signed_public_key r) =
      debug_signed_public_key F (r2_oprf_signed_public_key r')"
    using assms(1,2) by (simp add: debug_signed_public_key_def debug_array_def)
  then show ?thesis
    using assms(3)
    by (simp add: debug_register2_request_def debug_struct_def debug_fields_def debug_defs)
qed

lemma debug_recover3_response_share:
  "debug_recover3_response F (Recover3Ok s e c) = debug_recover3_response F (Recover3Ok s' e' c') \<longleftrightarrow>
     scalar_format F (share_scalar s) = scalar_format F (share_scalar s')"
  by (simp add: debug_struct_def debug_fields_def debug_defs)

lemma debug_request_hides:
  "debug_recover2_request r = debug_recover2_request r'"
  "debug_recover3_request q = debug_recover3_request q'"
  by (simp_all add: debug_recover2_request_def debug_recover3_request_def debug_defs)

text \<open>The values that the user hands to the SDK are hidden, its scalar is not.\<close>

lemma debug_user_values_hide:
  "debug_user_secret s = debug_user_secret s'" "debug_pin p = debug_pin p'"
  "debug_user_info i = debug_user_info i'" "debug_encryption_key k = debug_encryption_key k'"
  by (simp_all add: debug_user_secret_def debug_pin_def debug_user_info_def
      debug_encryption_key_def debug_defs)

lemma debug_key_scalar_shows:
  "debug_key_scalar F s = debug_key_scalar F s' \<longleftrightarrow>
     scalar_format F (key_scalar s) = scalar_format F (key_scalar s')"
  by (simp add: debug_key_scalar_def)

lemma debug_realm_hides_key:
  "debug_realm F X (r\<lparr>realm_public_key := k\<rparr>) = debug_realm F X r"
  by (simp add: debug_realm_def)

text \<open>C28. What printing a message reveals: two registration requests with the same public
  key and policy print the same exactly when their shares of the encryption key scalar have
  the same \<open>Debug\<close> format, whatever the OPRF key, tag, commitments, version and encrypted
  secret are; a recovery response prints the share and no other secret; the requests of
  recovery print nothing of their content.\<close>

theorem debug_reveals_share:
  assumes "signed_public_key (r2_oprf_signed_public_key r) = signed_public_key (r2_oprf_signed_public_key r')"
    "verifying_key (r2_oprf_signed_public_key r) = verifying_key (r2_oprf_signed_public_key r')"
    "r2_policy r = r2_policy r'"
  shows "(debug_secrets_request F (Register2 r) = debug_secrets_request F (Register2 r') \<longleftrightarrow>
      scalar_format F (share_scalar (r2_encryption_key_scalar_share r)) =
      scalar_format F (share_scalar (r2_encryption_key_scalar_share r'))) \<and>
    (debug_secrets_response F (Recover3Response (Recover3Ok s e c)) =
        debug_secrets_response F (Recover3Response (Recover3Ok s' e' c')) \<longleftrightarrow>
      scalar_format F (share_scalar s) = scalar_format F (share_scalar s')) \<and>
    debug_secrets_request F (Recover2 q) = debug_secrets_request F (Recover2 q') \<and>
    debug_secrets_request F (Recover3 t) = debug_secrets_request F (Recover3 t')"
  unfolding debug_secrets_request.simps debug_secrets_response.simps debug_tuple_single_eq
    debug_register2_request_share [OF assms] debug_recover3_response_share
  using debug_request_hides by blast

section \<open>An example\<close>

definition text_formats :: "(string, unit) formats" where
  "text_formats = \<lparr>scalar_format = id, edwards_format = (\<lambda>k. ''key''), url_as_str = (\<lambda>u. [])\<rparr>"

definition sample_request :: "string \<Rightarrow> string \<Rightarrow> string register2_request" where
  "sample_request oprf_key sc =
     \<lparr>r2_version = RegistrationVersion zero_array, r2_oprf_private_key = PrivateKey oprf_key,
      r2_oprf_signed_public_key =
        \<lparr>signed_public_key = PublicKey zero_array, verifying_key = OprfVerifyingKey zero_array,
         signature = zero_array\<rparr>,
      r2_unlock_key_commitment = UnlockKeyCommitment zero_array, r2_unlock_key_tag = UnlockKeyTag zero_array,
      r2_encryption_key_scalar_share = ScalarShare sc,
      r2_encrypted_secret = EncryptedUserSecret zero_array,
      r2_encrypted_secret_commitment = EncryptedUserSecretCommitment zero_array,
      r2_policy = \<lparr>num_guesses = 2\<rparr>\<rparr>"

text \<open>Another OPRF key leaves the output as it is, another share changes it.\<close>

lemma debug_reveals_share_witness:
  "debug_secrets_request text_formats
       (Register2 (sample_request ''1'' ''5'') :: (string, unit) secrets_request) =
     debug_secrets_request text_formats (Register2 (sample_request ''2'' ''5'')) \<and>
   debug_secrets_request text_formats
       (Register2 (sample_request ''1'' ''5'') :: (string, unit) secrets_request) \<noteq>
     debug_secrets_request text_formats (Register2 (sample_request ''1'' ''6''))"
  by (simp add: debug_reveals_share [THEN conjunct1] sample_request_def text_formats_def
      del: debug_secrets_request.simps)

end
