(* ===== verification/Error_Text.thy ===== *)
theory Error_Text
  imports Redaction Client
begin

text \<open>
  What the errors print: the \<open>Display\<close> of the client's errors (rust/sdk/src, where it is the derived
  \<open>Debug\<close>), of \<open>RpcError\<close> (rust/networking/src/rpc.rs) and of the errors of rust/marshalling. The
  texts tell the errors apart.
\<close>

section \<open>Marshalling and RPC\<close>

fun display_serialization_error :: "serialization_error \<Rightarrow> string" where
  "display_serialization_error (SerializationError s) = ''Serialization error: '' @ s"

fun display_deserialization_error :: "deserialization_error \<Rightarrow> string" where
  "display_deserialization_error (DeserializationError s) = ''Deserialization error: '' @ s"

text \<open>The derived implementations.\<close>

fun debug_serialization_error :: "serialization_error \<Rightarrow> string" where
  "debug_serialization_error (SerializationError s) = debug_tuple ''SerializationError'' [debug_str s]"

fun debug_deserialization_error :: "deserialization_error \<Rightarrow> string" where
  "debug_deserialization_error (DeserializationError s) = debug_tuple ''DeserializationError'' [debug_str s]"

fun display_rpc_error :: "rpc_error \<Rightarrow> string" where
  "display_rpc_error NetworkError = ''network error''"
| "display_rpc_error (HttpStatus e) = ''non-OK HTTP status: '' @ show_nat (unat e)"
| "display_rpc_error (Serialization e) = ''serialization error: '' @ debug_serialization_error e"
| "display_rpc_error (Deserialization e) = ''deserialization error: '' @ debug_deserialization_error e"

section \<open>The client\<close>

fun display_request_error :: "request_error \<Rightarrow> string" where
  "display_request_error request_error.InvalidAuth = ''InvalidAuth''"
| "display_request_error request_error.UpgradeRequired = ''UpgradeRequired''"
| "display_request_error request_error.RateLimitExceeded = ''RateLimitExceeded''"
| "display_request_error request_error.Transient = ''Transient''"
| "display_request_error request_error.Assertion = ''Assertion''"

fun display_register_error :: "register_error \<Rightarrow> string" where
  "display_register_error register_error.InvalidAuth = ''InvalidAuth''"
| "display_register_error register_error.UpgradeRequired = ''UpgradeRequired''"
| "display_register_error register_error.RateLimitExceeded = ''RateLimitExceeded''"
| "display_register_error register_error.Assertion = ''Assertion''"
| "display_register_error register_error.Transient = ''Transient''"

fun display_recover_error :: "recover_error \<Rightarrow> string" where
  "display_recover_error (InvalidPin guesses_remaining) =
     debug_struct ''InvalidPin'' [(''guesses_remaining'', show_nat (unat guesses_remaining))]"
| "display_recover_error recover_error.NotRegistered = ''NotRegistered''"
| "display_recover_error recover_error.InvalidAuth = ''InvalidAuth''"
| "display_recover_error recover_error.UpgradeRequired = ''UpgradeRequired''"
| "display_recover_error recover_error.RateLimitExceeded = ''RateLimitExceeded''"
| "display_recover_error recover_error.Assertion = ''Assertion''"
| "display_recover_error recover_error.Transient = ''Transient''"

fun display_delete_error :: "delete_error \<Rightarrow> string" where
  "display_delete_error delete_error.InvalidAuth = ''InvalidAuth''"
| "display_delete_error delete_error.UpgradeRequired = ''UpgradeRequired''"
| "display_delete_error delete_error.RateLimitExceeded = ''RateLimitExceeded''"
| "display_delete_error delete_error.Assertion = ''Assertion''"
| "display_delete_error delete_error.Transient = ''Transient''"

section \<open>The texts tell the errors apart\<close>

lemma show_nat_inject: "show_nat (unat v) = show_nat (unat w) \<longleftrightarrow> v = w" for v w :: u16
proof
  assume eq: "show_nat (unat v) = show_nat (unat w)"
  have bound: "unat x < 2 ^ 64" for x :: u16
  proof -
    have "unat x < 65536"
      using unat_bound [of x] by simp
    then show ?thesis
      by (rule less_le_trans) simp
  qed
  have "Some (unat v) = Some (unat w)"
    unfolding parse_digits_show [OF bound, symmetric] eq ..
  then have "unat v = unat w"
    by simp
  then show "v = w"
    by (rule word_unat_eq_iff [THEN iffD2])
qed simp

lemma display_recover_error_inject: "display_recover_error e = display_recover_error e' \<longleftrightarrow> e = e'"
  by (cases e; cases e') (simp_all add: debug_struct_def debug_fields_def show_nat_inject)

lemma display_register_error_inject: "display_register_error e = display_register_error e' \<longleftrightarrow> e = e'"
  by (cases e; cases e') simp_all

lemma display_delete_error_inject: "display_delete_error e = display_delete_error e' \<longleftrightarrow> e = e'"
  by (cases e; cases e') simp_all

lemma display_rpc_error_status: "display_rpc_error (HttpStatus a) = display_rpc_error (HttpStatus b) \<longleftrightarrow> a = b"
  by (simp add: show_nat_inject)

lemma display_rpc_error_distinct:
  "display_rpc_error NetworkError \<noteq> display_rpc_error (HttpStatus a)"
  "display_rpc_error (HttpStatus a) \<noteq> display_rpc_error (Serialization s)"
  "display_rpc_error (HttpStatus a) \<noteq> display_rpc_error (Deserialization d)"
  "display_rpc_error (Serialization s) \<noteq> display_rpc_error (Deserialization d)"
  by simp_all

end
