(* ===== verification/Spec2Isabelle.thy ===== *)
theory Spec2Isabelle
  imports Foreign_Witnesses Vault_Witnesses Hardware_Witness Error_Text
begin

text \<open>
  A verification development for the Juicebox SDK (the Rust workspace under src/rust). The SDK
  stores a secret, protected by a PIN, on several realms (servers, of which hardware realms
  speak Noise and software realms plain RPC), so that a threshold of them is needed to get
  it back and each realm can limit the number of guesses.

  \<^bold>\<open>The program and the theories.\<close> Each theory models one part; the definitions have the names
  of the code, with a suffix or prefix where HOL has the name already.

  \<^item> \<open>Prelude\<close>: Rust's vocabulary. \<open>Result\<close> is a sum (\<open>Err\<close> on the left), a panic is \<open>None\<close>,
    \<open>[u8; N]\<close> is the type \<open>barray\<close>, integers are words; the grouping loop over a \<open>HashMap\<close>.
  \<^item> \<open>Primitives\<close>: the cryptographic crates as parameter records \<open>curve\<close> and \<open>prims\<close>, with the
    documented laws \<open>curve_laws\<close> and \<open>prim_laws\<close> that theorems take as hypotheses.
  \<^item> \<open>Marshalling\<close> (rust/marshalling), \<open>Lagrange\<close> and \<open>Secret_Sharing\<close> (rust/secret_sharing), \<open>Oprf\<close>
    (rust/oprf), \<open>Noise\<close> (rust/noise), \<open>Network\<close> (rust/networking), \<open>Realm_Types\<close> and \<open>Realm_Api\<close>
    (rust/realm/api): the libraries.
  \<^item> \<open>Sdk_Types\<close>, \<open>Configuration\<close>, \<open>Effects\<close>, \<open>Join\<close>, \<open>Request\<close>, \<open>Register\<close>, \<open>Recover\<close>, \<open>Delete\<close>,
    \<open>Client\<close> (rust/sdk/src): the client. \<open>Effects\<close> is the monad in which the client's functions
    are written: a step takes the client's state (the sessions and the outside world), may
    panic, and returns a \<open>Result\<close> with the new state. \<open>Join\<close> is \<open>join_at_least_threshold\<close>, on which
    the three client operations rest.
  \<^item> \<open>End_To_End\<close>: registration and recovery composed, against realms that answer as the
    whitepaper documents (\<open>honest_answer\<close>, \<open>serves\<close>), the others failing in any way.
  \<^item> \<open>Realm_Spec\<close>: the realm of the whitepaper as a state machine (\<open>realm_step\<close>) over the record of a
    user; \<open>hosts\<close> says which realms of an environment run it. \<open>Vault\<close>: the abstract client, a vault
    that holds a secret behind a PIN and counts guesses (\<open>vault_step\<close>), and its relation to the
    records of the realms (\<open>vault_in\<close>). \<open>Hardware_Realm\<close>: an enclave that runs the machine behind the
    server side of rust/noise (\<open>enclave_step\<close>) and may lose its sessions. \<open>Hardware_Vault\<close>: the client
    over such enclaves alone. \<open>Demo\<close> (rust/cli/demo): the program that makes a client and
    puts it through a scenario.
  \<^item> \<open>Realm_Auth\<close> (rust/realm/auth) and \<open>Client_Auth\<close> (rust/sdk/src/client_auth.rs): creation and
    validation of authentication tokens, and the generator that makes them on the device. The
    crate jwt_simple is the record \<open>jwt_lib\<close>, with \<open>jwt_laws\<close>, \<open>verifies\<close> and \<open>checks_audience\<close>.
  \<^item> \<open>Redaction\<close>: the \<open>Debug\<close> output of messages and secrets, over all crates. \<open>Reqwest_Client\<close>
    (rust/networking/src/reqwest.rs, rust/sdk/src/lib.rs): construction of the reqwest transport.
    \<open>Error_Text\<close>: the texts of the errors.
  \<^item> \<open>Timing\<close>: how long a request sleeps between its attempts.
  \<^item> \<open>Bridge\<close> (rust/sdk/bridge/src/lib.rs and parts of ffi and jni): the errors and enumerations of
    the bridges, the arrays and HTTP messages of the C interface, and the calls completed by
    callbacks, as a step relation \<open>runs\<close> over operations with a specification of their outcomes; the
    state of the HTTP client with its number of owners (\<open>strong_count\<close>, the \<open>Arc\<close> whose
    references foreign code gives back).
  \<^item> \<open>Foreign_C\<close> and \<open>Foreign_Calls\<close> (rust/sdk/bridge/ffi/src/lib.rs and auth.rs): the entry points
    of the C interface over a heap of boxes, each returning, panicking or being undefined, and the
    process that uses them (\<open>c_step\<close>, \<open>c_runs\<close>): its calls, the tasks they start, the responses. What the
    C program may call depends on its history (\<open>c_legal\<close>): the pointers that calls have given it
    and that it has not destroyed (\<open>owned\<close>), and the operations without an answer (\<open>unanswered\<close>).
  \<^item> \<open>Foreign_Java\<close> (rust/sdk/bridge/jni): the entry points of the Java interface, its exceptions
    and its HTTP client. \<open>Foreign_Web\<close> (rust/sdk/bridge/wasm): the objects of the web interface over
    the record \<open>browser\<close>.
  \<^item> \<open>Token_Cli\<close> (rust/cli/tokens): the tool that makes and checks tokens. \<open>Process_Group\<close>
    (rust/process_group, rust/software_realm_runner): child processes over the record \<open>os\<close>, whose
    calls are logged with their answers.
  \<^item> \<open>Examples\<close>, \<open>Honest_Realms\<close>, \<open>Witnesses\<close>, \<open>Vault_Witnesses\<close>, \<open>Hardware_Witness\<close> and
    \<open>Foreign_Witnesses\<close>: a concrete instance of every parameter (in \<open>Honest_Realms\<close> one whose realms
    run the whitepaper's machine behind an encoded transport, in \<open>Hardware_Witness\<close> one with
    enclaves), and every property that has a hypothesis applied to it.

  \<^bold>\<open>What the lemmas show.\<close> The libraries: round trips of the encodings, recovery of shared secrets
  from any threshold of shares and in any order, perfect secrecy of fewer shares, correctness of the threshold OPRF and of its
  proofs (completeness and special soundness), agreement of the two sides of the Noise
  handshake, non-reuse of nonces, separation of the MAC inputs. The client: the requests that
  need forward secrecy never travel in a handshake, sessions are isolated, expire and are
  discarded after errors, retries are bounded, the joins return what the threshold promises,
  what registration uploads can be recovered, recovery uses only shares that are committed to
  under the unlock key, registration and recovery do not panic while the hardware realms have slots whose
  sessions have messages left and no attempt is given an answer that claims a length beyond its
  padding (\<open>short_answers\<close>; \<open>overlong_answer_panics\<close> is what happens otherwise), recovery in a release
  build (\<open>guess_underflow\<close>) and among the realms of the current configuration
  (\<open>sessions_of_current_configuration\<close>).
  Client and realms together: whoever registered recovers with the same PIN and nobody with another
  one (\<open>End_To_End\<close>), and over realms that run the whitepaper's machine any sequence of
  registrations, recoveries and deletions does what the vault does, guesses included
  (\<open>client_refines_vault\<close>); a hardware realm's machine answers a request through handshakes, transport
  messages and lost sessions as if it had been asked directly, and processes it once
  (\<open>hardware_request_answered\<close>), so that enclaves that lose sessions keep the promise of the vault
  as well (\<open>hardware_realms_are_vault\<close>); the demo is one such sequence, and never panics (\<open>demo_completes\<close>).
  The bridges: a C program that keeps the rules never reaches a freed box, and registering is answered
  unless the secret is too long; the Java interface does what the C interface does; requests and
  tokens that foreign code completes are delivered to the call that waits for them, HTTP requests while
  it does not call back more often than it was asked (\<open>callback_too_many\<close>). Printing a message for debugging reveals no secret but
  the share of the encryption key scalar (\<open>debug_reveals_share\<close>).

  \<^bold>\<open>Interfaces.\<close> The locale \<open>secret_type\<close> is the trait \<open>Secret\<close> (interpreted on scalars and points),
  \<open>wire_type\<close> the trait \<open>Bytes\<close>, \<open>channel\<close> an established transport, \<open>budget\<close> an invariant that steps may
  consume (interpreted on the messages left in the sessions and on the sessions unchanged; the
  proofs that requests do not panic rest on it), \<open>call_system\<close> a system whose steps act on a table
  of pending calls, and \<open>reliable_calls\<close> one that cancels none (the first interpreted on the HTTP clients of the C and the Java
  interface, the second on the token manager). \<open>vault_client\<close> is the contract between the client and its realms under which the
  client is a vault (interpreted on the demo's client over the realms of \<open>Honest_Realms\<close>).

  \<^bold>\<open>Bounds and termination.\<close> The retry loops are structural recursions over the attempts that
  remain (2 for software realms, 5 for hardware realms), the loop over previous
  configurations over the list of them, so every function is total and no fuel is needed.
  \<open>serves\<close> and \<open>hosts\<close> are indexed by the number of requests that the sessions are still good for: a
  recovery uses at most three for each realm, a registration two, a deletion one. A fresh session is
  good for \<open>2 ^ 63\<close>.

  \<^bold>\<open>Concurrency.\<close> The futures of a join complete in an order that the parameter \<open>env_executor\<close>
  chooses; the effects of a future take place when it completes. Futures of one operation
  touch different session slots (see \<open>session_isolation\<close>), so the sessions they leave do not
  depend on a finer interleaving; the order of the requests seen by the transport may.

  The tasks of the C interface run one at a time and to their end, in any order.

  \<^bold>\<open>Not modelled.\<close> Tracing and logging, the \<open>Debug\<close> output of values with durations, conversion of
  configurations and generators from and to JSON (serde_json), the freeing of memory by foreign
  code, the version strings of the interfaces, the tokio runtime, parsing of arguments (clap), tests and
  benchmarks. Timing of constant-time comparisons is not modelled; their results are. Strings
  are lists of characters below 256. The realms are not part of the repository: that the
  honest ones answer as the whitepaper says is a hypothesis (\<open>serves\<close> in \<open>End_To_End\<close>, \<open>hosts\<close> in
  \<open>Realm_Spec\<close> and \<open>Vault\<close>).
\<close>

end
